(* ===== verification/Prelude.thy ===== *)
theory Prelude
  imports Main "HOL-Library.Word"
begin

text \<open>
  Shared vocabulary of the development: the machine types of the 32-bit ARM kernel, the
  error numbers the system calls return, the fact collections the components extend, and
  the generic lemmas on lists, function updates and words that the component proofs use.
\<close>

unbundle bit_operations_syntax

section \<open>Machine types\<close>

text \<open>
  The target is 32-bit ARM: \<open>unsigned int\<close> and \<open>unsigned long\<close> are 32 bits wide,
  \<open>u64\<close> is 64 bits wide. Values whose arithmetic can wrap are words; a signed
  \<open>int\<close> that is only compared and copied (a process id, a return code, a priority) is
  an \<open>int\<close>.
\<close>

type_synonym u8 = "8 word"
type_synonym u32 = "32 word"
type_synonym ulong = "32 word"
type_synonym u64 = "64 word"
type_synonym pid_t = int
type_synonym errno = int

section \<open>Error numbers\<close>

text \<open>The error numbers of \<open>asm-generic/errno-base.h\<close> that the modelled code returns negated.\<close>

abbreviation (input) EPERM :: errno where "EPERM \<equiv> 1"
abbreviation (input) ESRCH :: errno where "ESRCH \<equiv> 3"
abbreviation (input) ENOMEM :: errno where "ENOMEM \<equiv> 12"
abbreviation (input) EACCES :: errno where "EACCES \<equiv> 13"
abbreviation (input) EFAULT :: errno where "EFAULT \<equiv> 14"
abbreviation (input) EINVAL :: errno where "EINVAL \<equiv> 22"
abbreviation (input) ENOSYS :: errno where "ENOSYS \<equiv> 38"

section \<open>Fact collections\<close>

named_theorems queue_simps \<open>equations of the kernel list operations on queues\<close>
named_theorems frame_simps \<open>fields that an operation leaves unchanged\<close>
named_theorems state_defs \<open>definitions of the state accessors and updaters\<close>

section \<open>Kernel lists as queues\<close>

text \<open>
  A queue threaded through \<open>struct list_head\<close> nodes (\<open>linux/list.h\<close>) is the HOL list of
  the objects on it, from \<open>head.next\<close> to \<open>head.prev\<close>. A node is linked
  (\<open>!list_empty(&node)\<close>) when the object is a member. The operations below are the list
  operations the scheduler calls.
\<close>

definition list_add :: "'a \<Rightarrow> 'a list \<Rightarrow> 'a list" where
  "list_add x q = x # q"

definition list_add_tail :: "'a \<Rightarrow> 'a list \<Rightarrow> 'a list" where
  "list_add_tail x q = q @ [x]"

definition list_del_init :: "'a \<Rightarrow> 'a list \<Rightarrow> 'a list" where
  "list_del_init x q = remove1 x q"

definition list_move :: "'a \<Rightarrow> 'a list \<Rightarrow> 'a list" where
  "list_move x q = list_add x (list_del_init x q)"

definition list_move_tail :: "'a \<Rightarrow> 'a list \<Rightarrow> 'a list" where
  "list_move_tail x q = list_add_tail x (list_del_init x q)"

lemmas list_op_defs = list_add_def list_add_tail_def list_del_init_def list_move_def
  list_move_tail_def

lemma set_list_add [queue_simps, simp]: "set (list_add x q) = insert x (set q)"
  by (simp add: list_op_defs)

lemma set_list_add_tail [queue_simps, simp]: "set (list_add_tail x q) = insert x (set q)"
  by (simp add: list_op_defs)

lemma set_list_del_init [queue_simps]: "distinct q \<Longrightarrow> set (list_del_init x q) = set q - {x}"
  by (simp add: list_op_defs set_remove1_eq)

lemma set_list_move_tail [queue_simps, simp]: "x \<in> set q \<Longrightarrow> set (list_move_tail x q) = set q"
  by (induction q) (auto simp: list_op_defs)

lemma set_list_move [queue_simps, simp]: "x \<in> set q \<Longrightarrow> set (list_move x q) = set q"
  by (induction q) (auto simp: list_op_defs)

lemma distinct_list_add [queue_simps, simp]: "distinct (list_add x q) \<longleftrightarrow> x \<notin> set q \<and> distinct q"
  by (simp add: list_op_defs)

lemma distinct_list_add_tail [queue_simps, simp]:
  "distinct (list_add_tail x q) \<longleftrightarrow> x \<notin> set q \<and> distinct q"
  by (auto simp: list_op_defs)

lemma distinct_list_del_init [queue_simps, simp]: "distinct q \<Longrightarrow> distinct (list_del_init x q)"
  by (simp add: list_op_defs)

lemma distinct_list_move_tail [queue_simps, simp]: "distinct q \<Longrightarrow> distinct (list_move_tail x q)"
  by (simp add: list_op_defs)

lemma distinct_list_move [queue_simps, simp]: "distinct q \<Longrightarrow> distinct (list_move x q)"
  by (simp add: list_op_defs)

lemma length_list_add [queue_simps, simp]: "length (list_add x q) = Suc (length q)"
  by (simp add: list_op_defs)

lemma length_list_add_tail [queue_simps, simp]: "length (list_add_tail x q) = Suc (length q)"
  by (simp add: list_op_defs)

lemma length_list_del_init [queue_simps, simp]:
  "x \<in> set q \<Longrightarrow> length (list_del_init x q) = length q - 1"
  by (simp add: list_op_defs length_remove1)

lemma length_list_move_tail [queue_simps, simp]:
  "x \<in> set q \<Longrightarrow> length (list_move_tail x q) = length q"
  by (induction q) (auto simp: list_op_defs)

lemma length_list_move [queue_simps, simp]: "x \<in> set q \<Longrightarrow> length (list_move x q) = length q"
  by (induction q) (auto simp: list_op_defs)

lemma list_add_nonempty [simp]:
  "list_add x q \<noteq> []" "list_add_tail x q \<noteq> []" "list_move x q \<noteq> []" "list_move_tail x q \<noteq> []"
  by (simp_all add: list_op_defs)

lemma list_del_init_notin [queue_simps, simp]: "x \<notin> set q \<Longrightarrow> list_del_init x q = q"
  by (simp add: list_op_defs remove1_idem)

lemma list_del_add_tail [queue_simps]:
  "x \<notin> set q \<Longrightarrow> list_del_init x (list_add_tail x q) = q"
  by (simp add: list_op_defs remove1_append)

lemma list_del_add [queue_simps]: "list_del_init x (list_add x q) = q"
  by (simp add: list_op_defs)

lemma hd_list_move_tail:
  assumes "distinct q" "q = x # y # r"
  shows "hd (list_move_tail x q) = y" "last (list_move_tail x q) = x"
  using assms by (auto simp: list_op_defs)

section \<open>Words\<close>

lemma unat_inc:
  fixes w :: "'a::len word"
  assumes "Suc (unat w) < 2 ^ LENGTH('a)"
  shows "unat (w + 1) = Suc (unat w)"
proof -
  have "unat (w + 1) = (unat w + 1) mod 2 ^ LENGTH('a)"
    by (metis unat_word_ariths(1) unat_1 mod_add_right_eq unat_of_nat of_nat_1)
  with assms show ?thesis by simp
qed

lemma unat_dec: "w \<noteq> 0 \<Longrightarrow> unat (w - 1) = unat w - 1"
  by (metis unat_minus_one)

lemma unat_eq_1_iff: "unat w = Suc 0 \<longleftrightarrow> w = 1"
  by (simp add: word_unat_eq_iff)

lemma word_of_nat_dec: "0 < n \<Longrightarrow> (of_nat (n - Suc 0) :: 'a::len word) = of_nat n - 1"
  by (cases n) simp_all

lemma and_not_and [simp]: "(w AND NOT m) AND m = (0 :: 'a::len word)"
  by (rule bit_eqI) (auto simp: bit_simps)

end
