(* ===== verification/Sched_Types.thy ===== *)
theory Sched_Types
  imports Prelude
begin

text \<open>
  The data model of the scheduler: \<open>struct task_struct\<close> and its scheduling entities
  (\<open>include/linux/sched.h\<close>), the run queues and task groups (\<open>kernel/sched/sched.h\<close>),
  and the whole scheduler state of the uniprocessor build (\<open>goldfish_armv7_defconfig\<close>
  has no \<open>CONFIG_SMP\<close>). Pointers to kernel objects are natural numbers; the objects
  live in stores indexed by them. Objects are numbered in the order of their creation, so a
  group's parent has a smaller number than the group. Spin locks, RCU sections and memory
  barriers have no effect on one CPU with the run queue lock held and are left out; calls
  into code outside the repository that only notify it are recorded in the \<open>events\<close> trace.
\<close>

section \<open>Scheduling policies, classes and constants\<close>

text \<open>Policies of \<open>include/linux/sched.h\<close>.\<close>

definition SCHED_NORMAL :: int where "SCHED_NORMAL = 0"
definition SCHED_FIFO :: int where "SCHED_FIFO = 1"
definition SCHED_RR :: int where "SCHED_RR = 2"
definition SCHED_BATCH :: int where "SCHED_BATCH = 3"
definition SCHED_IDLE :: int where "SCHED_IDLE = 5"
definition SCHED_RAS :: int where "SCHED_RAS = 6"
definition SCHED_RESET_ON_FORK :: int where "SCHED_RESET_ON_FORK = 0x40000000"

lemmas policy_defs = SCHED_NORMAL_def SCHED_FIFO_def SCHED_RR_def SCHED_BATCH_def SCHED_IDLE_def
  SCHED_RAS_def SCHED_RESET_ON_FORK_def

text \<open>Task states; a state is a bit mask.\<close>

definition TASK_RUNNING :: u32 where "TASK_RUNNING = 0"
definition TASK_INTERRUPTIBLE :: u32 where "TASK_INTERRUPTIBLE = 1"
definition TASK_UNINTERRUPTIBLE :: u32 where "TASK_UNINTERRUPTIBLE = 2"
definition TASK_DEAD :: u32 where "TASK_DEAD = 64"
definition TASK_WAKEKILL :: u32 where "TASK_WAKEKILL = 128"
definition TASK_KILLABLE :: u32 where "TASK_KILLABLE = TASK_WAKEKILL OR TASK_UNINTERRUPTIBLE"
definition TASK_NORMAL :: u32 where "TASK_NORMAL = TASK_INTERRUPTIBLE OR TASK_UNINTERRUPTIBLE"

lemmas task_state_defs = TASK_RUNNING_def TASK_INTERRUPTIBLE_def TASK_UNINTERRUPTIBLE_def
  TASK_DEAD_def TASK_WAKEKILL_def TASK_KILLABLE_def TASK_NORMAL_def

text \<open>Flags of enqueue, dequeue and wake-up operations.\<close>

definition ENQUEUE_WAKEUP :: u32 where "ENQUEUE_WAKEUP = 1"
definition ENQUEUE_HEAD :: u32 where "ENQUEUE_HEAD = 2"
definition ENQUEUE_WAKING :: u32 where "ENQUEUE_WAKING = 0"
definition DEQUEUE_SLEEP :: u32 where "DEQUEUE_SLEEP = 1"
definition WF_SYNC :: u32 where "WF_SYNC = 1"
definition WF_FORK :: u32 where "WF_FORK = 2"

lemmas flag_defs = ENQUEUE_WAKEUP_def ENQUEUE_HEAD_def ENQUEUE_WAKING_def DEQUEUE_SLEEP_def
  WF_SYNC_def WF_FORK_def

definition flag_set :: "u32 \<Rightarrow> u32 \<Rightarrow> bool" where
  "flag_set flags f \<longleftrightarrow> flags AND f \<noteq> 0"

definition MAX_USER_RT_PRIO :: int where "MAX_USER_RT_PRIO = 100"
definition MAX_RT_PRIO :: int where "MAX_RT_PRIO = MAX_USER_RT_PRIO"
definition MAX_PRIO :: int where "MAX_PRIO = MAX_RT_PRIO + 40"

lemmas prio_defs = MAX_USER_RT_PRIO_def MAX_RT_PRIO_def MAX_PRIO_def

definition rt_prio :: "int \<Rightarrow> bool" where
  "rt_prio p \<longleftrightarrow> p < MAX_RT_PRIO"

definition rt_policy :: "int \<Rightarrow> bool" where
  "rt_policy policy \<longleftrightarrow> policy = SCHED_FIFO \<or> policy = SCHED_RR"

definition NICE_TO_PRIO :: "int \<Rightarrow> int" where
  "NICE_TO_PRIO nice = MAX_RT_PRIO + nice + 20"

definition PRIO_TO_NICE :: "int \<Rightarrow> int" where
  "PRIO_TO_NICE p = p - MAX_RT_PRIO - 20"

definition RUNTIME_INF :: u64 where
  "RUNTIME_INF = NOT 0"

text \<open>Time slices in ticks; \<open>HZ\<close>, the tick rate, is set by the architecture's configuration.\<close>

definition RR_TIMESLICE :: "int \<Rightarrow> int" where
  "RR_TIMESLICE hz = 100 * hz div 1000"
definition RAS_FG_TIMESLICE :: "int \<Rightarrow> int" where
  "RAS_FG_TIMESLICE hz = 50 * hz div 1000"
definition RAS_BG_TIMESLICE :: "int \<Rightarrow> int" where
  "RAS_BG_TIMESLICE hz = 30 * hz div 1000"
definition RAS_INC_TIME :: "int \<Rightarrow> int" where
  "RAS_INC_TIME hz = 10 * hz div 1000"

lemmas timeslice_defs = RR_TIMESLICE_def RAS_FG_TIMESLICE_def RAS_BG_TIMESLICE_def RAS_INC_TIME_def

text \<open>The five scheduling classes, linked from the highest to the lowest by \<open>next\<close>.\<close>

datatype sched_class_id =
  stop_sched_class | rt_sched_class | ras_sched_class | fair_sched_class | idle_sched_class

section \<open>Kernel objects\<close>

type_synonym task = nat
type_synonym tg = nat
type_synonym ca = nat

text \<open>A real-time entity is the one inside a task or the one of a task group on this CPU.\<close>

datatype rt_se = TaskSE task | GroupSE tg

record load_weight =
  weight :: ulong
  inv_weight :: ulong

record sched_entity =
  load :: load_weight
  se_on_rq :: u32
  exec_start :: u64
  sum_exec_runtime :: u64
  vruntime :: u64
  prev_sum_exec_runtime :: u64
  nr_migrations :: u64
  exec_max :: u64

record sched_rt_entity =
  rt_timeout :: ulong
  rt_time_slice :: u32
  rt_parent :: "rt_se option"
  rt_rq_of :: tg
  my_q :: "tg option"

record sched_ras_entity =
  ras_timeout :: ulong
  ras_time_slice :: u32
  ras_weight :: int

record task_struct =
  wcounts :: u32
  trace_flag :: int
  rr_fifo_trace :: int
  tstate :: u32
  tflags :: u32
  on_rq :: bool
  prio :: int
  static_prio :: int
  normal_prio :: int
  rt_priority :: int
  sched_class :: sched_class_id
  se :: sched_entity
  ras :: sched_ras_entity
  sched_task_group :: tg
  policy :: int
  sched_reset_on_fork :: bool
  has_mm :: bool
  pid :: pid_t
  need_resched :: bool
  nvcsw :: ulong
  nivcsw :: ulong
  rlim_cur :: "nat \<Rightarrow> ulong"
  rlim_max :: "nat \<Rightarrow> ulong"
  sched_exp :: u64
  task_ca :: ca
  tif_sigpending :: bool
  sigkill_pending :: bool

text \<open>
  \<open>struct rt_rq\<close> with its \<open>struct rt_prio_array\<close>: \<open>queue i\<close> is the run list of
  priority \<open>i\<close>, \<open>bitmap i\<close> the bit that marks it non-empty.
\<close>

record rt_rq =
  bitmap :: "int \<Rightarrow> bool"
  queue :: "int \<Rightarrow> rt_se list"
  rt_nr_running :: ulong
  highest_prio_curr :: int
  rt_throttled :: bool
  rt_time :: u64
  rt_runtime :: u64
  rt_nr_boosted :: ulong
  rt_rq_tg :: "tg option"

record ras_rq =
  run_list :: "task list"
  ras_nr_running :: ulong
  ras_time :: u64

record rt_bandwidth =
  rt_period :: u64
  rt_b_runtime :: u64
  rt_timer_active :: bool

record task_group =
  tg_rt_se :: "rt_se option"
  tg_rt_bandwidth :: rt_bandwidth
  tg_parent :: "tg option"
  tg_children :: "tg list"
  tg_cgroup :: "nat option"

record rq =
  nr_running :: ulong
  skip_clock_update :: int
  nr_switches :: u64
  cfs_h_nr_running :: ulong
  rq_ras :: ras_rq
  leaf_rt_rq_list :: "tg list"
  nr_uninterruptible :: ulong
  curr :: task
  idle :: task
  stop :: "task option"
  clock :: u64
  clock_task :: u64

text \<open>What the scheduler tells code outside the repository, and the log lines the tracing reads.\<close>

datatype kevent =
    Printk string
  | Account_group_exec_runtime task u64
  | Wq_worker_waking_up task
  | Rt_mutex_adjust_pi task
  | Start_bandwidth_timer tg

text \<open>The whole scheduler state. The run queue of the root group is \<open>rt_rqs root_task_group\<close>.\<close>

record sched_state =
  tasks :: "task \<Rightarrow> task_struct"
  rt_ses :: "rt_se \<Rightarrow> sched_rt_entity"
  rt_rqs :: "tg \<Rightarrow> rt_rq"
  tgs :: "tg \<Rightarrow> task_group"
  rq :: rq
  sysctl_sched_rt_period :: int
  sysctl_sched_rt_runtime :: int
  def_rt_bandwidth :: rt_bandwidth
  task_groups :: "tg list"
  cpuacct_active :: bool
  cpuusage :: "ca \<Rightarrow> u64"
  ca_parent :: "ca \<Rightarrow> ca option"
  events :: "kevent list"

definition root_task_group :: tg where "root_task_group = 0"

text \<open>
  What the scheduler takes from code outside the repository: the tick rate, the clock, the
  path of a control group, and whether a group is an autogroup with a path of its own.
\<close>

record kenv =
  HZ :: int
  sched_clock_cpu :: u64
  cgroup_path :: "nat \<Rightarrow> string"
  autogroup_path :: "tg \<Rightarrow> string option"

section \<open>State access\<close>

definition upd_task :: "task \<Rightarrow> (task_struct \<Rightarrow> task_struct) \<Rightarrow> sched_state \<Rightarrow> sched_state" where
  "upd_task t f s = s\<lparr>tasks := (tasks s)(t := f (tasks s t))\<rparr>"

definition upd_rq :: "(rq \<Rightarrow> rq) \<Rightarrow> sched_state \<Rightarrow> sched_state" where
  "upd_rq f s = s\<lparr>rq := f (rq s)\<rparr>"

definition upd_rt_rq :: "tg \<Rightarrow> (rt_rq \<Rightarrow> rt_rq) \<Rightarrow> sched_state \<Rightarrow> sched_state" where
  "upd_rt_rq g f s = s\<lparr>rt_rqs := (rt_rqs s)(g := f (rt_rqs s g))\<rparr>"

definition upd_rt_se :: "rt_se \<Rightarrow> (sched_rt_entity \<Rightarrow> sched_rt_entity) \<Rightarrow> sched_state \<Rightarrow> sched_state" where
  "upd_rt_se e f s = s\<lparr>rt_ses := (rt_ses s)(e := f (rt_ses s e))\<rparr>"

definition emit :: "kevent \<Rightarrow> sched_state \<Rightarrow> sched_state" where
  "emit e s = s\<lparr>events := events s @ [e]\<rparr>"

lemmas upd_defs [state_defs] = upd_task_def upd_rq_def upd_rt_rq_def upd_rt_se_def emit_def

definition task_current :: "sched_state \<Rightarrow> task \<Rightarrow> bool" where
  "task_current s p \<longleftrightarrow> curr (rq s) = p"

definition rt_task :: "task_struct \<Rightarrow> bool" where
  "rt_task t = rt_prio (prio t)"

definition inc_nr_running :: "sched_state \<Rightarrow> sched_state" where
  "inc_nr_running = upd_rq (\<lambda>r. r\<lparr>nr_running := nr_running r + 1\<rparr>)"

definition dec_nr_running :: "sched_state \<Rightarrow> sched_state" where
  "dec_nr_running = upd_rq (\<lambda>r. r\<lparr>nr_running := nr_running r - 1\<rparr>)"

definition set_tsk_need_resched :: "task \<Rightarrow> sched_state \<Rightarrow> sched_state" where
  "set_tsk_need_resched p = upd_task p (\<lambda>t. t\<lparr>need_resched := True\<rparr>)"

definition clear_tsk_need_resched :: "task \<Rightarrow> sched_state \<Rightarrow> sched_state" where
  "clear_tsk_need_resched p = upd_task p (\<lambda>t. t\<lparr>need_resched := False\<rparr>)"

text \<open>On a uniprocessor \<open>resched_task\<close> sets the flag and sends no interrupt.\<close>

definition resched_task :: "task \<Rightarrow> sched_state \<Rightarrow> sched_state" where
  "resched_task p = set_tsk_need_resched p"

text \<open>Pending signals: the flag of the thread, and \<open>SIGKILL\<close> in its pending set.\<close>

definition signal_pending :: "task_struct \<Rightarrow> bool" where
  "signal_pending t = tif_sigpending t"

definition fatal_signal_pending1 :: "task_struct \<Rightarrow> bool" where
  "fatal_signal_pending1 t = sigkill_pending t"

definition fatal_signal_pending :: "task_struct \<Rightarrow> bool" where
  "fatal_signal_pending t \<longleftrightarrow> signal_pending t \<and> fatal_signal_pending1 t"

definition signal_pending_state :: "u32 \<Rightarrow> task_struct \<Rightarrow> bool" where
  "signal_pending_state state t =
     (if \<not> flag_set state (TASK_INTERRUPTIBLE OR TASK_WAKEKILL) then False
      else if \<not> signal_pending t then False
      else flag_set state TASK_INTERRUPTIBLE \<or> fatal_signal_pending1 t)"

definition rt_bandwidth_enabled :: "sched_state \<Rightarrow> bool" where
  "rt_bandwidth_enabled s \<longleftrightarrow> sysctl_sched_rt_runtime s \<ge> 0"

definition task_rlimit :: "task_struct \<Rightarrow> nat \<Rightarrow> ulong" where
  "task_rlimit t l = rlim_cur t l"

definition task_rlimit_max :: "task_struct \<Rightarrow> nat \<Rightarrow> ulong" where
  "task_rlimit_max t l = rlim_max t l"

definition RLIMIT_NICE :: nat where "RLIMIT_NICE = 13"
definition RLIMIT_RTPRIO :: nat where "RLIMIT_RTPRIO = 14"
definition RLIMIT_RTTIME :: nat where "RLIMIT_RTTIME = 15"
definition RLIM_INFINITY :: ulong where "RLIM_INFINITY = NOT 0"

section \<open>CPU accounting groups\<close>

text \<open>
  \<open>cpuacct_charge\<close> of \<open>core.c\<close>: add the time to the group of the task and to every
  ancestor. The walk follows parent links; a parent was created before its child.
\<close>

function ca_chain :: "(ca \<Rightarrow> ca option) \<Rightarrow> ca \<Rightarrow> ca list" where
  "ca_chain par c = c # (case par c of None \<Rightarrow> [] | Some p \<Rightarrow> if p < c then ca_chain par p else [])"
  by pat_completeness auto
termination
  by (relation "measure snd") auto

declare ca_chain.simps [simp del]

definition cpuacct_charge :: "task \<Rightarrow> u64 \<Rightarrow> sched_state \<Rightarrow> sched_state" where
  "cpuacct_charge tsk cputime s =
     (if \<not> cpuacct_active s then s
      else fold (\<lambda>c st. st\<lparr>cpuusage := (cpuusage st)(c := cpuusage st c + cputime)\<rparr>)
             (ca_chain (ca_parent s) (task_ca (tasks s tsk))) s)"

text \<open>\<open>task_group_path\<close> of \<open>debug.c\<close>.\<close>

definition task_group_path :: "kenv \<Rightarrow> sched_state \<Rightarrow> tg \<Rightarrow> string" where
  "task_group_path env s g =
     (case autogroup_path env g of
        Some path \<Rightarrow> path
      | None \<Rightarrow> (case tg_cgroup (tgs s g) of
                   None \<Rightarrow> []
                 | Some cg \<Rightarrow> cgroup_path env cg))"

section \<open>Lemmas\<close>

lemma fold_cpuusage_frame:
  "fold (\<lambda>c st. st\<lparr>cpuusage := (cpuusage st)(c := cpuusage st c + d)\<rparr>) cs s =
   s\<lparr>cpuusage := fold (\<lambda>c u. u(c := u c + d)) cs (cpuusage s)\<rparr>"
  by (induction cs arbitrary: s) simp_all

lemma cpuacct_charge_frame [frame_simps, simp]:
  "tasks (cpuacct_charge p d s) = tasks s"
  "rt_ses (cpuacct_charge p d s) = rt_ses s"
  "rt_rqs (cpuacct_charge p d s) = rt_rqs s"
  "tgs (cpuacct_charge p d s) = tgs s"
  "rq (cpuacct_charge p d s) = rq s"
  "sysctl_sched_rt_runtime (cpuacct_charge p d s) = sysctl_sched_rt_runtime s"
  "sysctl_sched_rt_period (cpuacct_charge p d s) = sysctl_sched_rt_period s"
  "def_rt_bandwidth (cpuacct_charge p d s) = def_rt_bandwidth s"
  "task_groups (cpuacct_charge p d s) = task_groups s"
  "events (cpuacct_charge p d s) = events s"
  unfolding cpuacct_charge_def
  by (simp_all add: fold_cpuusage_frame)

end
