(* ===== verification/C_Lib.thy ===== *)
theory C_Lib
  imports Prelude
begin

text \<open>
  The C library functions on strings and numbers that the programs and the kernel's log
  lines use: \<open>strcmp\<close> equality, \<open>strncmp\<close> on a literal prefix, \<open>printf\<close> of \<open>%d\<close>, and
  \<open>atoi\<close>. A C string held in an array is the list of its bytes before the terminating zero.
  The lemmas give the round trip between \<open>%d\<close> and \<open>atoi\<close>.
\<close>

definition digit_char :: "nat \<Rightarrow> char" where
  "digit_char d = char_of (48 + d)"

definition isdigit :: "char \<Rightarrow> bool" where
  "isdigit c \<longleftrightarrow> 48 \<le> (of_char c :: nat) \<and> (of_char c :: nat) \<le> 57"

definition isspace :: "char \<Rightarrow> bool" where
  "isspace c \<longleftrightarrow> c = CHR '' '' \<or> (9 \<le> (of_char c :: nat) \<and> (of_char c :: nat) \<le> 13)"

definition isalpha :: "char \<Rightarrow> bool" where
  "isalpha c \<longleftrightarrow> (65 \<le> (of_char c :: nat) \<and> (of_char c :: nat) \<le> 90) \<or>
     (97 \<le> (of_char c :: nat) \<and> (of_char c :: nat) \<le> 122)"

fun show_nat :: "nat \<Rightarrow> string" where
  "show_nat n = (if n < 10 then [digit_char n] else show_nat (n div 10) @ [digit_char (n mod 10)])"

declare show_nat.simps [simp del]

text \<open>\<open>printf("%d")\<close>.\<close>

definition show_int :: "int \<Rightarrow> string" where
  "show_int i = (if i < 0 then CHR ''-'' # show_nat (nat (- i)) else show_nat (nat i))"

text \<open>\<open>atoi\<close>: skip white space, read an optional sign, then digits up to the first other character.\<close>

definition digit_val :: "char \<Rightarrow> int" where
  "digit_val c = int (of_char c) - 48"

fun atoi_digits :: "int \<Rightarrow> string \<Rightarrow> int" where
  "atoi_digits acc [] = acc"
| "atoi_digits acc (c # cs) = (if isdigit c then atoi_digits (10 * acc + digit_val c) cs else acc)"

definition atoi :: "string \<Rightarrow> int" where
  "atoi s =
     (case dropWhile isspace s of
        [] \<Rightarrow> 0
      | c # cs \<Rightarrow> if c = CHR ''-'' then - atoi_digits 0 cs
                  else if c = CHR ''+'' then atoi_digits 0 cs
                  else atoi_digits 0 (c # cs))"

text \<open>\<open>strncmp(lit, s, strlen(lit)) == 0\<close>: the string starts with the literal.\<close>

fun strncmp_eq :: "string \<Rightarrow> string \<Rightarrow> bool" where
  "strncmp_eq [] s = True"
| "strncmp_eq (c # cs) [] = False"
| "strncmp_eq (c # cs) (d # ds) = (c = d \<and> strncmp_eq cs ds)"

text \<open>The C string at the start of a character array: what precedes the first zero byte.\<close>

definition c_str :: "string \<Rightarrow> string" where
  "c_str b = takeWhile (\<lambda>c. c \<noteq> CHR 0x00) b"

section \<open>Lemmas\<close>

lemma strncmp_eq_take: "strncmp_eq p s \<longleftrightarrow> take (length p) s = p"
  by (induction p s rule: strncmp_eq.induct) auto

lemma strncmp_eq_append [simp]: "strncmp_eq p (p @ s)"
  by (simp add: strncmp_eq_take)

lemma of_char_digit [simp]: "d < 10 \<Longrightarrow> (of_char (digit_char d) :: nat) = 48 + d"
  by (simp add: digit_char_def)

lemma digit_char_values:
  "digit_char 0 = CHR ''0''" "digit_char (Suc 0) = CHR ''1''" "digit_char 1 = CHR ''1''"
  "digit_char 2 = CHR ''2''" "digit_char 3 = CHR ''3''" "digit_char 4 = CHR ''4''"
  "digit_char 5 = CHR ''5''" "digit_char 6 = CHR ''6''" "digit_char 7 = CHR ''7''"
  "digit_char 8 = CHR ''8''" "digit_char 9 = CHR ''9''"
  by code_simp+

lemma isdigit_digit_char [simp]: "d < 10 \<Longrightarrow> isdigit (digit_char d)"
  by (simp add: isdigit_def)

lemma digit_val_digit_char [simp]: "d < 10 \<Longrightarrow> digit_val (digit_char d) = int d"
  by (simp add: digit_val_def)

lemma show_nat_digits: "list_all isdigit (show_nat n)"
proof (induction n rule: show_nat.induct)
  case (1 n)
  show ?case
  proof (cases "n < 10")
    case True
    then show ?thesis by (subst show_nat.simps) simp
  next
    case False
    with 1 show ?thesis by (subst show_nat.simps) simp
  qed
qed

lemma show_nat_nonempty [simp]: "show_nat n \<noteq> []"
  by (subst show_nat.simps) simp

lemma atoi_digits_append:
  "list_all isdigit xs \<Longrightarrow> atoi_digits acc (xs @ ys) = atoi_digits (atoi_digits acc xs) ys"
  by (induction xs arbitrary: acc) auto

lemma atoi_digits_show_nat: "atoi_digits 0 (show_nat n) = int n"
proof (induction n rule: show_nat.induct)
  case (1 n)
  show ?case
  proof (cases "n < 10")
    case True
    then show ?thesis by (subst show_nat.simps) simp
  next
    case False
    then have "atoi_digits 0 (show_nat n) = 10 * int (n div 10) + int (n mod 10)"
      by (subst show_nat.simps) (simp add: atoi_digits_append show_nat_digits 1)
    then show ?thesis by presburger
  qed
qed

lemma atoi_digits_stop: "\<not> isdigit c \<Longrightarrow> atoi_digits acc (c # cs) = acc"
  by simp

text \<open>Reading back a printed number that is followed by a non-digit (or nothing) gives the number.\<close>

lemma atoi_digits_show_nat_rest:
  "rest = [] \<or> \<not> isdigit (hd rest) \<Longrightarrow> atoi_digits 0 (show_nat n @ rest) = int n"
  by (cases rest) (simp_all add: atoi_digits_append show_nat_digits atoi_digits_show_nat)

lemma show_nat_head:
  "\<exists>c cs. show_nat n = c # cs \<and> isdigit c"
  using show_nat_digits [of n] by (cases "show_nat n") auto

lemma isdigit_not_special:
  "isdigit c \<Longrightarrow> \<not> isspace c \<and> c \<noteq> CHR ''-'' \<and> c \<noteq> CHR ''+''"
  by (auto simp: isdigit_def isspace_def)

lemma atoi_show_int:
  assumes "rest = [] \<or> \<not> isdigit (hd rest)"
  shows "atoi (show_int i @ rest) = i"
proof (cases "i < 0")
  case True
  then have "atoi (show_int i @ rest) = - atoi_digits 0 (show_nat (nat (- i)) @ rest)"
    by (simp add: show_int_def atoi_def isspace_def)
  with True assms show ?thesis by (simp add: atoi_digits_show_nat_rest)
next
  case False
  obtain c cs where c: "show_nat (nat i) = c # cs" "isdigit c"
    using show_nat_head by blast
  then have "atoi (show_int i @ rest) = atoi_digits 0 (show_nat (nat i) @ rest)"
    using False isdigit_not_special [of c] by (simp add: show_int_def atoi_def)
  with False assms show ?thesis by (simp add: atoi_digits_show_nat_rest)
qed

end
