(* ===== verification/Ras.thy ===== *)
theory Ras
  imports Sched_Types C_Lib
begin

text \<open>
  The race-averse scheduling class, \<open>kernel/sched/ras.c\<close>: one FIFO run list per CPU, a
  weight computed from the number of traced page writes of a task, and a time slice that grows
  with the weight. Every operation of \<open>ras_sched_class\<close> is a function on the scheduler
  state. Of the \<open>printk\<close> lines only \<open>RAS Tracing\<close> is kept, since \<open>cmp.c\<close> reads it.
\<close>

section \<open>Operations\<close>

definition on_ras_rq :: "sched_state \<Rightarrow> task \<Rightarrow> bool" where
  "on_ras_rq s p \<longleftrightarrow> p \<in> set (run_list (rq_ras (rq s)))"

definition init_ras_rq :: "ras_rq" where
  "init_ras_rq = \<lparr>run_list = [], ras_nr_running = 0, ras_time = 0\<rparr>"

definition calc_ras_weight :: "task_struct \<Rightarrow> int" where
  "calc_ras_weight p =
     (if wcounts p < 2 ^ 4 then 10
      else if wcounts p < 2 ^ 5 then 9
      else if wcounts p < 2 ^ 6 then 8
      else if wcounts p < 2 ^ 7 then 7
      else if wcounts p < 2 ^ 8 then 6
      else if wcounts p < 2 ^ 9 then 5
      else if wcounts p < 2 ^ 10 then 4
      else if wcounts p < 2 ^ 11 then 3
      else if wcounts p < 2 ^ 12 then 2
      else if wcounts p < 2 ^ 13 then 1
      else 0)"

definition update_curr_ras :: "sched_state \<Rightarrow> sched_state" where
  "update_curr_ras s =
     (let p = curr (rq s); c = tasks s p in
      if sched_class c \<noteq> ras_sched_class then s
      else
        let delta = clock_task (rq s) - exec_start (se c);
            delta_exec = (if sint delta < 0 then 0 else delta);
            s1 = upd_task p (\<lambda>t. t\<lparr>se := (se t)
                   \<lparr>exec_max := max (exec_max (se t)) delta_exec,
                    sum_exec_runtime := sum_exec_runtime (se t) + delta_exec\<rparr>\<rparr>) s;
            s2 = emit (Account_group_exec_runtime p delta_exec) s1;
            s3 = upd_task p (\<lambda>t. t\<lparr>se := (se t)\<lparr>exec_start := clock_task (rq s)\<rparr>\<rparr>) s2
        in cpuacct_charge p delta_exec s3)"

text \<open>The time slice a task gets from its group and weight (the same block in three functions).\<close>

definition ras_timeslice :: "kenv \<Rightarrow> sched_state \<Rightarrow> task \<Rightarrow> int \<Rightarrow> u32" where
  "ras_timeslice env s p w =
     (let gp = task_group_path env s (sched_task_group (tasks s p)) in
      if gp = ''/'' then word_of_int (RAS_FG_TIMESLICE (HZ env) + w * RAS_INC_TIME (HZ env))
      else if gp = ''/bg_non_interactive''
      then word_of_int (RAS_BG_TIMESLICE (HZ env) + w * RAS_INC_TIME (HZ env))
      else word_of_int (RAS_BG_TIMESLICE (HZ env) + w * RAS_INC_TIME (HZ env)))"

definition ras_refill :: "kenv \<Rightarrow> task \<Rightarrow> sched_state \<Rightarrow> sched_state" where
  "ras_refill env p s =
     (let w = calc_ras_weight (tasks s p);
          s1 = upd_task p (\<lambda>t. t\<lparr>ras := (ras t)\<lparr>ras_weight := w\<rparr>\<rparr>) s
      in upd_task p (\<lambda>t. t\<lparr>ras := (ras t)\<lparr>ras_time_slice := ras_timeslice env s1 p w\<rparr>\<rparr>) s1)"

definition upd_ras_list :: "(task list \<Rightarrow> task list) \<Rightarrow> sched_state \<Rightarrow> sched_state" where
  "upd_ras_list f = upd_rq (\<lambda>r. r\<lparr>rq_ras := (rq_ras r)\<lparr>run_list := f (run_list (rq_ras r))\<rparr>\<rparr>)"

definition upd_ras_nr :: "(ulong \<Rightarrow> ulong) \<Rightarrow> sched_state \<Rightarrow> sched_state" where
  "upd_ras_nr f = upd_rq (\<lambda>r. r\<lparr>rq_ras := (rq_ras r)\<lparr>ras_nr_running := f (ras_nr_running (rq_ras r))\<rparr>\<rparr>)"

definition enqueue_task_ras :: "kenv \<Rightarrow> task \<Rightarrow> u32 \<Rightarrow> sched_state \<Rightarrow> sched_state" where
  "enqueue_task_ras env p flags s =
     (let s1 = ras_refill env p s;
          s2 = (if flag_set flags ENQUEUE_WAKEUP
                then upd_task p (\<lambda>t. t\<lparr>ras := (ras t)\<lparr>ras_timeout := 0\<rparr>\<rparr>) s1 else s1);
          s3 = (if flag_set flags ENQUEUE_HEAD then upd_ras_list (list_add p) s2
                else upd_ras_list (list_add_tail p) s2);
          s4 = upd_ras_nr (\<lambda>n. n + 1) s3
      in inc_nr_running s4)"

definition dequeue_task_ras :: "task \<Rightarrow> u32 \<Rightarrow> sched_state \<Rightarrow> sched_state" where
  "dequeue_task_ras p flags s =
     (let s1 = update_curr_ras s;
          s2 = (if on_ras_rq s1 p
                then upd_ras_nr (\<lambda>n. n - 1) (upd_ras_list (list_del_init p) s1) else s1)
      in dec_nr_running s2)"

text \<open>
  The entry after the list head. With an empty list and a non-zero counter the C code would
  read the head itself as an entity; the model returns no task there, and the invariant below
  excludes the case.
\<close>

definition pick_next_task_ras :: "sched_state \<Rightarrow> task option \<times> sched_state" where
  "pick_next_task_ras s =
     (if ras_nr_running (rq_ras (rq s)) = 0 then (None, s)
      else case run_list (rq_ras (rq s)) of
             [] \<Rightarrow> (None, s)
           | p # _ \<Rightarrow>
               (Some p, upd_task p (\<lambda>t. t\<lparr>se := (se t)\<lparr>exec_start := clock_task (rq s)\<rparr>\<rparr>) s))"

definition put_prev_task_ras :: "task \<Rightarrow> sched_state \<Rightarrow> sched_state" where
  "put_prev_task_ras p s =
     (let s1 = update_curr_ras s
      in if on_ras_rq s1 p then upd_ras_list (list_move_tail p) s1 else s1)"

definition yield_task_ras :: "sched_state \<Rightarrow> sched_state" where
  "yield_task_ras s =
     (if on_ras_rq s (curr (rq s)) then upd_ras_list (list_move_tail (curr (rq s))) s else s)"

definition check_preempt_curr_ras :: "task \<Rightarrow> u32 \<Rightarrow> sched_state \<Rightarrow> sched_state" where
  "check_preempt_curr_ras p flags s =
     (let c = curr (rq s);
          s1 = upd_task p (\<lambda>t. t\<lparr>ras := (ras t)\<lparr>ras_weight := calc_ras_weight t\<rparr>\<rparr>) s;
          s2 = upd_task c (\<lambda>t. t\<lparr>ras := (ras t)\<lparr>ras_weight := calc_ras_weight t\<rparr>\<rparr>) s1
      in if ras_weight (ras (tasks s2 p)) > ras_weight (ras (tasks s2 c))
         then resched_task c s2 else s2)"

definition set_curr_task_ras :: "sched_state \<Rightarrow> sched_state" where
  "set_curr_task_ras s =
     upd_task (curr (rq s)) (\<lambda>t. t\<lparr>se := (se t)\<lparr>exec_start := clock_task (rq s)\<rparr>\<rparr>) s"

text \<open>\<open>DIV_ROUND_UP(n, d)\<close> on \<open>unsigned long\<close>, and the limit of the watchdog in ticks.\<close>

definition DIV_ROUND_UP :: "ulong \<Rightarrow> ulong \<Rightarrow> ulong" where
  "DIV_ROUND_UP n d = (n + d - 1) div d"

definition watchdog_ras :: "kenv \<Rightarrow> task \<Rightarrow> sched_state \<Rightarrow> sched_state" where
  "watchdog_ras env p s =
     (let soft = task_rlimit (tasks s p) RLIMIT_RTTIME;
          hard = task_rlimit_max (tasks s p) RLIMIT_RTTIME
      in if soft \<noteq> RLIM_INFINITY then
           let s1 = upd_task p (\<lambda>t. t\<lparr>ras := (ras t)\<lparr>ras_timeout := ras_timeout (ras t) + 1\<rparr>\<rparr>) s;
               nxt = DIV_ROUND_UP (min soft hard) (word_of_int (1000000 div HZ env))
           in if ras_timeout (ras (tasks s1 p)) > nxt
              then upd_task p (\<lambda>t. t\<lparr>sched_exp := sum_exec_runtime (se t)\<rparr>) s1 else s1
         else s)"

definition ras_trace_line :: "task_struct \<Rightarrow> string" where
  "ras_trace_line t = ''RAS Tracing: pid='' @ show_int (pid t) @ '', remaining time slice='' @
     show_int (sint (ras_time_slice (ras t))) @ [CHR 0x0A]"

text \<open>
  \<open>run_list.prev != run_list.next\<close> on the list head: the list has at least two entries.
\<close>

definition ras_many :: "sched_state \<Rightarrow> bool" where
  "ras_many s \<longleftrightarrow> length (run_list (rq_ras (rq s))) \<ge> 2"

definition task_tick_ras :: "kenv \<Rightarrow> task \<Rightarrow> sched_state \<Rightarrow> sched_state" where
  "task_tick_ras env p s =
     (let s1 = watchdog_ras env p (update_curr_ras s);
          s2 = emit (Printk (ras_trace_line (tasks s1 p))) s1;
          s3 = upd_task p (\<lambda>t. t\<lparr>ras := (ras t)\<lparr>ras_time_slice := ras_time_slice (ras t) - 1\<rparr>\<rparr>) s2
      in if ras_time_slice (ras (tasks s3 p)) \<noteq> 0 then s3
         else
           let s4 = ras_refill env p s3
           in if ras_many s4 then
                set_tsk_need_resched p
                  (if on_ras_rq s4 p then upd_ras_list (list_move_tail p) s4 else s4)
              else s4)"

definition get_rr_interval_ras :: "kenv \<Rightarrow> task \<Rightarrow> sched_state \<Rightarrow> u32 \<times> sched_state" where
  "get_rr_interval_ras env p s =
     (let s1 = ras_refill env p s in (ras_time_slice (ras (tasks s1 p)), s1))"

definition switched_to_ras :: "task \<Rightarrow> sched_state \<Rightarrow> sched_state" where
  "switched_to_ras p s =
     (if on_rq (tasks s p) \<and> curr (rq s) \<noteq> p then resched_task (curr (rq s)) s else s)"

definition prio_changed_ras :: "task \<Rightarrow> int \<Rightarrow> sched_state \<Rightarrow> sched_state" where
  "prio_changed_ras p oldprio s = s"

abbreviation ras_q :: "sched_state \<Rightarrow> task list" where
  "ras_q s \<equiv> run_list (rq_ras (rq s))"

abbreviation ras_nr :: "sched_state \<Rightarrow> ulong" where
  "ras_nr s \<equiv> ras_nr_running (rq_ras (rq s))"

abbreviation ras_slice :: "sched_state \<Rightarrow> task \<Rightarrow> u32" where
  "ras_slice s p \<equiv> ras_time_slice (ras (tasks s p))"

section \<open>Frame lemmas\<close>

lemma update_curr_ras_frame [frame_simps, simp]:
  "rq (update_curr_ras s) = rq s"
  "tgs (update_curr_ras s) = tgs s"
  "ras (tasks (update_curr_ras s) t) = ras (tasks s t)"
  "wcounts (tasks (update_curr_ras s) t) = wcounts (tasks s t)"
  "sched_task_group (tasks (update_curr_ras s) t) = sched_task_group (tasks s t)"
  "on_rq (tasks (update_curr_ras s) t) = on_rq (tasks s t)"
  "need_resched (tasks (update_curr_ras s) t) = need_resched (tasks s t)"
  "pid (tasks (update_curr_ras s) t) = pid (tasks s t)"
  "rlim_cur (tasks (update_curr_ras s) t) = rlim_cur (tasks s t)"
  by (simp_all add: update_curr_ras_def state_defs Let_def)

lemma watchdog_ras_frame [frame_simps, simp]:
  "rq (watchdog_ras env p s) = rq s"
  "tgs (watchdog_ras env p s) = tgs s"
  "ras_slice (watchdog_ras env p s) t = ras_slice s t"
  "ras_weight (ras (tasks (watchdog_ras env p s) t)) = ras_weight (ras (tasks s t))"
  "wcounts (tasks (watchdog_ras env p s) t) = wcounts (tasks s t)"
  "sched_task_group (tasks (watchdog_ras env p s) t) = sched_task_group (tasks s t)"
  "on_rq (tasks (watchdog_ras env p s) t) = on_rq (tasks s t)"
  "need_resched (tasks (watchdog_ras env p s) t) = need_resched (tasks s t)"
  "pid (tasks (watchdog_ras env p s) t) = pid (tasks s t)"
  "events (watchdog_ras env p s) = events s"
  by (simp_all add: watchdog_ras_def state_defs Let_def)

lemma ras_refill_frame [frame_simps, simp]:
  "rq (ras_refill env p s) = rq s"
  "tgs (ras_refill env p s) = tgs s"
  "wcounts (tasks (ras_refill env p s) t) = wcounts (tasks s t)"
  "sched_task_group (tasks (ras_refill env p s) t) = sched_task_group (tasks s t)"
  "on_rq (tasks (ras_refill env p s) t) = on_rq (tasks s t)"
  "need_resched (tasks (ras_refill env p s) t) = need_resched (tasks s t)"
  "pid (tasks (ras_refill env p s) t) = pid (tasks s t)"
  "events (ras_refill env p s) = events s"
  "t \<noteq> p \<Longrightarrow> tasks (ras_refill env p s) t = tasks s t"
  by (simp_all add: ras_refill_def state_defs Let_def)

definition full_slice :: "kenv \<Rightarrow> sched_state \<Rightarrow> task \<Rightarrow> u32" where
  "full_slice env s p = ras_timeslice env s p (calc_ras_weight (tasks s p))"

lemma ras_timeslice_cong:
  assumes "sched_task_group (tasks s' p) = sched_task_group (tasks s p)" and "tgs s' = tgs s"
  shows "ras_timeslice env s' p w = ras_timeslice env s p w"
  by (simp only: ras_timeslice_def task_group_path_def assms)

lemma calc_ras_weight_cong: "wcounts t' = wcounts t \<Longrightarrow> calc_ras_weight t' = calc_ras_weight t"
  by (simp only: calc_ras_weight_def)

lemma full_slice_cong:
  assumes "wcounts (tasks s' p) = wcounts (tasks s p)"
    and "sched_task_group (tasks s' p) = sched_task_group (tasks s p)" and "tgs s' = tgs s"
  shows "full_slice env s' p = full_slice env s p"
  unfolding full_slice_def
  by (simp only: calc_ras_weight_cong [OF assms(1)] ras_timeslice_cong [OF assms(2,3)])

lemma ras_refill_slice [simp]:
  "ras_slice (ras_refill env p s) t = (if t = p then full_slice env s p else ras_slice s t)"
  "ras_weight (ras (tasks (ras_refill env p s) p)) = calc_ras_weight (tasks s p)"
proof -
  have "ras_timeslice env (upd_task p f s) p w = ras_timeslice env s p w"
    if "\<And>t. sched_task_group (f t) = sched_task_group t" for f w
    by (rule ras_timeslice_cong) (simp_all add: upd_task_def that)
  then show "ras_slice (ras_refill env p s) t = (if t = p then full_slice env s p else ras_slice s t)"
    by (simp add: ras_refill_def full_slice_def Let_def) (simp add: upd_task_def)
qed (simp add: ras_refill_def state_defs Let_def)

lemma upd_ras_list_frame [simp]:
  "ras_q (upd_ras_list f s) = f (ras_q s)"
  "ras_nr (upd_ras_list f s) = ras_nr s"
  "nr_running (rq (upd_ras_list f s)) = nr_running (rq s)"
  "curr (rq (upd_ras_list f s)) = curr (rq s)"
  "clock_task (rq (upd_ras_list f s)) = clock_task (rq s)"
  "tasks (upd_ras_list f s) = tasks s"
  "tgs (upd_ras_list f s) = tgs s"
  "events (upd_ras_list f s) = events s"
  by (simp_all add: upd_ras_list_def state_defs)

lemma upd_ras_nr_frame [simp]:
  "ras_q (upd_ras_nr f s) = ras_q s"
  "ras_nr (upd_ras_nr f s) = f (ras_nr s)"
  "nr_running (rq (upd_ras_nr f s)) = nr_running (rq s)"
  "curr (rq (upd_ras_nr f s)) = curr (rq s)"
  "tasks (upd_ras_nr f s) = tasks s"
  "tgs (upd_ras_nr f s) = tgs s"
  by (simp_all add: upd_ras_nr_def state_defs)

lemma nr_running_ops_frame [simp]:
  "ras_q (inc_nr_running s) = ras_q s" "ras_q (dec_nr_running s) = ras_q s"
  "ras_nr (inc_nr_running s) = ras_nr s" "ras_nr (dec_nr_running s) = ras_nr s"
  "nr_running (rq (inc_nr_running s)) = nr_running (rq s) + 1"
  "nr_running (rq (dec_nr_running s)) = nr_running (rq s) - 1"
  "curr (rq (inc_nr_running s)) = curr (rq s)" "curr (rq (dec_nr_running s)) = curr (rq s)"
  "tasks (inc_nr_running s) = tasks s" "tasks (dec_nr_running s) = tasks s"
  "tgs (inc_nr_running s) = tgs s" "tgs (dec_nr_running s) = tgs s"
  by (simp_all add: inc_nr_running_def dec_nr_running_def state_defs)

lemma resched_frame [simp]:
  "rq (set_tsk_need_resched p s) = rq s" "rq (resched_task p s) = rq s"
  "tgs (set_tsk_need_resched p s) = tgs s" "tgs (resched_task p s) = tgs s"
  "ras (tasks (set_tsk_need_resched p s) t) = ras (tasks s t)"
  "ras (tasks (resched_task p s) t) = ras (tasks s t)"
  "wcounts (tasks (set_tsk_need_resched p s) t) = wcounts (tasks s t)"
  "wcounts (tasks (resched_task p s) t) = wcounts (tasks s t)"
  "sched_task_group (tasks (set_tsk_need_resched p s) t) = sched_task_group (tasks s t)"
  "sched_task_group (tasks (resched_task p s) t) = sched_task_group (tasks s t)"
  "need_resched (tasks (set_tsk_need_resched p s) t) = (t = p \<or> need_resched (tasks s t))"
  "need_resched (tasks (resched_task p s) t) = (t = p \<or> need_resched (tasks s t))"
  "events (set_tsk_need_resched p s) = events s"
  by (simp_all add: resched_task_def set_tsk_need_resched_def state_defs)

section \<open>What each operation does to the run list\<close>

lemma enqueue_task_ras_queue [simp]:
  "ras_q (enqueue_task_ras env p flags s) =
     (if flag_set flags ENQUEUE_HEAD then p # ras_q s else ras_q s @ [p])"
  "ras_nr (enqueue_task_ras env p flags s) = ras_nr s + 1"
  "nr_running (rq (enqueue_task_ras env p flags s)) = nr_running (rq s) + 1"
  "curr (rq (enqueue_task_ras env p flags s)) = curr (rq s)"
  by (simp_all add: enqueue_task_ras_def Let_def list_op_defs upd_task_def)

lemma enqueue_task_ras_slice [simp]:
  "ras_slice (enqueue_task_ras env p flags s) t =
     (if t = p then full_slice env s p else ras_slice s t)"
  "tgs (enqueue_task_ras env p flags s) = tgs s"
  "wcounts (tasks (enqueue_task_ras env p flags s) t) = wcounts (tasks s t)"
  "sched_task_group (tasks (enqueue_task_ras env p flags s) t) = sched_task_group (tasks s t)"
  by (simp_all add: enqueue_task_ras_def Let_def upd_task_def)

lemma dequeue_task_ras_queue [simp]:
  "ras_q (dequeue_task_ras p flags s) = remove1 p (ras_q s)"
  "ras_nr (dequeue_task_ras p flags s) = (if p \<in> set (ras_q s) then ras_nr s - 1 else ras_nr s)"
  "nr_running (rq (dequeue_task_ras p flags s)) = nr_running (rq s) - 1"
  "curr (rq (dequeue_task_ras p flags s)) = curr (rq s)"
  "ras_slice (dequeue_task_ras p flags s) t = ras_slice s t"
  "tgs (dequeue_task_ras p flags s) = tgs s"
  by (simp_all add: dequeue_task_ras_def Let_def on_ras_rq_def list_del_init_def remove1_idem)

lemma put_prev_task_ras_queue [simp]:
  "ras_q (put_prev_task_ras p s) =
     (if p \<in> set (ras_q s) then list_move_tail p (ras_q s) else ras_q s)"
  "ras_nr (put_prev_task_ras p s) = ras_nr s"
  "nr_running (rq (put_prev_task_ras p s)) = nr_running (rq s)"
  "curr (rq (put_prev_task_ras p s)) = curr (rq s)"
  "ras_slice (put_prev_task_ras p s) t = ras_slice s t"
  "tgs (put_prev_task_ras p s) = tgs s"
  "wcounts (tasks (put_prev_task_ras p s) t) = wcounts (tasks s t)"
  "sched_task_group (tasks (put_prev_task_ras p s) t) = sched_task_group (tasks s t)"
  by (simp_all add: put_prev_task_ras_def Let_def on_ras_rq_def)

lemma yield_task_ras_queue [simp]:
  "ras_q (yield_task_ras s) =
     (if curr (rq s) \<in> set (ras_q s) then list_move_tail (curr (rq s)) (ras_q s) else ras_q s)"
  "ras_nr (yield_task_ras s) = ras_nr s"
  "nr_running (rq (yield_task_ras s)) = nr_running (rq s)"
  "curr (rq (yield_task_ras s)) = curr (rq s)"
  "tasks (yield_task_ras s) = tasks s"
  by (simp_all add: yield_task_ras_def on_ras_rq_def)

lemma pick_next_task_ras_queue [simp]:
  "rq (snd (pick_next_task_ras s)) = rq s"
  "tgs (snd (pick_next_task_ras s)) = tgs s"
  "ras (tasks (snd (pick_next_task_ras s)) t) = ras (tasks s t)"
  by (simp_all add: pick_next_task_ras_def upd_task_def split: list.split)

lemma check_preempt_curr_ras_frame [simp]:
  "rq (check_preempt_curr_ras p flags s) = rq s"
  "tgs (check_preempt_curr_ras p flags s) = tgs s"
  "ras_slice (check_preempt_curr_ras p flags s) t = ras_slice s t"
  by (simp_all add: check_preempt_curr_ras_def Let_def upd_task_def)

lemma get_rr_interval_ras_frame [simp]:
  "rq (snd (get_rr_interval_ras env p s)) = rq s"
  "ras_slice (snd (get_rr_interval_ras env p s)) t =
     (if t = p then full_slice env s p else ras_slice s t)"
  "fst (get_rr_interval_ras env p s) = full_slice env s p"
  by (simp_all add: get_rr_interval_ras_def Let_def)

lemma set_curr_task_ras_frame [simp]:
  "rq (set_curr_task_ras s) = rq s"
  "ras (tasks (set_curr_task_ras s) t) = ras (tasks s t)"
  by (simp_all add: set_curr_task_ras_def upd_task_def)

lemma switched_to_ras_frame [simp]:
  "rq (switched_to_ras p s) = rq s"
  "ras (tasks (switched_to_ras p s) t) = ras (tasks s t)"
  by (simp_all add: switched_to_ras_def)

end
