(* ===== verification/Sched_Class.thy ===== *)
theory Sched_Class
  imports Prelude
begin

text \<open>
  The contract between \<open>core.c\<close> and a scheduling class, as far as the core relies on it:
  which tasks are queued, how the queueing operations change that set, what the class picks,
  and the invariant every operation keeps. The class operations of \<open>ras.c\<close> interpret it in
  theory \<open>Ras_Proofs\<close>.
\<close>

locale class_queue =
  fixes inv :: "'st \<Rightarrow> bool"
    and room :: "'st \<Rightarrow> bool"
    and queued :: "'st \<Rightarrow> 'a set"
    and enqueue :: "'a \<Rightarrow> 'f \<Rightarrow> 'st \<Rightarrow> 'st"
    and dequeue :: "'a \<Rightarrow> 'f \<Rightarrow> 'st \<Rightarrow> 'st"
    and pick_next :: "'st \<Rightarrow> 'a option \<times> 'st"
    and put_prev :: "'a \<Rightarrow> 'st \<Rightarrow> 'st"
  assumes inv_enqueue: "\<lbrakk>inv s; room s; p \<notin> queued s\<rbrakk> \<Longrightarrow> inv (enqueue p fl s)"
    and inv_dequeue: "inv s \<Longrightarrow> inv (dequeue p fl s)"
    and inv_pick_next: "inv s \<Longrightarrow> inv (snd (pick_next s))"
    and inv_put_prev: "inv s \<Longrightarrow> inv (put_prev p s)"
    and queued_enqueue: "queued (enqueue p fl s) = insert p (queued s)"
    and queued_dequeue: "inv s \<Longrightarrow> queued (dequeue p fl s) = queued s - {p}"
    and queued_pick_next: "queued (snd (pick_next s)) = queued s"
    and queued_put_prev: "queued (put_prev p s) = queued s"
    and pick_next_None: "inv s \<Longrightarrow> fst (pick_next s) = None \<longleftrightarrow> queued s = {}"
    and pick_next_Some: "fst (pick_next s) = Some p \<Longrightarrow> p \<in> queued s"
begin

text \<open>Dequeueing what was enqueued gives back the queued tasks.\<close>

lemma dequeue_enqueue:
  "\<lbrakk>inv s; room s; p \<notin> queued s\<rbrakk> \<Longrightarrow> queued (dequeue p fl' (enqueue p fl s)) = queued s"
  by (simp add: queued_dequeue inv_enqueue queued_enqueue)

text \<open>A class with a queued task picks one of its tasks, also after its current task was put back.\<close>

lemma pick_next_works:
  assumes "inv s" and "queued s \<noteq> {}"
  shows "\<exists>q \<in> queued s. fst (pick_next (put_prev p s)) = Some q"
proof -
  have "inv (put_prev p s)" using assms(1) by (rule inv_put_prev)
  with assms(2) obtain q where q: "fst (pick_next (put_prev p s)) = Some q"
    using pick_next_None [of "put_prev p s"] queued_put_prev by fastforce
  with pick_next_Some queued_put_prev show ?thesis by blast
qed

text \<open>The step of the core between two tasks of the class keeps the queued tasks and the invariant.\<close>

lemma switch_keeps:
  assumes "inv s"
  shows "inv (snd (pick_next (put_prev p s)))"
    and "queued (snd (pick_next (put_prev p s))) = queued s"
  using assms by (simp_all add: inv_put_prev inv_pick_next queued_pick_next queued_put_prev)

text \<open>A task that goes to sleep is not picked.\<close>

lemma sleeper_not_picked:
  assumes "inv s"
  shows "fst (pick_next (put_prev p (dequeue p fl s))) \<noteq> Some p"
  using assms pick_next_Some queued_put_prev queued_dequeue by fastforce

end

end
