(* ===== verification/Sched_Examples.thy ===== *)
theory Sched_Examples
  imports Sched_Types
begin

text \<open>
  Concrete scheduler states on which the witnesses evaluate the theorems: an idle system of
  foreground tasks at \<open>HZ\<close> 100, and one with three race-averse tasks queued.
\<close>

definition env0 :: kenv where
  "env0 = \<lparr>HZ = 100, sched_clock_cpu = 0, cgroup_path = (\<lambda>_. ''/''), autogroup_path = (\<lambda>_. None)\<rparr>"

definition task0 :: task_struct where
  "task0 = \<lparr>wcounts = 0, trace_flag = 0, rr_fifo_trace = 0, tstate = 0, tflags = 0, on_rq = False,
     prio = 120, static_prio = 120, normal_prio = 120, rt_priority = 0,
     sched_class = ras_sched_class,
     se = \<lparr>load = \<lparr>weight = 1024, inv_weight = 4194304\<rparr>, se_on_rq = 0, exec_start = 0,
       sum_exec_runtime = 0, vruntime = 0, prev_sum_exec_runtime = 0, nr_migrations = 0, exec_max = 0\<rparr>,
     ras = \<lparr>ras_timeout = 0, ras_time_slice = 5, ras_weight = 0\<rparr>,
     sched_task_group = 0, policy = 6, sched_reset_on_fork = False, has_mm = True, pid = 100,
     need_resched = False, nvcsw = 0, nivcsw = 0, rlim_cur = (\<lambda>_. - 1), rlim_max = (\<lambda>_. - 1),
     sched_exp = 0, task_ca = 0, tif_sigpending = False, sigkill_pending = False\<rparr>"

definition rt_rq0 :: rt_rq where
  "rt_rq0 = \<lparr>bitmap = (\<lambda>i. i = MAX_RT_PRIO), queue = (\<lambda>_. []), rt_nr_running = 0,
     highest_prio_curr = MAX_RT_PRIO, rt_throttled = False, rt_time = 0, rt_runtime = 950000000,
     rt_nr_boosted = 0, rt_rq_tg = Some 0\<rparr>"

definition state0 :: sched_state where
  "state0 = \<lparr>tasks = (\<lambda>_. task0),
     rt_ses = (\<lambda>_. \<lparr>rt_timeout = 0, rt_time_slice = 10, rt_parent = None, rt_rq_of = 0, my_q = None\<rparr>),
     rt_rqs = (\<lambda>_. rt_rq0),
     tgs = (\<lambda>_. \<lparr>tg_rt_se = None,
        tg_rt_bandwidth = \<lparr>rt_period = 1000000000, rt_b_runtime = 950000000, rt_timer_active = False\<rparr>,
        tg_parent = None, tg_children = [], tg_cgroup = Some 0\<rparr>),
     rq = \<lparr>nr_running = 0, skip_clock_update = 0, nr_switches = 0, cfs_h_nr_running = 0,
       rq_ras = \<lparr>run_list = [], ras_nr_running = 0, ras_time = 0\<rparr>, leaf_rt_rq_list = [],
       nr_uninterruptible = 0, curr = 0, idle = 0, stop = None, clock = 0, clock_task = 0\<rparr>,
     sysctl_sched_rt_period = 1000000, sysctl_sched_rt_runtime = 950000,
     def_rt_bandwidth = \<lparr>rt_period = 1000000000, rt_b_runtime = 950000000, rt_timer_active = False\<rparr>,
     task_groups = [0], cpuacct_active = False, cpuusage = (\<lambda>_. 0),
     ca_parent = (\<lambda>_. None), events = []\<rparr>"

text \<open>Tasks 1, 2 and 3 queued with five ticks left each, task 1 running.\<close>

definition ras3 :: sched_state where
  "ras3 = upd_rq (\<lambda>r. r\<lparr>rq_ras := \<lparr>run_list = [1, 2, 3], ras_nr_running = 3, ras_time = 0\<rparr>,
     nr_running := 3, curr := 1\<rparr>) state0"

end
