(* ===== verification/Ras_Proofs.thy ===== *)
theory Ras_Proofs
  imports Ras Sched_Class Sched_Examples "HOL-Library.Log_Nat"
begin

text \<open>
  Correctness of the race-averse class: the weight and the time slice against the tables of the
  project report, the run queue invariant over every sequence of class operations, the
  interpretation of the class contract, round robin order, and the exact length of a slice.
\<close>

section \<open>Weight and time slice\<close>

lemma word_less_floorlog: "k < 32 \<Longrightarrow> (w :: u32) < 2 ^ k \<longleftrightarrow> floorlog 2 (unat w) \<le> k"
proof -
  assume "k < 32"
  then have "(2::nat) ^ k < 2 ^ 32" by (intro power_strict_increasing) auto
  then have "unat (2 ^ k :: u32) = 2 ^ k"
    using unat_of_nat [of "2 ^ k", where 'a = 32] by simp
  then show ?thesis by (simp add: floorlog_le_iff word_less_nat_alt)
qed

lemma calc_ras_weight_floorlog:
  "calc_ras_weight t = max 0 (min 10 (14 - int (floorlog 2 (unat (wcounts t)))))"
  unfolding calc_ras_weight_def
  by (simp only: word_less_floorlog) (simp add: max_def min_def)

lemma calc_ras_weight_range: "0 \<le> calc_ras_weight t" "calc_ras_weight t \<le> 10"
  by (simp_all add: calc_ras_weight_floorlog)

lemma calc_ras_weight_antimono:
  "wcounts t \<le> wcounts t' \<Longrightarrow> calc_ras_weight t' \<le> calc_ras_weight t"
  using floorlog_mono [of "unat (wcounts t)" "unat (wcounts t')" 2]
  by (simp add: calc_ras_weight_floorlog word_le_nat_alt)

text \<open>
  The tick rate is a compile-time constant of the architecture; the scheduler needs only that a
  background slice of 30 ms is at least one tick, and that slices fit a word.
\<close>

definition hz_ok :: "kenv \<Rightarrow> bool" where
  "hz_ok env \<longleftrightarrow> 34 \<le> HZ env \<and> HZ env \<le> 1000000"

definition is_foreground :: "kenv \<Rightarrow> sched_state \<Rightarrow> task \<Rightarrow> bool" where
  "is_foreground env s p \<longleftrightarrow> task_group_path env s (sched_task_group (tasks s p)) = ''/''"

definition slice_ticks :: "kenv \<Rightarrow> bool \<Rightarrow> int \<Rightarrow> int" where
  "slice_ticks env fg w =
     (if fg then RAS_FG_TIMESLICE (HZ env) else RAS_BG_TIMESLICE (HZ env)) + w * RAS_INC_TIME (HZ env)"

lemma full_slice_eq:
  "full_slice env s p = word_of_int (slice_ticks env (is_foreground env s p) (calc_ras_weight (tasks s p)))"
  by (simp add: full_slice_def ras_timeslice_def slice_ticks_def is_foreground_def)

lemma slice_ticks_bounds:
  assumes "hz_ok env" and "0 \<le> w" and "w \<le> 10"
  shows "1 \<le> slice_ticks env fg w"
    and "slice_ticks env fg w \<le> RAS_FG_TIMESLICE (HZ env) + 10 * RAS_INC_TIME (HZ env)"
    and "RAS_FG_TIMESLICE (HZ env) + 10 * RAS_INC_TIME (HZ env) < 2 ^ 32"
proof -
  have b: "1 \<le> RAS_BG_TIMESLICE (HZ env)" "RAS_BG_TIMESLICE (HZ env) \<le> RAS_FG_TIMESLICE (HZ env)"
    "0 \<le> RAS_INC_TIME (HZ env)" "RAS_FG_TIMESLICE (HZ env) \<le> 50000" "RAS_INC_TIME (HZ env) \<le> 10000"
    using assms(1) by (auto simp: hz_ok_def timeslice_defs)
  have m: "0 \<le> w * RAS_INC_TIME (HZ env)" "w * RAS_INC_TIME (HZ env) \<le> 10 * RAS_INC_TIME (HZ env)"
    using assms(2,3) b(3) by (simp_all add: mult_right_mono)
  show "1 \<le> slice_ticks env fg w"
    and "slice_ticks env fg w \<le> RAS_FG_TIMESLICE (HZ env) + 10 * RAS_INC_TIME (HZ env)"
    and "RAS_FG_TIMESLICE (HZ env) + 10 * RAS_INC_TIME (HZ env) < 2 ^ 32"
    using b m by (auto simp: slice_ticks_def)
qed

definition max_slice :: "kenv \<Rightarrow> nat" where
  "max_slice env = nat (RAS_FG_TIMESLICE (HZ env) + 10 * RAS_INC_TIME (HZ env))"

lemma uint_full_slice:
  assumes "hz_ok env"
  shows "uint (full_slice env s p) = slice_ticks env (is_foreground env s p) (calc_ras_weight (tasks s p))"
proof -
  let ?k = "slice_ticks env (is_foreground env s p) (calc_ras_weight (tasks s p))"
  have "1 \<le> ?k" "?k < 2 ^ 32"
    using slice_ticks_bounds [OF assms calc_ras_weight_range] by (blast, fastforce intro: order.strict_trans1)
  then show ?thesis by (simp add: full_slice_eq uint_word_of_int)
qed

lemma full_slice_bounds:
  assumes "hz_ok env"
  shows "0 < unat (full_slice env s p)" and "unat (full_slice env s p) \<le> max_slice env"
proof -
  let ?k = "slice_ticks env (is_foreground env s p) (calc_ras_weight (tasks s p))"
  have "1 \<le> ?k" "?k \<le> RAS_FG_TIMESLICE (HZ env) + 10 * RAS_INC_TIME (HZ env)"
    using slice_ticks_bounds(1,2) [OF assms calc_ras_weight_range] by blast+
  then show "0 < unat (full_slice env s p)" "unat (full_slice env s p) \<le> max_slice env"
    by (simp_all add: unat_eq_nat_uint uint_full_slice [OF assms] max_slice_def)
qed

lemma full_slice_nonzero: "hz_ok env \<Longrightarrow> full_slice env s p \<noteq> 0"
  using full_slice_bounds(1) [of env s p] by (metis unat_0 less_irrefl)

section \<open>The tick\<close>

lemma task_tick_ras_queue [simp]:
  "ras_q (task_tick_ras env p s) =
     (if ras_slice s p = 1 \<and> 2 \<le> length (ras_q s) \<and> p \<in> set (ras_q s)
      then list_move_tail p (ras_q s) else ras_q s)"
  "ras_nr (task_tick_ras env p s) = ras_nr s"
  "nr_running (rq (task_tick_ras env p s)) = nr_running (rq s)"
  "curr (rq (task_tick_ras env p s)) = curr (rq s)"
  "clock_task (rq (task_tick_ras env p s)) = clock_task (rq s)"
  "tgs (task_tick_ras env p s) = tgs s"
  by (simp_all add: task_tick_ras_def Let_def ras_many_def on_ras_rq_def emit_def upd_task_def)

lemma task_tick_ras_task [simp]:
  "wcounts (tasks (task_tick_ras env p s) t) = wcounts (tasks s t)"
  "sched_task_group (tasks (task_tick_ras env p s) t) = sched_task_group (tasks s t)"
  "need_resched (tasks (task_tick_ras env p s) t) =
     (need_resched (tasks s t) \<or> t = p \<and> ras_slice s p = 1 \<and> 2 \<le> length (ras_q s))"
  by (auto simp: task_tick_ras_def Let_def ras_many_def on_ras_rq_def emit_def upd_task_def)

lemma task_tick_ras_slice [simp]:
  "ras_slice (task_tick_ras env p s) t =
     (if t = p then (if ras_slice s p = 1 then full_slice env s p else ras_slice s p - 1)
      else ras_slice s t)"
proof -
  let ?s1 = "watchdog_ras env p (update_curr_ras s)"
  let ?s3 = "upd_task p (\<lambda>t. t\<lparr>ras := (ras t)\<lparr>ras_time_slice := ras_time_slice (ras t) - 1\<rparr>\<rparr>)
    (emit (Printk (ras_trace_line (tasks ?s1 p))) ?s1)"
  have "full_slice env ?s3 p = full_slice env s p"
    by (rule full_slice_cong) (simp_all add: emit_def upd_task_def)
  moreover have "ras_slice ?s3 t = (if t = p then ras_slice s p - 1 else ras_slice s t)"
    by (simp add: emit_def upd_task_def)
  moreover have "ras_slice ?s3 p = ras_slice s p - 1"
    by (simp add: emit_def upd_task_def)
  ultimately show ?thesis
    by (simp add: task_tick_ras_def Let_def ras_many_def on_ras_rq_def)
qed

lemma full_slice_tick: "full_slice env (task_tick_ras env p s) q = full_slice env s q"
  by (rule full_slice_cong) simp_all

section \<open>The run queue invariant\<close>

text \<open>
  No task is queued twice, the counter agrees with the list, and a queued task has a running
  time slice: at least one tick and at most the longest slice, so the decrement of the tick
  never wraps around.
\<close>

definition ras_inv :: "kenv \<Rightarrow> sched_state \<Rightarrow> bool" where
  "ras_inv env s \<longleftrightarrow>
     distinct (ras_q s) \<and> ras_nr s = of_nat (length (ras_q s)) \<and> length (ras_q s) < 2 ^ 32 \<and>
     (\<forall>p \<in> set (ras_q s). 0 < unat (ras_slice s p) \<and> unat (ras_slice s p) \<le> max_slice env)"

definition ras_room :: "sched_state \<Rightarrow> bool" where
  "ras_room s \<longleftrightarrow> Suc (length (ras_q s)) < 2 ^ 32"

lemma ras_invI:
  assumes "ras_inv env s" "ras_q s' = ras_q s" "ras_nr s' = ras_nr s"
    "\<And>p. p \<in> set (ras_q s) \<Longrightarrow> ras_slice s' p = ras_slice s p"
  shows "ras_inv env s'"
  using assms by (simp add: ras_inv_def)

lemma ras_inv_reorder:
  assumes "ras_inv env s" "p \<in> set (ras_q s)" "ras_q s' = list_move_tail p (ras_q s)" "ras_nr s' = ras_nr s"
    "\<And>q. q \<in> set (ras_q s) \<Longrightarrow>
       0 < unat (ras_slice s' q) \<and> unat (ras_slice s' q) \<le> max_slice env"
  shows "ras_inv env s'"
  using assms by (simp add: ras_inv_def)

lemma ras_inv_enqueue:
  assumes "hz_ok env" "ras_inv env s" "ras_room s" "p \<notin> set (ras_q s)"
  shows "ras_inv env (enqueue_task_ras env p flags s)"
  using assms full_slice_bounds [OF assms(1), of s p]
  by (auto simp: ras_inv_def ras_room_def add.commute)

lemma ras_inv_dequeue: "ras_inv env s \<Longrightarrow> ras_inv env (dequeue_task_ras p flags s)"
proof -
  assume inv: "ras_inv env s"
  have "length (remove1 p (ras_q s)) < 2 ^ 32"
    using inv by (auto simp: ras_inv_def length_remove1)
  moreover have "ras_nr (dequeue_task_ras p flags s) = of_nat (length (remove1 p (ras_q s)))"
    using inv length_pos_if_in_set [of p "ras_q s"]
    by (auto simp: ras_inv_def length_remove1 word_of_nat_dec)
  ultimately show ?thesis
    using inv by (auto simp: ras_inv_def dest: notin_set_remove1)
qed

lemma ras_inv_pick_next: "ras_inv env s \<Longrightarrow> ras_inv env (snd (pick_next_task_ras s))"
  by (erule ras_invI) simp_all

lemma ras_inv_put_prev: "ras_inv env s \<Longrightarrow> ras_inv env (put_prev_task_ras p s)"
  by (simp add: ras_inv_def)

lemma ras_inv_yield: "ras_inv env s \<Longrightarrow> ras_inv env (yield_task_ras s)"
  by (simp add: ras_inv_def)

lemma ras_inv_tick: "hz_ok env \<Longrightarrow> ras_inv env s \<Longrightarrow> ras_inv env (task_tick_ras env p s)"
proof -
  assume hz: "hz_ok env" and inv: "ras_inv env s"
  have "0 < unat (ras_slice (task_tick_ras env p s) q) \<and>
        unat (ras_slice (task_tick_ras env p s) q) \<le> max_slice env" if "q \<in> set (ras_q s)" for q
  proof (cases "q = p \<and> ras_slice s p \<noteq> 1")
    case True
    with that inv have b: "0 < unat (ras_slice s p)" "unat (ras_slice s p) \<le> max_slice env"
      by (auto simp: ras_inv_def)
    then have "unat (ras_slice s p - 1) = unat (ras_slice s p) - 1"
      by (intro unat_dec) (auto simp: unat_gt_0)
    moreover have "unat (ras_slice s p) \<noteq> 1" using True by (simp add: unat_eq_1_iff)
    ultimately show ?thesis using True b by simp
  next
    case False
    with that inv full_slice_bounds [OF hz, of s p] show ?thesis by (auto simp: ras_inv_def)
  qed
  then show ?thesis using inv unfolding ras_inv_def by simp
qed

lemma ras_inv_get_interval:
  "hz_ok env \<Longrightarrow> ras_inv env s \<Longrightarrow> ras_inv env (snd (get_rr_interval_ras env p s))"
  using full_slice_bounds [of env s p] by (simp add: ras_inv_def)

lemma ras_inv_frame_ops:
  "ras_inv env s \<Longrightarrow> ras_inv env (check_preempt_curr_ras p flags s)"
  "ras_inv env s \<Longrightarrow> ras_inv env (set_curr_task_ras s)"
  "ras_inv env s \<Longrightarrow> ras_inv env (switched_to_ras p s)"
  "ras_inv env s \<Longrightarrow> ras_inv env (prio_changed_ras p oldprio s)"
  by (simp_all add: ras_inv_def prio_changed_ras_def)

lemma ras_inv_init: "rq_ras (rq s) = init_ras_rq \<Longrightarrow> ras_inv env s"
  by (simp add: ras_inv_def init_ras_rq_def)

lemmas ras_inv_ops = ras_inv_dequeue ras_inv_pick_next ras_inv_put_prev ras_inv_yield ras_inv_tick
  ras_inv_get_interval ras_inv_frame_ops

lemma ras_nr_zero: "ras_inv env s \<Longrightarrow> ras_nr s = 0 \<longleftrightarrow> ras_q s = []"
  by (auto simp: ras_inv_def word_of_nat_eq_0_iff dest: nat_dvd_not_less)

lemma pick_next_task_ras_hd:
  "ras_inv env s \<Longrightarrow> fst (pick_next_task_ras s) = (case ras_q s of [] \<Rightarrow> None | p # _ \<Rightarrow> Some p)"
  by (auto simp: pick_next_task_ras_def ras_nr_zero split: list.split)

section \<open>The class contract\<close>

interpretation ras_class: class_queue "\<lambda>s. hz_ok env \<and> ras_inv env s" ras_room "\<lambda>s. set (ras_q s)"
  "enqueue_task_ras env" dequeue_task_ras pick_next_task_ras put_prev_task_ras
  for env
proof unfold_locales
  fix s p fl
  show "hz_ok env \<and> ras_inv env s \<Longrightarrow>
      set (ras_q (dequeue_task_ras p fl s)) = set (ras_q s) - {p}"
    by (simp add: ras_inv_def set_remove1_eq)
  show "hz_ok env \<and> ras_inv env s \<Longrightarrow> fst (pick_next_task_ras s) = None \<longleftrightarrow> set (ras_q s) = {}"
    using pick_next_task_ras_hd [of env s] by (auto split: list.splits)
  show "fst (pick_next_task_ras s) = Some p \<Longrightarrow> p \<in> set (ras_q s)"
    by (auto simp: pick_next_task_ras_def split: if_splits list.splits)
qed (simp_all add: ras_inv_enqueue ras_inv_ops)

section \<open>All sequences of class operations\<close>

inductive ras_step :: "kenv \<Rightarrow> sched_state \<Rightarrow> sched_state \<Rightarrow> bool" for env where
  enqueue: "p \<notin> set (ras_q s) \<Longrightarrow> ras_room s \<Longrightarrow> ras_step env s (enqueue_task_ras env p flags s)"
| dequeue: "ras_step env s (dequeue_task_ras p flags s)"
| pick: "ras_step env s (snd (pick_next_task_ras s))"
| put_prev: "ras_step env s (put_prev_task_ras p s)"
| yield: "ras_step env s (yield_task_ras s)"
| check_preempt: "ras_step env s (check_preempt_curr_ras p flags s)"
| set_curr: "ras_step env s (set_curr_task_ras s)"
| tick: "ras_step env s (task_tick_ras env p s)"
| get_interval: "ras_step env s (snd (get_rr_interval_ras env p s))"
| switched_to: "ras_step env s (switched_to_ras p s)"
| prio_changed: "ras_step env s (prio_changed_ras p oldprio s)"

inductive ras_reachable :: "kenv \<Rightarrow> sched_state \<Rightarrow> bool" for env where
  init: "rq_ras (rq s) = init_ras_rq \<Longrightarrow> ras_reachable env s"
| step: "ras_reachable env s \<Longrightarrow> ras_step env s s' \<Longrightarrow> ras_reachable env s'"

lemma ras_step_inv: "ras_step env s s' \<Longrightarrow> hz_ok env \<Longrightarrow> ras_inv env s \<Longrightarrow> ras_inv env s'"
  by (induction rule: ras_step.induct) (simp_all add: ras_inv_enqueue ras_inv_ops)

section \<open>Slices and rounds\<close>

lemma ticks_before_expiry:
  assumes "k < unat (ras_slice s p)"
  shows "ras_q ((task_tick_ras env p ^^ k) s) = ras_q s \<and>
    ras_nr ((task_tick_ras env p ^^ k) s) = ras_nr s \<and>
    curr (rq ((task_tick_ras env p ^^ k) s)) = curr (rq s) \<and>
    unat (ras_slice ((task_tick_ras env p ^^ k) s) p) = unat (ras_slice s p) - k \<and>
    (\<forall>t. need_resched (tasks ((task_tick_ras env p ^^ k) s) t) = need_resched (tasks s t)) \<and>
    full_slice env ((task_tick_ras env p ^^ k) s) p = full_slice env s p"
  using assms
proof (induction k)
  case 0
  then show ?case by simp
next
  case (Suc k)
  let ?s = "(task_tick_ras env p ^^ k) s"
  from Suc have IH: "ras_q ?s = ras_q s" "ras_nr ?s = ras_nr s" "curr (rq ?s) = curr (rq s)"
    "unat (ras_slice ?s p) = unat (ras_slice s p) - k"
    "\<forall>t. need_resched (tasks ?s t) = need_resched (tasks s t)"
    "full_slice env ?s p = full_slice env s p" by simp_all
  from IH(4) Suc.prems have gt: "1 < unat (ras_slice ?s p)" by simp
  then have ne: "ras_slice ?s p \<noteq> 1" "ras_slice ?s p \<noteq> 0" by auto
  then have "unat (ras_slice ?s p - 1) = unat (ras_slice s p) - Suc k"
    using IH(4) by (simp add: unat_dec)
  with IH ne show ?case by (simp add: full_slice_tick)
qed

lemma tick_expiry:
  fixes env :: kenv and s :: sched_state and p :: task
  assumes "0 < unat (ras_slice s p)"
  defines "s' \<equiv> (task_tick_ras env p ^^ unat (ras_slice s p)) s"
  shows "ras_q s' = (if 2 \<le> length (ras_q s) \<and> p \<in> set (ras_q s)
                     then list_move_tail p (ras_q s) else ras_q s)"
    and "ras_nr s' = ras_nr s" and "curr (rq s') = curr (rq s)"
    and "ras_slice s' p = full_slice env s p"
    and "\<forall>t. need_resched (tasks s' t) = (need_resched (tasks s t) \<or> t = p \<and> 2 \<le> length (ras_q s))"
proof -
  obtain n where n: "unat (ras_slice s p) = Suc n" using assms(1) by (cases "unat (ras_slice s p)") auto
  let ?s = "(task_tick_ras env p ^^ n) s"
  have b: "ras_q ?s = ras_q s" "ras_nr ?s = ras_nr s" "curr (rq ?s) = curr (rq s)"
    "unat (ras_slice ?s p) = Suc 0" "\<And>t. need_resched (tasks ?s t) = need_resched (tasks s t)"
    "full_slice env ?s p = full_slice env s p"
    using ticks_before_expiry [of n s p env] n by simp_all
  have s': "s' = task_tick_ras env p ?s" by (simp add: s'_def n)
  have one: "ras_slice ?s p = 1" using b(4) by (simp add: unat_eq_1_iff)
  show "ras_q s' = (if 2 \<le> length (ras_q s) \<and> p \<in> set (ras_q s)
                    then list_move_tail p (ras_q s) else ras_q s)"
    and "ras_nr s' = ras_nr s" and "curr (rq s') = curr (rq s)"
    and "ras_slice s' p = full_slice env s p"
    and "\<forall>t. need_resched (tasks s' t) = (need_resched (tasks s t) \<or> t = p \<and> 2 \<le> length (ras_q s))"
    by (simp_all add: s' b one)
qed

text \<open>
  One round: the running task uses up its slice tick by tick, then the core puts it back and
  picks the next task (\<open>__schedule\<close> on a queue that holds race-averse tasks only).
\<close>

definition ras_round :: "kenv \<Rightarrow> sched_state \<Rightarrow> sched_state" where
  "ras_round env s =
     (let p = curr (rq s);
          s1 = (task_tick_ras env p ^^ unat (ras_slice s p)) s;
          s2 = put_prev_task_ras p s1
      in case pick_next_task_ras s2 of
           (None, s3) \<Rightarrow> s3
         | (Some n, s3) \<Rightarrow> upd_rq (\<lambda>r. r\<lparr>curr := n\<rparr>) s3)"

lemma move_tail_hd: "list_move_tail p (p # q) = q @ [p]"
  by (simp add: list_op_defs)

lemma move_tail_last: "p \<notin> set q \<Longrightarrow> list_move_tail p (q @ [p]) = q @ [p]"
  by (simp add: list_op_defs remove1_append)

lemma ras_inv_funpow_tick:
  "hz_ok env \<Longrightarrow> ras_inv env s \<Longrightarrow> ras_inv env ((task_tick_ras env p ^^ k) s)"
  by (induction k) (simp_all add: ras_inv_tick)

lemma ras_inv_upd_curr: "ras_inv env s \<Longrightarrow> ras_inv env (upd_rq (\<lambda>r. r\<lparr>curr := n\<rparr>) s)"
  by (simp add: ras_inv_def upd_rq_def)

lemma ras_round_queue:
  assumes "hz_ok env" and inv: "ras_inv env s" and q: "ras_q s = p # q" and c: "curr (rq s) = p"
  shows "ras_q (ras_round env s) = q @ [p]" and "curr (rq (ras_round env s)) = hd (q @ [p])"
    and "ras_inv env (ras_round env s)"
proof -
  let ?s1 = "(task_tick_ras env p ^^ unat (ras_slice s p)) s"
  let ?s2 = "put_prev_task_ras p ?s1"
  have pos: "0 < unat (ras_slice s p)" and d: "p \<notin> set q" using inv q by (auto simp: ras_inv_def)
  have q1: "ras_q ?s1 = q @ [p]"
    using tick_expiry(1) [OF pos, of env] q by (cases q) (simp_all add: move_tail_hd)
  have q2: "ras_q ?s2 = q @ [p]" using q1 d by (simp add: move_tail_last)
  have inv2: "ras_inv env ?s2"
    by (intro ras_inv_put_prev ras_inv_funpow_tick assms(1) inv)
  obtain n s3 where pick: "pick_next_task_ras ?s2 = (Some n, s3)" and n: "n = hd (q @ [p])"
    using pick_next_task_ras_hd [OF inv2] q2 by (cases "pick_next_task_ras ?s2"; cases q) auto
  have s3: "rq s3 = rq ?s2" "ras_inv env s3"
    using pick_next_task_ras_queue(1) [of ?s2] ras_inv_pick_next [OF inv2] pick by simp_all
  have r: "ras_round env s = upd_rq (\<lambda>r. r\<lparr>curr := n\<rparr>) s3"
    by (simp add: ras_round_def c pick)
  show "ras_q (ras_round env s) = q @ [p]" and "curr (rq (ras_round env s)) = hd (q @ [p])"
    and "ras_inv env (ras_round env s)"
    using s3 q2 n ras_inv_upd_curr [OF s3(2)] by (simp_all add: r upd_rq_def)
qed

lemma ras_rounds_rotate:
  assumes "hz_ok env" and "ras_inv env s" and "ras_q s \<noteq> []" and "curr (rq s) = hd (ras_q s)"
  shows "ras_q ((ras_round env ^^ k) s) = rotate k (ras_q s) \<and>
    curr (rq ((ras_round env ^^ k) s)) = hd (rotate k (ras_q s)) \<and>
    ras_inv env ((ras_round env ^^ k) s)"
proof (induction k)
  case 0
  with assms show ?case by simp
next
  case (Suc k)
  let ?s = "(ras_round env ^^ k) s"
  have "rotate k (ras_q s) \<noteq> []" using assms(3) by simp
  then obtain p q where pq: "rotate k (ras_q s) = p # q" by (cases "rotate k (ras_q s)") auto
  with Suc have "ras_q ?s = p # q" "curr (rq ?s) = p" "ras_inv env ?s" by simp_all
  note r = ras_round_queue [OF assms(1) this(3,1,2)]
  have "rotate (Suc k) (ras_q s) = q @ [p]" by (simp add: pq)
  with r show ?case by simp
qed

lemma calc_ras_weight_ras: "calc_ras_weight (t\<lparr>ras := x\<rparr>) = calc_ras_weight t"
  by (rule calc_ras_weight_cong) simp

section \<open>Properties\<close>

text \<open>C1: in every state reachable by any sequence of class operations from a freshly initialised
  queue, no task is queued twice, \<open>ras_nr_running\<close> equals the length of the run list, and every
  queued task has between one tick and the longest slice left, so the decrement of the tick never
  wraps around.\<close>

theorem ras_reachable_inv: "hz_ok env \<Longrightarrow> ras_reachable env s \<Longrightarrow> ras_inv env s"
proof -
  assume hz: "hz_ok env" and "ras_reachable env s"
  from this(2) show ?thesis
    by (induction rule: ras_reachable.induct) (auto intro: ras_inv_init ras_step_inv hz)
qed

text \<open>The weight is the number of doublings of the write count below 2^14, cut to 0..10: the
  table of the report in closed form. A task with more traced writes never has a larger weight.\<close>

theorem ras_weight_table:
  "calc_ras_weight t = max 0 (min 10 (14 - int (floorlog 2 (unat (wcounts t))))) \<and>
   (wcounts t \<le> wcounts t' \<longrightarrow> calc_ras_weight t' \<le> calc_ras_weight t)"
  by (intro conjI impI calc_ras_weight_floorlog) (simp add: calc_ras_weight_antimono)

text \<open>The slice assigned on enqueue, on expiry and by the interval query is the foreground or
  background base plus weight times the increment, without overflow, and at least one tick.\<close>

theorem ras_slice_table:
  assumes "hz_ok env"
  shows "uint (ras_slice (enqueue_task_ras env p flags s) p) =
      (if is_foreground env s p then 50 * HZ env div 1000 else 30 * HZ env div 1000) +
      calc_ras_weight (tasks s p) * (10 * HZ env div 1000) \<and>
    1 \<le> uint (ras_slice (enqueue_task_ras env p flags s) p)"
proof
  show "1 \<le> uint (ras_slice (enqueue_task_ras env p flags s) p)"
    using slice_ticks_bounds(1) [OF assms calc_ras_weight_range] by (simp add: uint_full_slice [OF assms])
qed (simp add: uint_full_slice [OF assms] slice_ticks_def timeslice_defs)

text \<open>C2: the ticks of a queued task with \<open>n > 0\<close> ticks left in its slice let it run for exactly its
  slice: the ticks before the last, the \<open>n\<close>-th, change neither the queue nor the reschedule flag of any task; the tick that exhausts
  the slice refills it from the current write count and, when another task waits, moves the
  task to the tail and asks for a reschedule of this task and of no other.\<close>

theorem ras_slice_exact:
  assumes "p \<in> set (ras_q s)" and "0 < unat (ras_slice s p)"
  shows "(k < unat (ras_slice s p) \<longrightarrow>
      ras_q ((task_tick_ras env p ^^ k) s) = ras_q s \<and>
      (\<forall>t. need_resched (tasks ((task_tick_ras env p ^^ k) s) t) = need_resched (tasks s t))) \<and>
    ras_slice ((task_tick_ras env p ^^ unat (ras_slice s p)) s) p = full_slice env s p \<and>
    (2 \<le> length (ras_q s) \<longrightarrow>
      ras_q ((task_tick_ras env p ^^ unat (ras_slice s p)) s) = remove1 p (ras_q s) @ [p] \<and>
      need_resched (tasks ((task_tick_ras env p ^^ unat (ras_slice s p)) s) p)) \<and>
    (\<forall>t. t \<noteq> p \<or> length (ras_q s) < 2 \<longrightarrow>
      need_resched (tasks ((task_tick_ras env p ^^ unat (ras_slice s p)) s) t) = need_resched (tasks s t))"
  using ticks_before_expiry [of k s p env] tick_expiry [OF assms(2), of env] assms(1)
  by (simp add: list_op_defs) force

text \<open>C3: round robin without starvation, with a tick rate the slices fit (\<open>hz_ok\<close>) and in a state that
  satisfies the invariant of C1: when the head of the run list runs and every task uses up its slice,
  after \<open>k\<close> rounds the list is rotated \<open>k\<close> times and, for \<open>k\<close> less than its length, the task that was
  at position \<open>k\<close> is running; so each of \<open>n\<close> queued tasks runs once in every \<open>n\<close> rounds, after
  which the list is as it was.\<close>

theorem ras_round_robin:
  assumes "hz_ok env" and "ras_inv env s" and "ras_q s \<noteq> []" and "curr (rq s) = hd (ras_q s)"
  shows "ras_q ((ras_round env ^^ k) s) = rotate k (ras_q s) \<and>
    (k < length (ras_q s) \<longrightarrow> curr (rq ((ras_round env ^^ k) s)) = ras_q s ! k) \<and>
    ras_q ((ras_round env ^^ length (ras_q s)) s) = ras_q s"
proof (intro conjI impI)
  note rot = ras_rounds_rotate [OF assms]
  show "ras_q ((ras_round env ^^ k) s) = rotate k (ras_q s)" using rot [of k] by simp
  assume "k < length (ras_q s)"
  then have "hd (rotate k (ras_q s)) = ras_q s ! k" using assms(3) by (simp add: hd_rotate_conv_nth)
  with rot show "curr (rq ((ras_round env ^^ k) s)) = ras_q s ! k" by simp
next
  show "ras_q ((ras_round env ^^ length (ras_q s)) s) = ras_q s"
    using ras_rounds_rotate [OF assms, of "length (ras_q s)"] by simp
qed

text \<open>A woken task asks for preemption exactly when it has fewer doublings of traced writes
  than the running one; but the core then moves the running task behind the woken one and picks
  the head of the list, so with another task waiting the woken task does not run next.\<close>

theorem ras_preempt_picks_head:
  assumes "ras_inv env s" and "ras_q s = c # q @ [p]" and "curr (rq s) = c" and "p \<noteq> c"
  shows "need_resched (tasks (check_preempt_curr_ras p flags s) c) =
      (need_resched (tasks s c) \<or> calc_ras_weight (tasks s p) > calc_ras_weight (tasks s c)) \<and>
    fst (pick_next_task_ras (put_prev_task_ras c (check_preempt_curr_ras p flags s))) =
      Some (hd (q @ [p])) \<and>
    (q \<noteq> [] \<longrightarrow>
      fst (pick_next_task_ras (put_prev_task_ras c (check_preempt_curr_ras p flags s))) \<noteq> Some p)"
proof (intro conjI)
  let ?s = "put_prev_task_ras c (check_preempt_curr_ras p flags s)"
  have d: "c \<notin> set q" "p \<notin> set q" using assms(1,2) by (auto simp: ras_inv_def)
  show "need_resched (tasks (check_preempt_curr_ras p flags s) c) =
      (need_resched (tasks s c) \<or> calc_ras_weight (tasks s p) > calc_ras_weight (tasks s c))"
    using assms(3,4)
    by (simp add: check_preempt_curr_ras_def Let_def upd_task_def resched_task_def
        set_tsk_need_resched_def calc_ras_weight_ras)
  have "ras_inv env ?s" by (intro ras_inv_put_prev ras_inv_frame_ops(1) assms(1))
  moreover have "ras_q ?s = (q @ [p]) @ [c]" using assms(2) by (simp add: move_tail_hd)
  ultimately show pick: "fst (pick_next_task_ras ?s) = Some (hd (q @ [p]))"
    using pick_next_task_ras_hd [of env ?s] by (cases q) simp_all
  show "q \<noteq> [] \<longrightarrow> fst (pick_next_task_ras ?s) \<noteq> Some p"
    using pick d by (cases q) auto
qed

text \<open>\<open>sched_rr_get_interval\<close> on a race-averse task is not a query: it returns the full slice
  and also stores it as the remaining slice, whatever was left of it.\<close>

theorem ras_get_interval_refills:
  "fst (get_rr_interval_ras env p s) = full_slice env s p \<and>
   ras_slice (snd (get_rr_interval_ras env p s)) p = full_slice env s p \<and>
   ras_q (snd (get_rr_interval_ras env p s)) = ras_q s"
  by simp

text \<open>C4: the class contract the core relies on: after the running task is put back a queued task
  is picked, a task that was dequeued to sleep is not, and dequeueing an enqueued task gives back
  the queued tasks.\<close>

theorem ras_class_contract:
  assumes "hz_ok env" and "ras_inv env s"
  shows "(ras_q s \<noteq> [] \<longrightarrow> (\<exists>q \<in> set (ras_q s). fst (pick_next_task_ras (put_prev_task_ras p s)) = Some q)) \<and>
    fst (pick_next_task_ras (put_prev_task_ras p (dequeue_task_ras p flags s))) \<noteq> Some p \<and>
    (ras_room s \<longrightarrow> p \<notin> set (ras_q s) \<longrightarrow>
      set (ras_q (dequeue_task_ras p flags (enqueue_task_ras env p flags' s))) = set (ras_q s))"
  using assms ras_class.pick_next_works [of env s p] ras_class.sleeper_not_picked [of env s p flags]
    ras_class.dequeue_enqueue [of env s p flags flags']
  by simp_all

section \<open>Witnesses\<close>

lemma hz_ok_env0: "hz_ok env0"
  by (simp add: hz_ok_def env0_def)

lemma ras_inv_ex: "ras_inv env0 ras3"
  by (simp add: ras_inv_def ras3_def state0_def task0_def max_slice_def env0_def timeslice_defs upd_defs)

theorem ras_reachable_inv_witness: "ras_inv env0 (enqueue_task_ras env0 1 0 state0)"
proof (rule ras_reachable_inv)
  have "ras_reachable env0 state0"
    by (rule ras_reachable.init) (simp add: state0_def init_ras_rq_def)
  then show "ras_reachable env0 (enqueue_task_ras env0 1 0 state0)"
    by (rule ras_reachable.step) (rule ras_step.enqueue; simp add: state0_def ras_room_def)
qed (rule hz_ok_env0)

theorem ras_weight_table_witness:
  "calc_ras_weight (task0\<lparr>wcounts := 1460\<rparr>) = 3 \<and>
   calc_ras_weight (task0\<lparr>wcounts := 1460\<rparr>) \<le> calc_ras_weight (task0\<lparr>wcounts := 22\<rparr>)"
  using ras_weight_table [of "task0\<lparr>wcounts := 22\<rparr>" "task0\<lparr>wcounts := 1460\<rparr>"]
  by (simp add: calc_ras_weight_def)

theorem ras_slice_table_witness: "uint (ras_slice (enqueue_task_ras env0 1 0 state0) 1) = 15"
  using ras_slice_table [OF hz_ok_env0, of 1 0 state0]
  by (simp add: env0_def state0_def task0_def is_foreground_def task_group_path_def calc_ras_weight_def)

theorem ras_slice_exact_witness:
  "ras_q ((task_tick_ras env0 1 ^^ 5) ras3) = [2, 3, 1]"
  using ras_slice_exact [of 1 ras3 0 env0] by (simp add: ras3_def state0_def task0_def upd_defs)

theorem ras_round_robin_witness:
  "curr (rq ((ras_round env0 ^^ 2) ras3)) = 3 \<and> ras_q ((ras_round env0 ^^ 2) ras3) = [3, 1, 2]"
proof -
  have q: "ras_q ras3 = [1, 2, 3]" "curr (rq ras3) = hd (ras_q ras3)"
    by (simp_all add: ras3_def state0_def upd_defs)
  then have "ras_q ras3 \<noteq> []" "rotate 2 [1, 2, 3 :: nat] = [3, 1, 2]" by (simp_all add: numeral_2_eq_2)
  with ras_round_robin [OF hz_ok_env0 ras_inv_ex this(1) q(2), of 2] q show ?thesis by simp
qed

theorem ras_preempt_picks_head_witness:
  "fst (pick_next_task_ras (put_prev_task_ras 1 (check_preempt_curr_ras 3 0 ras3))) = Some 2"
proof -
  have "ras_q ras3 = 1 # [2] @ [3]" "curr (rq ras3) = 1"
    by (simp_all add: ras3_def state0_def upd_defs)
  from ras_preempt_picks_head [OF ras_inv_ex this] show ?thesis by simp
qed

theorem ras_class_contract_witness:
  "\<exists>q \<in> set (ras_q ras3). fst (pick_next_task_ras (put_prev_task_ras 1 ras3)) = Some q"
  using ras_class_contract [OF hz_ok_env0 ras_inv_ex, of 1]
  by (simp add: ras3_def state0_def upd_defs)

end
