(* ===== verification/Rt.thy ===== *)
theory Rt
  imports Sched_Types C_Lib
begin

text \<open>
  The real-time scheduling class, \<open>kernel/sched/rt.c\<close>, in the uniprocessor configuration with
  group scheduling: a priority array per group with a bitmap of its non-empty queues, entities of
  groups queued in the array of the parent group, and the bandwidth limit that throttles a group.
  A run queue is named by the number of its group, the root's by \<open>root_task_group\<close>.
  Load balancing between CPUs (push, pull, runtime borrowing) exists only with SMP.
\<close>

section \<open>Initialisation\<close>

definition init_rt_bandwidth :: "u64 \<Rightarrow> u64 \<Rightarrow> rt_bandwidth" where
  "init_rt_bandwidth period runtime = \<lparr>rt_period = period, rt_b_runtime = runtime, rt_timer_active = False\<rparr>"

definition start_rt_bandwidth :: "tg \<Rightarrow> sched_state \<Rightarrow> sched_state" where
  "start_rt_bandwidth g s =
     (let b = tg_rt_bandwidth (tgs s g) in
      if \<not> rt_bandwidth_enabled s \<or> rt_b_runtime b = RUNTIME_INF then s
      else if rt_timer_active b then s
      else emit (Start_bandwidth_timer g)
             (s\<lparr>tgs := (tgs s)(g := (tgs s g)\<lparr>tg_rt_bandwidth := b\<lparr>rt_timer_active := True\<rparr>\<rparr>)\<rparr>))"

definition init_rt_rq :: "rt_rq \<Rightarrow> rt_rq" where
  "init_rt_rq r = r\<lparr>queue := (\<lambda>i. if 0 \<le> i \<and> i < MAX_RT_PRIO then [] else queue r i),
     bitmap := (\<lambda>i. if 0 \<le> i \<and> i < MAX_RT_PRIO then False else if i = MAX_RT_PRIO then True else bitmap r i),
     rt_time := 0, rt_throttled := False, rt_runtime := 0\<rparr>"

text \<open>\<open>init_tg_rt_entry\<close> for group \<open>g\<close>; \<open>e\<close> is its entity, \<open>par\<close> the parent's.\<close>

definition init_tg_rt_entry :: "tg \<Rightarrow> rt_se option \<Rightarrow> rt_se option \<Rightarrow> sched_state \<Rightarrow> sched_state" where
  "init_tg_rt_entry g e par s =
     (let s1 = upd_rt_rq g (\<lambda>r. r\<lparr>highest_prio_curr := MAX_RT_PRIO, rt_nr_boosted := 0, rt_rq_tg := Some g\<rparr>) s;
          s2 = s1\<lparr>tgs := (tgs s1)(g := (tgs s1 g)\<lparr>tg_rt_se := e\<rparr>)\<rparr>
      in case e of
           None \<Rightarrow> s2
         | Some en \<Rightarrow>
             upd_rt_se en (\<lambda>x. x\<lparr>rt_rq_of := (case par of None \<Rightarrow> root_task_group
                                              | Some q \<Rightarrow> (case my_q (rt_ses s2 q) of Some h \<Rightarrow> h | None \<Rightarrow> root_task_group)),
                                my_q := Some g, rt_parent := par\<rparr>) s2)"

text \<open>
  Creating a group whose memory is available; the period is that of \<open>def_rt_bandwidth\<close>, the runtime 0. The
  failing allocations return 0 and leave the group to be freed.
\<close>

definition alloc_rt_sched_group :: "bool \<Rightarrow> tg \<Rightarrow> tg \<Rightarrow> sched_state \<Rightarrow> int \<times> sched_state" where
  "alloc_rt_sched_group mem g parent s =
     (if \<not> mem then (0, s)
      else
        let b = init_rt_bandwidth (rt_period (def_rt_bandwidth s)) 0;
            s1 = s\<lparr>tgs := (tgs s)(g := (tgs s g)\<lparr>tg_rt_bandwidth := b\<rparr>)\<rparr>;
            s2 = upd_rt_rq g (\<lambda>r. (init_rt_rq \<lparr>bitmap = (\<lambda>_. False), queue = (\<lambda>_. []), rt_nr_running = 0,
                   highest_prio_curr = 0, rt_throttled = False, rt_time = 0, rt_runtime = 0,
                   rt_nr_boosted = 0, rt_rq_tg = None\<rparr>)\<lparr>rt_runtime := rt_b_runtime b\<rparr>) s1
        in (1, init_tg_rt_entry g (Some (GroupSE g)) (tg_rt_se (tgs s2 parent)) s2))"

section \<open>Entities and the chain of their groups\<close>

text \<open>\<open>set_task_rq\<close> of \<open>sched.h\<close>: link the entity of a task to the queue of its group.\<close>

definition set_task_rq :: "task \<Rightarrow> sched_state \<Rightarrow> sched_state" where
  "set_task_rq p s =
     (let g = sched_task_group (tasks s p) in
      upd_rt_se (TaskSE p) (\<lambda>x. x\<lparr>rt_rq_of := g, rt_parent := tg_rt_se (tgs s g)\<rparr>) s)"

definition rt_task_of :: "rt_se \<Rightarrow> task" where
  "rt_task_of e = (case e of TaskSE t \<Rightarrow> t | GroupSE g \<Rightarrow> g)"

definition on_rt_rq :: "sched_state \<Rightarrow> rt_se \<Rightarrow> bool" where
  "on_rt_rq s e \<longleftrightarrow> list_ex (\<lambda>i. e \<in> set (queue (rt_rqs s (rt_rq_of (rt_ses s e))) i)) [0..MAX_RT_PRIO - 1]"

text \<open>
  \<open>for_each_sched_rt_entity\<close>: an entity and those of the groups around it. The parent of a task's
  entity belongs to a group, the parent of a group's entity to a group created before it.
\<close>

fun se_below :: "rt_se \<Rightarrow> rt_se \<Rightarrow> bool" where
  "se_below (TaskSE t) (GroupSE g) = True"
| "se_below (GroupSE h) (GroupSE g) = (g < h)"
| "se_below _ (TaskSE t) = False"

function se_chain :: "(rt_se \<Rightarrow> sched_rt_entity) \<Rightarrow> rt_se \<Rightarrow> rt_se list" where
  "se_chain ses e = e # (case rt_parent (ses e) of
     None \<Rightarrow> [] | Some p \<Rightarrow> if se_below e p then se_chain ses p else [])"
  by pat_completeness auto
termination
  by (relation "measures [\<lambda>(ses, e). case e of TaskSE t \<Rightarrow> 1 | GroupSE g \<Rightarrow> 0,
        \<lambda>(ses, e). case e of TaskSE t \<Rightarrow> 0 | GroupSE g \<Rightarrow> g]")
    (auto split: rt_se.splits)

declare se_chain.simps [simp del]

section \<open>Priorities, counters and throttling\<close>

definition sched_rt_runtime :: "rt_rq \<Rightarrow> u64" where
  "sched_rt_runtime r = (if rt_rq_tg r = None then RUNTIME_INF else rt_runtime r)"

definition sched_rt_period :: "sched_state \<Rightarrow> rt_rq \<Rightarrow> u64" where
  "sched_rt_period s r = (case rt_rq_tg r of None \<Rightarrow> 0 | Some g \<Rightarrow> rt_period (tg_rt_bandwidth (tgs s g)))"

definition rt_rq_throttled :: "rt_rq \<Rightarrow> bool" where
  "rt_rq_throttled r \<longleftrightarrow> rt_throttled r \<and> rt_nr_boosted r = 0"

definition rt_se_boosted :: "sched_state \<Rightarrow> rt_se \<Rightarrow> bool" where
  "rt_se_boosted s e =
     (case my_q (rt_ses s e) of
        Some h \<Rightarrow> rt_nr_boosted (rt_rqs s h) \<noteq> 0
      | None \<Rightarrow> prio (tasks s (rt_task_of e)) \<noteq> normal_prio (tasks s (rt_task_of e)))"

definition rt_se_prio :: "sched_state \<Rightarrow> rt_se \<Rightarrow> int" where
  "rt_se_prio s e =
     (case my_q (rt_ses s e) of
        Some h \<Rightarrow> highest_prio_curr (rt_rqs s h)
      | None \<Rightarrow> prio (tasks s (rt_task_of e)))"

text \<open>The first set bit of a bitmap of \<open>MAX_RT_PRIO + 1\<close> bits.\<close>

definition sched_find_first_bit :: "(int \<Rightarrow> bool) \<Rightarrow> int" where
  "sched_find_first_bit b = (case find b [0..MAX_RT_PRIO] of Some i \<Rightarrow> i | None \<Rightarrow> MAX_RT_PRIO + 1)"

definition inc_rt_prio :: "int \<Rightarrow> rt_rq \<Rightarrow> rt_rq" where
  "inc_rt_prio p r = (if p < highest_prio_curr r then r\<lparr>highest_prio_curr := p\<rparr> else r)"

definition dec_rt_prio :: "int \<Rightarrow> rt_rq \<Rightarrow> rt_rq" where
  "dec_rt_prio p r =
     (if rt_nr_running r \<noteq> 0 then
        (if p = highest_prio_curr r then r\<lparr>highest_prio_curr := sched_find_first_bit (bitmap r)\<rparr> else r)
      else r\<lparr>highest_prio_curr := MAX_RT_PRIO\<rparr>)"

definition inc_rt_group :: "rt_se \<Rightarrow> tg \<Rightarrow> sched_state \<Rightarrow> sched_state" where
  "inc_rt_group e g s =
     (let s1 = (if rt_se_boosted s e then upd_rt_rq g (\<lambda>r. r\<lparr>rt_nr_boosted := rt_nr_boosted r + 1\<rparr>) s else s)
      in case rt_rq_tg (rt_rqs s1 g) of None \<Rightarrow> s1 | Some t \<Rightarrow> start_rt_bandwidth t s1)"

definition dec_rt_group :: "rt_se \<Rightarrow> tg \<Rightarrow> sched_state \<Rightarrow> sched_state" where
  "dec_rt_group e g s =
     (if rt_se_boosted s e then upd_rt_rq g (\<lambda>r. r\<lparr>rt_nr_boosted := rt_nr_boosted r - 1\<rparr>) s else s)"

definition inc_rt_tasks :: "rt_se \<Rightarrow> tg \<Rightarrow> sched_state \<Rightarrow> sched_state" where
  "inc_rt_tasks e g s =
     (let p = rt_se_prio s e;
          s1 = upd_rt_rq g (\<lambda>r. inc_rt_prio p (r\<lparr>rt_nr_running := rt_nr_running r + 1\<rparr>)) s
      in inc_rt_group e g s1)"

definition dec_rt_tasks :: "rt_se \<Rightarrow> tg \<Rightarrow> sched_state \<Rightarrow> sched_state" where
  "dec_rt_tasks e g s =
     (let s1 = upd_rt_rq g (\<lambda>r. r\<lparr>rt_nr_running := rt_nr_running r - 1\<rparr>) s;
          p = rt_se_prio s1 e;
          s2 = upd_rt_rq g (dec_rt_prio p) s1
      in dec_rt_group e g s2)"

section \<open>Enqueueing and dequeueing entities\<close>

definition upd_queue :: "tg \<Rightarrow> int \<Rightarrow> (rt_se list \<Rightarrow> rt_se list) \<Rightarrow> sched_state \<Rightarrow> sched_state" where
  "upd_queue g i f = upd_rt_rq g (\<lambda>r. r\<lparr>queue := (queue r)(i := f (queue r i))\<rparr>)"

definition set_bitmap :: "tg \<Rightarrow> int \<Rightarrow> bool \<Rightarrow> sched_state \<Rightarrow> sched_state" where
  "set_bitmap g i b = upd_rt_rq g (\<lambda>r. r\<lparr>bitmap := (bitmap r)(i := b)\<rparr>)"

definition upd_leaf_list :: "(tg list \<Rightarrow> tg list) \<Rightarrow> sched_state \<Rightarrow> sched_state" where
  "upd_leaf_list f = upd_rq (\<lambda>r. r\<lparr>leaf_rt_rq_list := f (leaf_rt_rq_list r)\<rparr>)"

definition enqueue_rt_entity1 :: "bool \<Rightarrow> rt_se \<Rightarrow> sched_state \<Rightarrow> sched_state" where
  "enqueue_rt_entity1 head e s =
     (let g = rt_rq_of (rt_ses s e);
          p = rt_se_prio s e;
          skip = (case my_q (rt_ses s e) of
                    None \<Rightarrow> False
                  | Some h \<Rightarrow> rt_rq_throttled (rt_rqs s h) \<or> rt_nr_running (rt_rqs s h) = 0)
      in if skip then s
         else
           let s1 = (if rt_nr_running (rt_rqs s g) = 0 then upd_leaf_list (list_add g) s else s);
               s2 = upd_queue g p (if head then list_add e else list_add_tail e) s1;
               s3 = set_bitmap g p True s2
           in inc_rt_tasks e g s3)"

text \<open>\<open>list_del_init\<close> unlinks the node from the queue it is on.\<close>

definition dequeue_rt_entity1 :: "rt_se \<Rightarrow> sched_state \<Rightarrow> sched_state" where
  "dequeue_rt_entity1 e s =
     (let g = rt_rq_of (rt_ses s e);
          s1 = upd_rt_rq g (\<lambda>r. r\<lparr>queue := (\<lambda>i. list_del_init e (queue r i))\<rparr>) s;
          p = rt_se_prio s1 e;
          s2 = (if queue (rt_rqs s1 g) p = [] then set_bitmap g p False s1 else s1);
          s3 = dec_rt_tasks e g s2
      in if rt_nr_running (rt_rqs s3 g) = 0 then upd_leaf_list (list_del_init g) s3 else s3)"

definition dequeue_rt_stack :: "rt_se \<Rightarrow> sched_state \<Rightarrow> sched_state" where
  "dequeue_rt_stack e s =
     fold (\<lambda>x st. if on_rt_rq st x then dequeue_rt_entity1 x st else st) (rev (se_chain (rt_ses s) e)) s"

definition enqueue_rt_entity :: "bool \<Rightarrow> rt_se \<Rightarrow> sched_state \<Rightarrow> sched_state" where
  "enqueue_rt_entity head e s =
     fold (enqueue_rt_entity1 head) (se_chain (rt_ses s) e) (dequeue_rt_stack e s)"

definition dequeue_rt_entity :: "rt_se \<Rightarrow> sched_state \<Rightarrow> sched_state" where
  "dequeue_rt_entity e s =
     fold (\<lambda>x st. case my_q (rt_ses st x) of
             None \<Rightarrow> st
           | Some h \<Rightarrow> if rt_nr_running (rt_rqs st h) \<noteq> 0 then enqueue_rt_entity1 False x st else st)
       (se_chain (rt_ses s) e) (dequeue_rt_stack e s)"

section \<open>Bandwidth\<close>

definition sched_rt_rq_enqueue :: "tg \<Rightarrow> sched_state \<Rightarrow> sched_state" where
  "sched_rt_rq_enqueue g s =
     (let r = rt_rqs s g; c = curr (rq s);
          e = (case rt_rq_tg r of None \<Rightarrow> None | Some t \<Rightarrow> tg_rt_se (tgs s t))
      in if rt_nr_running r \<noteq> 0 then
           let s1 = (case e of Some x \<Rightarrow> if \<not> on_rt_rq s x then enqueue_rt_entity False x s else s | None \<Rightarrow> s)
           in if highest_prio_curr (rt_rqs s1 g) < prio (tasks s1 c) then resched_task c s1 else s1
         else s)"

definition sched_rt_rq_dequeue :: "tg \<Rightarrow> sched_state \<Rightarrow> sched_state" where
  "sched_rt_rq_dequeue g s =
     (case (case rt_rq_tg (rt_rqs s g) of None \<Rightarrow> None | Some t \<Rightarrow> tg_rt_se (tgs s t)) of
        Some x \<Rightarrow> if on_rt_rq s x then dequeue_rt_entity x s else s
      | None \<Rightarrow> s)"

text \<open>
  One run of the period timer for group \<open>g\<close> on the single CPU: whether the timer may stop, and
  the state.
\<close>

definition do_sched_rt_period_timer :: "tg \<Rightarrow> u64 \<Rightarrow> sched_state \<Rightarrow> bool \<times> sched_state" where
  "do_sched_rt_period_timer g overrun s =
     (let r = rt_rqs s g;
          (s1, enq, idle1) =
            (if rt_time r \<noteq> 0 then
               let runtime = rt_runtime r;
                   t = rt_time r - min (rt_time r) (overrun * runtime);
                   sa = upd_rt_rq g (\<lambda>x. x\<lparr>rt_time := t\<rparr>) s;
                   un = rt_throttled r \<and> t < runtime;
                   sb = (if un then upd_rt_rq g (\<lambda>x. x\<lparr>rt_throttled := False\<rparr>) sa else sa);
                   sc = (if un \<and> rt_nr_running r \<noteq> 0 \<and> curr (rq s) = idle (rq s)
                         then upd_rq (\<lambda>q. q\<lparr>skip_clock_update := - 1\<rparr>) sb else sb)
               in (sc, un, \<not> (t \<noteq> 0 \<or> rt_nr_running r \<noteq> 0))
             else if rt_nr_running r \<noteq> 0 then (s, \<not> rt_rq_throttled r, False)
             else (s, False, True));
          throttled = rt_throttled (rt_rqs s1 g);
          s2 = (if enq then sched_rt_rq_enqueue g s1 else s1)
      in (if \<not> throttled \<and> (\<not> rt_bandwidth_enabled s \<or> rt_b_runtime (tg_rt_bandwidth (tgs s g)) = RUNTIME_INF)
          then True else idle1, s2))"

text \<open>
  The timer callback: \<open>overruns\<close> are the successive results of \<open>hrtimer_forward\<close>, a zero ends the
  loop. The result says whether the timer is started again.
\<close>

fun period_timer_loop :: "tg \<Rightarrow> u64 list \<Rightarrow> bool \<Rightarrow> sched_state \<Rightarrow> bool \<times> sched_state" where
  "period_timer_loop g [] idle1 s = (idle1, s)"
| "period_timer_loop g (n # ns) idle1 s =
     (if n = 0 then (idle1, s)
      else case do_sched_rt_period_timer g n s of (i, s') \<Rightarrow> period_timer_loop g ns i s')"

definition sched_rt_period_timer :: "tg \<Rightarrow> u64 list \<Rightarrow> sched_state \<Rightarrow> bool \<times> sched_state" where
  "sched_rt_period_timer g overruns s =
     (case period_timer_loop g overruns False s of
        (idle1, s') \<Rightarrow>
          (\<not> idle1, s'\<lparr>tgs := (tgs s')(g := (tgs s' g)\<lparr>tg_rt_bandwidth :=
             (tg_rt_bandwidth (tgs s' g))\<lparr>rt_timer_active := \<not> idle1\<rparr>\<rparr>)\<rparr>))"

definition sched_rt_runtime_exceeded :: "tg \<Rightarrow> sched_state \<Rightarrow> bool \<times> sched_state" where
  "sched_rt_runtime_exceeded g s =
     (let r = rt_rqs s g; runtime = sched_rt_runtime r in
      if rt_throttled r then (rt_rq_throttled r, s)
      else if runtime \<ge> sched_rt_period s r then (False, s)
      else if runtime = RUNTIME_INF then (False, s)
      else if rt_time r > runtime then
        let b = (case rt_rq_tg r of None \<Rightarrow> 0 | Some t \<Rightarrow> rt_b_runtime (tg_rt_bandwidth (tgs s t)));
            s1 = (if b \<noteq> 0 then upd_rt_rq g (\<lambda>x. x\<lparr>rt_throttled := True\<rparr>) s
                  else upd_rt_rq g (\<lambda>x. x\<lparr>rt_time := 0\<rparr>) s)
        in if rt_rq_throttled (rt_rqs s1 g) then (True, sched_rt_rq_dequeue g s1) else (False, s1)
      else (False, s))"

definition charge_rt_entity :: "u64 \<Rightarrow> rt_se \<Rightarrow> sched_state \<Rightarrow> sched_state" where
  "charge_rt_entity delta e s =
     (let g = rt_rq_of (rt_ses s e) in
      if sched_rt_runtime (rt_rqs s g) \<noteq> RUNTIME_INF then
        case sched_rt_runtime_exceeded g (upd_rt_rq g (\<lambda>r. r\<lparr>rt_time := rt_time r + delta\<rparr>) s) of
          (ex, s') \<Rightarrow> if ex then resched_task (curr (rq s')) s' else s'
      else s)"

definition update_curr_rt :: "sched_state \<Rightarrow> sched_state" where
  "update_curr_rt s =
     (let p = curr (rq s); c = tasks s p in
      if sched_class c \<noteq> rt_sched_class then s
      else
        let delta = clock_task (rq s) - exec_start (se c);
            delta_exec = (if sint delta < 0 then 0 else delta);
            s1 = upd_task p (\<lambda>t. t\<lparr>se := (se t)
                   \<lparr>exec_max := max (exec_max (se t)) delta_exec,
                    sum_exec_runtime := sum_exec_runtime (se t) + delta_exec\<rparr>\<rparr>) s;
            s2 = emit (Account_group_exec_runtime p delta_exec) s1;
            s3 = upd_task p (\<lambda>t. t\<lparr>se := (se t)\<lparr>exec_start := clock_task (rq s)\<rparr>\<rparr>) s2;
            s4 = cpuacct_charge p delta_exec s3
        in if \<not> rt_bandwidth_enabled s4 then s4
           else fold (charge_rt_entity delta_exec) (se_chain (rt_ses s4) (TaskSE p)) s4)"

section \<open>Operations of the class\<close>

definition enqueue_task_rt :: "task \<Rightarrow> u32 \<Rightarrow> sched_state \<Rightarrow> sched_state" where
  "enqueue_task_rt p flags s =
     (let s1 = (if flag_set flags ENQUEUE_WAKEUP then upd_rt_se (TaskSE p) (\<lambda>x. x\<lparr>rt_timeout := 0\<rparr>) s else s);
          s2 = enqueue_rt_entity (flag_set flags ENQUEUE_HEAD) (TaskSE p) s1
      in inc_nr_running s2)"

definition dequeue_task_rt :: "task \<Rightarrow> u32 \<Rightarrow> sched_state \<Rightarrow> sched_state" where
  "dequeue_task_rt p flags s = dec_nr_running (dequeue_rt_entity (TaskSE p) (update_curr_rt s))"

definition requeue_rt_entity :: "bool \<Rightarrow> rt_se \<Rightarrow> sched_state \<Rightarrow> sched_state" where
  "requeue_rt_entity head e s =
     (if on_rt_rq s e then
        upd_queue (rt_rq_of (rt_ses s e)) (rt_se_prio s e) (if head then list_move e else list_move_tail e) s
      else s)"

definition requeue_task_rt :: "bool \<Rightarrow> task \<Rightarrow> sched_state \<Rightarrow> sched_state" where
  "requeue_task_rt head p s = fold (requeue_rt_entity head) (se_chain (rt_ses s) (TaskSE p)) s"

definition yield_task_rt :: "sched_state \<Rightarrow> sched_state" where
  "yield_task_rt s = requeue_task_rt False (curr (rq s)) s"

definition check_preempt_curr_rt :: "task \<Rightarrow> u32 \<Rightarrow> sched_state \<Rightarrow> sched_state" where
  "check_preempt_curr_rt p flags s =
     (if prio (tasks s p) < prio (tasks s (curr (rq s))) then resched_task (curr (rq s)) s else s)"

text \<open>\<open>None\<close> is \<open>BUG_ON\<close>, or a set bit over an empty queue.\<close>

definition pick_next_rt_entity :: "sched_state \<Rightarrow> tg \<Rightarrow> rt_se option" where
  "pick_next_rt_entity s g =
     (let idx = sched_find_first_bit (bitmap (rt_rqs s g)) in
      if idx \<ge> MAX_RT_PRIO then None
      else case queue (rt_rqs s g) idx of [] \<Rightarrow> None | e # _ \<Rightarrow> Some e)"

partial_function (option) pick_rt_loop :: "sched_state \<Rightarrow> tg \<Rightarrow> task option" where
  "pick_rt_loop s g =
     Option.bind (pick_next_rt_entity s g)
       (\<lambda>e. case my_q (rt_ses s e) of Some h \<Rightarrow> pick_rt_loop s h | None \<Rightarrow> Some (rt_task_of e))"

definition pick_next_task_rt :: "sched_state \<Rightarrow> (task option \<times> sched_state) option" where
  "pick_next_task_rt s =
     (let r = rt_rqs s root_task_group in
      if rt_nr_running r = 0 then Some (None, s)
      else if rt_rq_throttled r then Some (None, s)
      else Option.bind (pick_rt_loop s root_task_group)
        (\<lambda>p. Some (Some p, upd_task p (\<lambda>t. t\<lparr>se := (se t)\<lparr>exec_start := clock_task (rq s)\<rparr>\<rparr>) s)))"

definition put_prev_task_rt :: "task \<Rightarrow> sched_state \<Rightarrow> sched_state" where
  "put_prev_task_rt p s = update_curr_rt s"

definition switched_to_rt :: "task \<Rightarrow> sched_state \<Rightarrow> sched_state" where
  "switched_to_rt p s =
     (if on_rq (tasks s p) \<and> curr (rq s) \<noteq> p then
        (if prio (tasks s p) < prio (tasks s (curr (rq s))) then resched_task (curr (rq s)) s else s)
      else s)"

definition prio_changed_rt :: "task \<Rightarrow> int \<Rightarrow> sched_state \<Rightarrow> sched_state" where
  "prio_changed_rt p oldprio s =
     (if \<not> on_rq (tasks s p) then s
      else if curr (rq s) = p then (if oldprio < prio (tasks s p) then resched_task p s else s)
      else if prio (tasks s p) < prio (tasks s (curr (rq s))) then resched_task (curr (rq s)) s
      else s)"

definition watchdog_rt :: "kenv \<Rightarrow> task \<Rightarrow> sched_state \<Rightarrow> sched_state" where
  "watchdog_rt env p s =
     (let soft = task_rlimit (tasks s p) RLIMIT_RTTIME;
          hard = task_rlimit_max (tasks s p) RLIMIT_RTTIME
      in if soft \<noteq> RLIM_INFINITY then
           let s1 = upd_rt_se (TaskSE p) (\<lambda>x. x\<lparr>rt_timeout := rt_timeout x + 1\<rparr>) s;
               d = word_of_int (1000000 div HZ env);
               nxt = (min soft hard + d - 1) div d
           in if rt_timeout (rt_ses s1 (TaskSE p)) > nxt
              then upd_task p (\<lambda>t. t\<lparr>sched_exp := sum_exec_runtime (se t)\<rparr>) s1 else s1
         else s)"

definition fifo_trace_line :: "task_struct \<Rightarrow> string" where
  "fifo_trace_line t = ''FIFO tracing: pid='' @ show_int (pid t) @ [CHR 0x0A]"

definition rr_trace_line :: "task_struct \<Rightarrow> u32 \<Rightarrow> string" where
  "rr_trace_line t ts = ''RR tracing: pid='' @ show_int (pid t) @ '', remaining rr time slice='' @
     show_int (sint ts) @ [CHR 0x0A]"

text \<open>\<open>run_list.prev != run_list.next\<close>: the entity shares its queue with another one.\<close>

definition rt_shares_queue :: "sched_state \<Rightarrow> rt_se \<Rightarrow> bool" where
  "rt_shares_queue s e \<longleftrightarrow>
     list_ex (\<lambda>i. e \<in> set (queue (rt_rqs s (rt_rq_of (rt_ses s e))) i) \<and>
                 2 \<le> length (queue (rt_rqs s (rt_rq_of (rt_ses s e))) i)) [0..MAX_RT_PRIO - 1]"

definition task_tick_rt :: "kenv \<Rightarrow> task \<Rightarrow> sched_state \<Rightarrow> sched_state" where
  "task_tick_rt env p s =
     (let s1 = watchdog_rt env p (update_curr_rt s); t = tasks s1 p in
      if policy t \<noteq> SCHED_RR then
        (if rr_fifo_trace t = 1 then emit (Printk (fifo_trace_line t)) s1 else s1)
      else
        let s2 = (if rr_fifo_trace t = 1
                  then emit (Printk (rr_trace_line t (rt_time_slice (rt_ses s1 (TaskSE p))))) s1 else s1);
            s3 = upd_rt_se (TaskSE p) (\<lambda>x. x\<lparr>rt_time_slice := rt_time_slice x - 1\<rparr>) s2
        in if rt_time_slice (rt_ses s3 (TaskSE p)) \<noteq> 0 then s3
           else
             let s4 = upd_rt_se (TaskSE p) (\<lambda>x. x\<lparr>rt_time_slice := word_of_int (RR_TIMESLICE (HZ env))\<rparr>) s3
             in if list_ex (rt_shares_queue s4) (se_chain (rt_ses s4) (TaskSE p))
                then set_tsk_need_resched p (requeue_task_rt False p s4) else s4)"

definition set_curr_task_rt :: "sched_state \<Rightarrow> sched_state" where
  "set_curr_task_rt s =
     upd_task (curr (rq s)) (\<lambda>t. t\<lparr>se := (se t)\<lparr>exec_start := clock_task (rq s)\<rparr>\<rparr>) s"

definition get_rr_interval_rt :: "kenv \<Rightarrow> task \<Rightarrow> sched_state \<Rightarrow> u32" where
  "get_rr_interval_rt env p s =
     (if policy (tasks s p) = SCHED_RR then word_of_int (RR_TIMESLICE (HZ env)) else 0)"

end
