(* ===== verification/Rt_Array.thy ===== *)
theory Rt_Array
  imports Rt
begin

text \<open>
  The priority array of one real-time run queue: the bitmap marks the non-empty queues, the
  counter counts the queued entities, and the recorded highest priority is the first set bit.
  Adding and removing an entity keep this.
\<close>

section \<open>The first set bit\<close>

lemma find_Some_in: "find P xs = Some x \<Longrightarrow> x \<in> set xs \<and> P x"
  by (induction xs) (auto split: if_splits)

lemma find_sorted_le:
  "\<lbrakk>sorted xs; find P xs = Some x; y \<in> set xs; P y\<rbrakk> \<Longrightarrow> x \<le> (y :: int)"
  by (induction xs) (auto split: if_splits)

lemma sorted_upto_int: "sorted [a..b]"
proof (induction "nat (b - a)" arbitrary: a)
  case 0
  then show ?case by (cases "a = b") (simp_all add: upto.simps)
next
  case (Suc n)
  then have "sorted [a + 1..b]" by simp
  then show ?case by (subst upto.simps) simp
qed

lemma first_bit_props:
  assumes "b MAX_RT_PRIO"
  shows "0 \<le> sched_find_first_bit b" "sched_find_first_bit b \<le> MAX_RT_PRIO" "b (sched_find_first_bit b)"
    and "\<lbrakk>0 \<le> i; i \<le> MAX_RT_PRIO; b i\<rbrakk> \<Longrightarrow> sched_find_first_bit b \<le> i"
proof -
  have "find b [0..MAX_RT_PRIO] \<noteq> None"
    using assms by (auto simp: find_None_iff prio_defs)
  then obtain x where x: "find b [0..MAX_RT_PRIO] = Some x" by auto
  then have "sched_find_first_bit b = x" by (simp add: sched_find_first_bit_def)
  moreover have "x \<in> set [0..MAX_RT_PRIO]" "b x" using find_Some_in [OF x] by auto
  ultimately show "0 \<le> sched_find_first_bit b" "sched_find_first_bit b \<le> MAX_RT_PRIO" "b (sched_find_first_bit b)"
    by simp_all
  show "sched_find_first_bit b \<le> i" if "0 \<le> i" "i \<le> MAX_RT_PRIO" "b i"
    using find_sorted_le [OF sorted_upto_int x, of i] that \<open>sched_find_first_bit b = x\<close> by simp
qed

lemma first_bit_eqI:
  assumes "b MAX_RT_PRIO" "0 \<le> i" "i \<le> MAX_RT_PRIO" "b i" "\<And>j. \<lbrakk>0 \<le> j; j < i\<rbrakk> \<Longrightarrow> \<not> b j"
  shows "sched_find_first_bit b = i"
  using first_bit_props [of b, OF assms(1)] assms(2-) by (meson linorder_not_le order_antisym_conv order.antisym)

section \<open>The array invariant\<close>

abbreviation rt_prios :: "int set" where
  "rt_prios \<equiv> {0..<MAX_RT_PRIO}"

definition nr_queued :: "rt_rq \<Rightarrow> nat" where
  "nr_queued r = (\<Sum>i \<in> rt_prios. length (queue r i))"

definition arr_ok :: "rt_rq \<Rightarrow> bool" where
  "arr_ok r \<longleftrightarrow>
     (\<forall>i \<in> rt_prios. bitmap r i \<longleftrightarrow> queue r i \<noteq> []) \<and> bitmap r MAX_RT_PRIO \<and>
     (\<forall>i. i \<notin> rt_prios \<longrightarrow> queue r i = []) \<and> (\<forall>i. distinct (queue r i)) \<and>
     unat (rt_nr_running r) = nr_queued r \<and>
     highest_prio_curr r = sched_find_first_bit (bitmap r)"

lemma arr_okD:
  assumes "arr_ok r"
  shows "i \<in> rt_prios \<Longrightarrow> bitmap r i \<longleftrightarrow> queue r i \<noteq> []" "bitmap r MAX_RT_PRIO"
    "i \<notin> rt_prios \<Longrightarrow> queue r i = []" "distinct (queue r i)" "unat (rt_nr_running r) = nr_queued r"
    "highest_prio_curr r = sched_find_first_bit (bitmap r)"
  using assms unfolding arr_ok_def by blast+

lemma arr_ok_cong:
  assumes "bitmap r' = bitmap r" "queue r' = queue r" "rt_nr_running r' = rt_nr_running r"
    "highest_prio_curr r' = highest_prio_curr r"
  shows "arr_ok r' = arr_ok r"
  unfolding arr_ok_def nr_queued_def assms ..

lemma nr_queued_upd:
  assumes "p \<in> rt_prios"
  shows "nr_queued (r\<lparr>queue := (queue r)(p := q)\<rparr>) + length (queue r p) = nr_queued r + length q"
proof -
  have "nr_queued (r\<lparr>queue := (queue r)(p := q)\<rparr>) = length q + (\<Sum>i \<in> rt_prios - {p}. length (queue r i))"
    using assms by (simp add: nr_queued_def sum.remove [where x = p])
  moreover have "nr_queued r = length (queue r p) + (\<Sum>i \<in> rt_prios - {p}. length (queue r i))"
    using assms by (simp add: nr_queued_def sum.remove [where x = p])
  ultimately show ?thesis by simp
qed

lemma nr_queued_cong: "queue r' = queue r \<Longrightarrow> nr_queued r' = nr_queued r"
  by (simp add: nr_queued_def)

lemma arr_ok_nonempty:
  assumes "arr_ok r" "rt_nr_running r \<noteq> 0"
  shows "highest_prio_curr r \<in> rt_prios" "queue r (highest_prio_curr r) \<noteq> []"
proof -
  have "nr_queued r \<noteq> 0" using assms(2) arr_okD(5) [OF assms(1)] by (metis unat_eq_zero)
  then obtain i where i: "i \<in> rt_prios" "queue r i \<noteq> []" by (auto simp: nr_queued_def)
  then have "bitmap r i" using arr_okD(1) [OF assms(1)] by blast
  with i first_bit_props [where b = "bitmap r", OF arr_okD(2) [OF assms(1)]] have
    "sched_find_first_bit (bitmap r) \<in> rt_prios" "bitmap r (sched_find_first_bit (bitmap r))"
    by (fastforce simp: prio_defs)+
  with arr_okD(1,6) [OF assms(1)] show "highest_prio_curr r \<in> rt_prios" "queue r (highest_prio_curr r) \<noteq> []"
    by auto
qed

lemma arr_ok_highest_least:
  assumes "arr_ok r" "e \<in> set (queue r i)"
  shows "highest_prio_curr r \<le> i" "i \<in> rt_prios" "rt_nr_running r \<noteq> 0"
proof -
  show i: "i \<in> rt_prios" using arr_okD(3) [OF assms(1), of i] assms(2) by (metis empty_iff empty_set)
  then have "bitmap r i" using arr_okD(1) [OF assms(1) i] assms(2) by auto
  then show "highest_prio_curr r \<le> i"
    using first_bit_props(4) [where b = "bitmap r", OF arr_okD(2) [OF assms(1)], where i = i] i arr_okD(6) [OF assms(1)] by (auto simp: prio_defs)
  have "queue r i \<noteq> []" using assms(2) by auto
  then have "nr_queued r \<noteq> 0" using i by (auto simp: nr_queued_def)
  then show "rt_nr_running r \<noteq> 0" using arr_okD(5) [OF assms(1)] by (metis unat_eq_zero)
qed

section \<open>Adding and removing\<close>

definition arr_add :: "bool \<Rightarrow> rt_se \<Rightarrow> int \<Rightarrow> rt_rq \<Rightarrow> rt_rq" where
  "arr_add head e p r =
     inc_rt_prio p (r\<lparr>queue := (queue r)(p := (if head then list_add e else list_add_tail e) (queue r p)),
       bitmap := (bitmap r)(p := True), rt_nr_running := rt_nr_running r + 1\<rparr>)"

definition arr_del :: "rt_se \<Rightarrow> int \<Rightarrow> rt_rq \<Rightarrow> rt_rq" where
  "arr_del e p r =
     (let q = (\<lambda>i. list_del_init e (queue r i)) in
      dec_rt_prio p (r\<lparr>queue := q, bitmap := (if q p = [] then (bitmap r)(p := False) else bitmap r),
        rt_nr_running := rt_nr_running r - 1\<rparr>))"

lemma inc_rt_prio_frame [simp]:
  "queue (inc_rt_prio p r) = queue r" "bitmap (inc_rt_prio p r) = bitmap r"
  "rt_nr_running (inc_rt_prio p r) = rt_nr_running r"
  "rt_throttled (inc_rt_prio p r) = rt_throttled r" "rt_nr_boosted (inc_rt_prio p r) = rt_nr_boosted r"
  "highest_prio_curr (inc_rt_prio p r) = min p (highest_prio_curr r)"
  by (auto simp: inc_rt_prio_def)

lemma dec_rt_prio_frame [simp]:
  "queue (dec_rt_prio p r) = queue r" "bitmap (dec_rt_prio p r) = bitmap r"
  "rt_nr_running (dec_rt_prio p r) = rt_nr_running r"
  by (auto simp: dec_rt_prio_def)

lemma arr_add_ok:
  assumes "arr_ok r" "p \<in> rt_prios" "e \<notin> set (queue r p)" "Suc (nr_queued r) < 2 ^ 32"
  shows "arr_ok (arr_add head e p r)"
proof -
  let ?q = "(if head then list_add e else list_add_tail e) (queue r p)"
  let ?r = "arr_add head e p r"
  have q: "queue ?r = (queue r)(p := ?q)" "bitmap ?r = (bitmap r)(p := True)"
    "rt_nr_running ?r = rt_nr_running r + 1" "highest_prio_curr ?r = min p (highest_prio_curr r)"
    by (simp_all add: arr_add_def)
  have ne: "?q \<noteq> []" "distinct ?q" "length ?q = Suc (length (queue r p))"
    using assms(3) arr_okD(4) [OF assms(1)] by auto
  have "nr_queued ?r = nr_queued (r\<lparr>queue := (queue r)(p := ?q)\<rparr>)" by (rule nr_queued_cong) (simp add: q)
  with nr_queued_upd [OF assms(2), of r ?q] ne(3) have nr: "nr_queued ?r = Suc (nr_queued r)" by simp
  have "unat (rt_nr_running ?r) = nr_queued ?r"
    using arr_okD(5) [OF assms(1)] assms(4) unat_inc [of "rt_nr_running r"] by (simp add: nr q(3))
  moreover have "highest_prio_curr ?r = sched_find_first_bit (bitmap ?r)"
  proof (rule first_bit_eqI [symmetric])
    note fb = first_bit_props [where b = "bitmap r", OF arr_okD(2) [OF assms(1)]] and h = arr_okD(6) [OF assms(1)]
    show "bitmap ?r MAX_RT_PRIO" "0 \<le> highest_prio_curr ?r" "highest_prio_curr ?r \<le> MAX_RT_PRIO"
      "bitmap ?r (highest_prio_curr ?r)"
      using fb(1-3) h arr_okD(2) [OF assms(1)] assms(2) by (auto simp: q min_def)
    show "\<not> bitmap ?r j" if "0 \<le> j" "j < highest_prio_curr ?r" for j
      using that fb(2) fb(4) [of j] h by (auto simp: q)
  qed
  moreover have "bitmap ?r i \<longleftrightarrow> queue ?r i \<noteq> []" if "i \<in> rt_prios" for i
    using arr_okD(1) [OF assms(1) that] ne(1) by (simp add: q)
  ultimately show ?thesis
    using arr_okD(2-4) [OF assms(1)] assms(2,3) ne(2) by (auto simp: arr_ok_def q)
qed

lemma arr_del_ok:
  assumes "arr_ok r" "p \<in> rt_prios" "e \<in> set (queue r p)" "\<And>i. i \<noteq> p \<Longrightarrow> e \<notin> set (queue r i)"
  shows "arr_ok (arr_del e p r)"
proof -
  let ?q = "list_del_init e (queue r p)"
  let ?r = "arr_del e p r"
  have dq: "(\<lambda>i. list_del_init e (queue r i)) = (queue r)(p := ?q)" using assms(4) by auto
  have q: "queue ?r = (queue r)(p := ?q)" "rt_nr_running ?r = rt_nr_running r - 1"
    "bitmap ?r = (if ?q = [] then (bitmap r)(p := False) else bitmap r)"
    by (simp_all add: arr_del_def Let_def dq)
  have nz: "rt_nr_running r \<noteq> 0" using arr_ok_highest_least(3) [OF assms(1,3)] .
  have "nr_queued ?r = nr_queued (r\<lparr>queue := (queue r)(p := ?q)\<rparr>)" by (rule nr_queued_cong) (simp add: q)
  with nr_queued_upd [OF assms(2), of r ?q] assms(3) have nr: "nr_queued ?r = nr_queued r - 1"
    using length_pos_if_in_set [OF assms(3)] by simp
  have cnt: "unat (rt_nr_running ?r) = nr_queued ?r"
    using arr_okD(5) [OF assms(1)] unat_dec [OF nz] by (simp add: nr q(2))
  have bit: "bitmap ?r i \<longleftrightarrow> queue ?r i \<noteq> []" if "i \<in> rt_prios" for i
    using arr_okD(1) [OF assms(1) that] assms(3) by (auto simp: q)
  have top: "bitmap ?r MAX_RT_PRIO" using arr_okD(2) [OF assms(1)] assms(2) by (auto simp: q)
  have "highest_prio_curr ?r = sched_find_first_bit (bitmap ?r)"
  proof (cases "rt_nr_running ?r = 0")
    case True
    then have "\<forall>i \<in> rt_prios. queue ?r i = []" using cnt by (auto simp: nr_queued_def)
    then have "sched_find_first_bit (bitmap ?r) = MAX_RT_PRIO"
      using bit top by (intro first_bit_eqI) (auto simp: prio_defs)
    with True q(2) show ?thesis by (simp add: arr_del_def Let_def dec_rt_prio_def)
  next
    case nz': False
    show ?thesis
    proof (cases "p = highest_prio_curr r")
      case True
      with nz' q(2) show ?thesis by (simp add: arr_del_def Let_def dec_rt_prio_def)
    next
      case False
      note fb = first_bit_props [where b = "bitmap r", OF arr_okD(2) [OF assms(1)]] and h = arr_okD(6) [OF assms(1)]
      have "sched_find_first_bit (bitmap ?r) = highest_prio_curr r"
      proof (rule first_bit_eqI, rule top)
        show "0 \<le> highest_prio_curr r" "highest_prio_curr r \<le> MAX_RT_PRIO" "bitmap ?r (highest_prio_curr r)"
          using fb(1-3) h False by (auto simp: q)
        show "\<not> bitmap ?r j" if "0 \<le> j" "j < highest_prio_curr r" for j
          using that fb(2) fb(4) [of j] h by (auto simp: q)
      qed
      moreover have "highest_prio_curr ?r = highest_prio_curr r"
        using False nz' q(2) by (simp add: arr_del_def Let_def dec_rt_prio_def)
      ultimately show ?thesis by simp
    qed
  qed
  with cnt bit top show ?thesis
    using arr_okD(3,4) [OF assms(1)] assms(2) by (auto simp: arr_ok_def q)
qed

end
