(* ===== verification/Rt_Proofs.thy ===== *)
theory Rt_Proofs
  imports Rt_Array Sched_Examples
begin

text \<open>
  The invariant of the real-time class over the hierarchy of groups: every array is consistent,
  and a queued entity is on the array of its group at the index of its priority. The priority of
  a group's entity is the highest priority in the group's array, so it changes under the entity;
  the invariant holds because enqueueing and dequeueing first remove the whole chain of entities
  from the top down and then rebuild it from the bottom up.
\<close>

section \<open>The invariant\<close>

definition rt_queued :: "sched_state \<Rightarrow> rt_se \<Rightarrow> bool" where
  "rt_queued s e \<longleftrightarrow> (\<exists>g i. e \<in> set (queue (rt_rqs s g) i))"

definition hier :: "(rt_se \<Rightarrow> sched_rt_entity) \<Rightarrow> bool" where
  "hier ses \<longleftrightarrow>
     (\<forall>e x. rt_parent (ses e) = Some x \<longrightarrow> se_below e x) \<and>
     (\<forall>e x. rt_parent (ses e) = Some x \<longleftrightarrow> my_q (ses x) = Some (rt_rq_of (ses e))) \<and>
     (\<forall>t. my_q (ses (TaskSE t)) = None)"

text \<open>\<open>E\<close> are the entities that exist.\<close>

definition rt_inv :: "rt_se set \<Rightarrow> sched_state \<Rightarrow> bool" where
  "rt_inv E s \<longleftrightarrow>
     finite E \<and> card E < 2 ^ 32 \<and> hier (rt_ses s) \<and>
     (\<forall>e \<in> E. \<forall>x. rt_parent (rt_ses s e) = Some x \<longrightarrow> x \<in> E) \<and>
     (\<forall>g. GroupSE g \<in> E \<longrightarrow> my_q (rt_ses s (GroupSE g)) \<noteq> None) \<and>
     (\<forall>g. arr_ok (rt_rqs s g)) \<and>
     (\<forall>g i. \<forall>e \<in> set (queue (rt_rqs s g) i). e \<in> E \<and> rt_rq_of (rt_ses s e) = g \<and> rt_se_prio s e = i)"

lemma rt_invD:
  assumes "rt_inv E s"
  shows "finite E" "card E < 2 ^ 32" "hier (rt_ses s)" "arr_ok (rt_rqs s g)"
    "\<lbrakk>e \<in> E; rt_parent (rt_ses s e) = Some x\<rbrakk> \<Longrightarrow> x \<in> E"
    "e \<in> set (queue (rt_rqs s g) i) \<Longrightarrow> e \<in> E \<and> rt_rq_of (rt_ses s e) = g \<and> rt_se_prio s e = i"
    "GroupSE g \<in> E \<Longrightarrow> my_q (rt_ses s (GroupSE g)) \<noteq> None"
  using assms unfolding rt_inv_def by blast+

lemma hierD:
  assumes "hier ses"
  shows "rt_parent (ses e) = Some x \<Longrightarrow> se_below e x"
    "rt_parent (ses e) = Some x \<longleftrightarrow> my_q (ses x) = Some (rt_rq_of (ses e))"
    "my_q (ses (TaskSE t)) = None"
  using assms unfolding hier_def by blast+

lemma on_rt_rq_iff:
  assumes "rt_inv E s"
  shows "on_rt_rq s e \<longleftrightarrow> rt_queued s e"
proof
  assume "rt_queued s e"
  then obtain g i where q: "e \<in> set (queue (rt_rqs s g) i)" by (auto simp: rt_queued_def)
  with rt_invD(6) [OF assms q] arr_ok_highest_least(2) [OF rt_invD(4) [OF assms] q]
  show "on_rt_rq s e" by (auto simp: on_rt_rq_def list_ex_iff)
qed (auto simp: on_rt_rq_def list_ex_iff rt_queued_def)

lemma queued_at:
  assumes "rt_inv E s" "rt_queued s e"
  shows "e \<in> set (queue (rt_rqs s (rt_rq_of (rt_ses s e))) (rt_se_prio s e))"
    "i \<noteq> rt_se_prio s e \<or> g \<noteq> rt_rq_of (rt_ses s e) \<Longrightarrow> e \<notin> set (queue (rt_rqs s g) i)"
proof -
  obtain g' i' where q: "e \<in> set (queue (rt_rqs s g') i')" using assms(2) by (auto simp: rt_queued_def)
  with rt_invD(6) [OF assms(1) q] show "e \<in> set (queue (rt_rqs s (rt_rq_of (rt_ses s e))) (rt_se_prio s e))" by simp
  show "e \<notin> set (queue (rt_rqs s g) i)" if "i \<noteq> rt_se_prio s e \<or> g \<noteq> rt_rq_of (rt_ses s e)"
    using rt_invD(6) [OF assms(1), of e g i] that by auto
qed

lemma nr_queued_card:
  assumes "rt_inv E s"
  shows "nr_queued (rt_rqs s g) = card (\<Union>i \<in> rt_prios. set (queue (rt_rqs s g) i))"
proof -
  have "set (queue (rt_rqs s g) i) \<inter> set (queue (rt_rqs s g) j) = {}" if "i \<noteq> j" for i j
    using rt_invD(6) [OF assms, of _ g i] rt_invD(6) [OF assms, of _ g j] that by auto
  then have "card (\<Union>i \<in> rt_prios. set (queue (rt_rqs s g) i)) = (\<Sum>i \<in> rt_prios. card (set (queue (rt_rqs s g) i)))"
    by (intro card_UN_disjoint) auto
  also have "\<dots> = nr_queued (rt_rqs s g)"
    using arr_okD(4) [OF rt_invD(4) [OF assms]] by (simp add: nr_queued_def distinct_card)
  finally show ?thesis ..
qed

lemma room_for:
  assumes "rt_inv E s" "e \<in> E" "\<not> rt_queued s e"
  shows "Suc (nr_queued (rt_rqs s g)) < 2 ^ 32"
proof -
  have "(\<Union>i \<in> rt_prios. set (queue (rt_rqs s g) i)) \<subseteq> E - {e}"
    using rt_invD(6) [OF assms(1)] assms(3) by (auto simp: rt_queued_def)
  from card_mono [OF _ this] have "nr_queued (rt_rqs s g) \<le> card E - 1"
    using nr_queued_card [OF assms(1)] rt_invD(1) [OF assms(1)] assms(2) by simp
  moreover have "0 < card E" using rt_invD(1) [OF assms(1)] assms(2) by (auto simp: card_gt_0_iff)
  ultimately show ?thesis using rt_invD(2) [OF assms(1)] by linarith
qed

section \<open>One entity\<close>

definition same_entities :: "sched_state \<Rightarrow> sched_state \<Rightarrow> bool" where
  "same_entities s s' \<longleftrightarrow> rt_ses s' = rt_ses s \<and> tasks s' = tasks s"

lemma start_rt_bandwidth_frame [simp]:
  "rt_rqs (start_rt_bandwidth g s) = rt_rqs s" "rt_ses (start_rt_bandwidth g s) = rt_ses s"
  "tasks (start_rt_bandwidth g s) = tasks s" "rq (start_rt_bandwidth g s) = rq s"
  by (simp_all add: start_rt_bandwidth_def Let_def emit_def)

definition enq_skipped :: "sched_state \<Rightarrow> rt_se \<Rightarrow> bool" where
  "enq_skipped s e \<longleftrightarrow> (case my_q (rt_ses s e) of
     None \<Rightarrow> False | Some h \<Rightarrow> rt_rq_throttled (rt_rqs s h) \<or> rt_nr_running (rt_rqs s h) = 0)"

lemma rt_se_prio_cong:
  assumes "rt_ses s' = rt_ses s" "tasks s' = tasks s"
    "\<And>h. my_q (rt_ses s e) = Some h \<Longrightarrow> highest_prio_curr (rt_rqs s' h) = highest_prio_curr (rt_rqs s h)"
  shows "rt_se_prio s' e = rt_se_prio s e"
  using assms(3) by (simp add: rt_se_prio_def assms(1,2) split: option.splits)

lemma rt_upd_frame [simp]:
  "rt_ses (upd_queue g i f s) = rt_ses s" "tasks (upd_queue g i f s) = tasks s" "rq (upd_queue g i f s) = rq s"
  "rt_ses (set_bitmap g i b s) = rt_ses s" "tasks (set_bitmap g i b s) = tasks s" "rq (set_bitmap g i b s) = rq s"
  "rt_ses (upd_leaf_list l s) = rt_ses s" "tasks (upd_leaf_list l s) = tasks s" "rt_rqs (upd_leaf_list l s) = rt_rqs s"
  "rt_ses (upd_rt_rq g u s) = rt_ses s" "tasks (upd_rt_rq g u s) = tasks s" "rq (upd_rt_rq g u s) = rq s"
  "rt_rqs (upd_rt_rq g u s) = (rt_rqs s)(g := u (rt_rqs s g))"
  by (simp_all add: upd_queue_def set_bitmap_def upd_leaf_list_def upd_defs)

lemma rt_se_prio_upd [simp]:
  "rt_se_prio (upd_queue g i f s) e = rt_se_prio s e"
  "rt_se_prio (set_bitmap g i b s) e = rt_se_prio s e"
  "rt_se_prio (upd_leaf_list l s) e = rt_se_prio s e"
  "(\<And>r. highest_prio_curr (u r) = highest_prio_curr r) \<Longrightarrow> rt_se_prio (upd_rt_rq g u s) e = rt_se_prio s e"
  by (rule rt_se_prio_cong; simp add: upd_queue_def set_bitmap_def)+

lemma boosted_same: "\<exists>b. r = r\<lparr>rt_nr_boosted := b\<rparr>" for r :: rt_rq
  by (rule exI [of _ "rt_nr_boosted r"]) simp

lemma inc_rt_tasks_effect:
  "\<exists>b. rt_rqs (inc_rt_tasks e g s) = (rt_rqs s)(g :=
      (inc_rt_prio (rt_se_prio s e) ((rt_rqs s g)\<lparr>rt_nr_running := rt_nr_running (rt_rqs s g) + 1\<rparr>))\<lparr>rt_nr_boosted := b\<rparr>)"
  "rt_ses (inc_rt_tasks e g s) = rt_ses s" "tasks (inc_rt_tasks e g s) = tasks s" "rq (inc_rt_tasks e g s) = rq s"
proof -
  show "\<exists>b. rt_rqs (inc_rt_tasks e g s) = (rt_rqs s)(g :=
      (inc_rt_prio (rt_se_prio s e) ((rt_rqs s g)\<lparr>rt_nr_running := rt_nr_running (rt_rqs s g) + 1\<rparr>))\<lparr>rt_nr_boosted := b\<rparr>)"
    by (auto simp: inc_rt_tasks_def inc_rt_group_def Let_def fun_eq_iff boosted_same split: option.split)
qed (simp_all add: inc_rt_tasks_def inc_rt_group_def Let_def split: option.split)

lemma enq1_effect:
  assumes "\<not> enq_skipped s e"
  shows "\<exists>b. rt_rqs (enqueue_rt_entity1 head e s) =
      (rt_rqs s)(rt_rq_of (rt_ses s e) :=
        (arr_add head e (rt_se_prio s e) (rt_rqs s (rt_rq_of (rt_ses s e))))\<lparr>rt_nr_boosted := b\<rparr>)"
    "rt_ses (enqueue_rt_entity1 head e s) = rt_ses s" "tasks (enqueue_rt_entity1 head e s) = tasks s"
proof -
  let ?g = "rt_rq_of (rt_ses s e)" and ?p = "rt_se_prio s e"
  let ?s1 = "if rt_nr_running (rt_rqs s ?g) = 0 then upd_leaf_list (list_add ?g) s else s"
  let ?s3 = "set_bitmap ?g ?p True (upd_queue ?g ?p (if head then list_add e else list_add_tail e) ?s1)"
  have e: "enqueue_rt_entity1 head e s = inc_rt_tasks e ?g ?s3"
    using assms unfolding enqueue_rt_entity1_def enq_skipped_def Let_def by (auto split: option.splits)
  have "rt_rqs ?s3 = (rt_rqs s)(?g := (rt_rqs s ?g)
      \<lparr>queue := (queue (rt_rqs s ?g))(?p := (if head then list_add e else list_add_tail e) (queue (rt_rqs s ?g) ?p)),
       bitmap := (bitmap (rt_rqs s ?g))(?p := True)\<rparr>)" "rt_se_prio ?s3 e = ?p"
    by (simp_all add: set_bitmap_def upd_queue_def)
  then show "\<exists>b. rt_rqs (enqueue_rt_entity1 head e s) =
      (rt_rqs s)(?g := (arr_add head e ?p (rt_rqs s ?g))\<lparr>rt_nr_boosted := b\<rparr>)"
    unfolding e using inc_rt_tasks_effect(1) [of e ?g ?s3] by (simp add: arr_add_def)
  show "rt_ses (enqueue_rt_entity1 head e s) = rt_ses s" "tasks (enqueue_rt_entity1 head e s) = tasks s"
    by (simp_all add: e inc_rt_tasks_effect)
qed

lemma enq1_skipped: "enq_skipped s e \<Longrightarrow> enqueue_rt_entity1 head e s = s"
  by (auto simp: enqueue_rt_entity1_def enq_skipped_def Let_def split: option.splits)

lemma dec_rt_tasks_effect:
  "\<exists>b. rt_rqs (dec_rt_tasks e g s) = (rt_rqs s)(g :=
      (dec_rt_prio (rt_se_prio s e) ((rt_rqs s g)\<lparr>rt_nr_running := rt_nr_running (rt_rqs s g) - 1\<rparr>))\<lparr>rt_nr_boosted := b\<rparr>)"
  "rt_ses (dec_rt_tasks e g s) = rt_ses s" "tasks (dec_rt_tasks e g s) = tasks s" "rq (dec_rt_tasks e g s) = rq s"
proof -
  show "\<exists>b. rt_rqs (dec_rt_tasks e g s) = (rt_rqs s)(g :=
      (dec_rt_prio (rt_se_prio s e) ((rt_rqs s g)\<lparr>rt_nr_running := rt_nr_running (rt_rqs s g) - 1\<rparr>))\<lparr>rt_nr_boosted := b\<rparr>)"
    by (auto simp: dec_rt_tasks_def dec_rt_group_def Let_def fun_eq_iff boosted_same)
qed (simp_all add: dec_rt_tasks_def dec_rt_group_def Let_def)

lemma deq1_effect:
  "\<exists>b. rt_rqs (dequeue_rt_entity1 e s) =
      (rt_rqs s)(rt_rq_of (rt_ses s e) :=
        (arr_del e (rt_se_prio s e) (rt_rqs s (rt_rq_of (rt_ses s e))))\<lparr>rt_nr_boosted := b\<rparr>)"
  "rt_ses (dequeue_rt_entity1 e s) = rt_ses s" "tasks (dequeue_rt_entity1 e s) = tasks s"
proof -
  let ?g = "rt_rq_of (rt_ses s e)" and ?p = "rt_se_prio s e"
  let ?s1 = "upd_rt_rq ?g (\<lambda>r. r\<lparr>queue := (\<lambda>i. list_del_init e (queue r i))\<rparr>) s"
  let ?s2 = "if queue (rt_rqs ?s1 ?g) ?p = [] then set_bitmap ?g ?p False ?s1 else ?s1"
  have p: "rt_se_prio ?s1 e = ?p" "rt_se_prio ?s2 e = ?p" by simp_all
  define s2 where "s2 = ?s2"
  let ?s3 = "dec_rt_tasks e ?g s2"
  have e: "dequeue_rt_entity1 e s =
      (if rt_nr_running (rt_rqs ?s3 ?g) = 0 then upd_leaf_list (list_del_init ?g) ?s3 else ?s3)"
    unfolding dequeue_rt_entity1_def Let_def p s2_def ..
  have s2: "rt_se_prio s2 e = ?p" "rt_ses s2 = rt_ses s" "tasks s2 = tasks s"
    "rt_rqs s2 ?g = (rt_rqs s ?g)\<lparr>queue := (\<lambda>i. list_del_init e (queue (rt_rqs s ?g) i)),
      bitmap := (if list_del_init e (queue (rt_rqs s ?g) ?p) = [] then (bitmap (rt_rqs s ?g))(?p := False)
                 else bitmap (rt_rqs s ?g))\<rparr>" "\<And>h. h \<noteq> ?g \<Longrightarrow> rt_rqs s2 h = rt_rqs s h"
    by (simp_all add: s2_def set_bitmap_def)
  obtain b where b: "rt_rqs ?s3 = (rt_rqs s2)(?g :=
      (dec_rt_prio ?p ((rt_rqs s2 ?g)\<lparr>rt_nr_running := rt_nr_running (rt_rqs s2 ?g) - 1\<rparr>))\<lparr>rt_nr_boosted := b\<rparr>)"
    using dec_rt_tasks_effect(1) [of e ?g s2] s2(1) by auto
  have "rt_rqs ?s3 = (rt_rqs s)(?g := (arr_del e ?p (rt_rqs s ?g))\<lparr>rt_nr_boosted := b\<rparr>)"
  proof
    fix h
    show "rt_rqs ?s3 h = ((rt_rqs s)(?g := (arr_del e ?p (rt_rqs s ?g))\<lparr>rt_nr_boosted := b\<rparr>)) h"
      by (cases "h = ?g") (simp_all add: b s2(4,5) arr_del_def Let_def split del: if_split)
  qed
  then show "\<exists>b. rt_rqs (dequeue_rt_entity1 e s) =
      (rt_rqs s)(?g := (arr_del e ?p (rt_rqs s ?g))\<lparr>rt_nr_boosted := b\<rparr>)"
    unfolding e by auto
  show "rt_ses (dequeue_rt_entity1 e s) = rt_ses s" "tasks (dequeue_rt_entity1 e s) = tasks s"
    by (simp_all add: e dec_rt_tasks_effect s2(2,3))
qed

lemma rt_inv_upd:
  assumes inv: "rt_inv E s" and "rt_ses s' = rt_ses s" "tasks s' = tasks s"
    and rqs: "rt_rqs s' = (rt_rqs s)(g := r)" "arr_ok r"
    and owner: "\<And>x. my_q (rt_ses s x) = Some g \<Longrightarrow> \<not> rt_queued s x \<and> (\<forall>i. x \<notin> set (queue r i))"
    and ents: "\<And>i x. x \<in> set (queue r i) \<Longrightarrow> x \<in> E \<and> rt_rq_of (rt_ses s x) = g \<and> rt_se_prio s x = i"
  shows "rt_inv E s'"
proof -
  have "x \<in> E \<and> rt_rq_of (rt_ses s' x) = h \<and> rt_se_prio s' x = i" if "x \<in> set (queue (rt_rqs s' h) i)" for x h i
  proof -
    have q: "x \<in> E \<and> rt_rq_of (rt_ses s x) = h \<and> rt_se_prio s x = i"
      using that ents [of x i] rt_invD(6) [OF inv, of x h i] by (auto simp: rqs(1) split: if_splits)
    have "my_q (rt_ses s x) \<noteq> Some g"
      using that owner [of x] by (auto simp: rqs(1) rt_queued_def split: if_splits)
    then have "rt_se_prio s' x = rt_se_prio s x"
      by (intro rt_se_prio_cong assms(2,3)) (auto simp: rqs(1))
    with q show ?thesis by (simp add: assms(2))
  qed
  moreover have "arr_ok (rt_rqs s' h)" for h using rt_invD(4) [OF inv] rqs by simp
  ultimately show ?thesis using inv unfolding rt_inv_def assms(2) by blast
qed

lemma arr_ok_boosted [simp]: "arr_ok (r\<lparr>rt_nr_boosted := b\<rparr>) = arr_ok r"
  by (rule arr_ok_cong) simp_all

lemma queue_boosted: "queue (r\<lparr>rt_nr_boosted := b\<rparr>) = queue r"
  by simp

lemma set_arr_add:
  "set (queue (arr_add head e p r) i) = (if i = p then insert e (set (queue r i)) else set (queue r i))"
  by (simp add: arr_add_def)

lemma se_below_irrefl [simp]: "\<not> se_below e e"
  by (cases e) simp_all

lemma enq1_inv:
  assumes inv: "rt_inv E s" and e: "e \<in> E" "\<not> rt_queued s e"
    and owner: "\<And>x. rt_parent (rt_ses s e) = Some x \<Longrightarrow> \<not> rt_queued s x"
    and p: "\<not> enq_skipped s e \<Longrightarrow> rt_se_prio s e \<in> rt_prios"
  shows "rt_inv E (enqueue_rt_entity1 head e s)"
    "rt_queued (enqueue_rt_entity1 head e s) x \<longleftrightarrow> rt_queued s x \<or> (x = e \<and> \<not> enq_skipped s e)"
proof -
  let ?g = "rt_rq_of (rt_ses s e)" and ?p = "rt_se_prio s e"
  have own: "my_q (rt_ses s x) = Some ?g \<Longrightarrow> \<not> rt_queued s x \<and> x \<noteq> e" for x
    using owner [of x] hierD(1,2) [OF rt_invD(3) [OF inv], of e x] by auto
  have "rt_inv E (enqueue_rt_entity1 head e s) \<and>
      (\<forall>x. rt_queued (enqueue_rt_entity1 head e s) x \<longleftrightarrow> rt_queued s x \<or> (x = e \<and> \<not> enq_skipped s e))"
  proof (cases "enq_skipped s e")
    case True
    then show ?thesis using inv by (simp add: enq1_skipped)
  next
    case False
    obtain b where b: "rt_rqs (enqueue_rt_entity1 head e s) =
        (rt_rqs s)(?g := (arr_add head e ?p (rt_rqs s ?g))\<lparr>rt_nr_boosted := b\<rparr>)"
      using enq1_effect(1) [OF False] by blast
    have notin: "e \<notin> set (queue (rt_rqs s ?g) ?p)" using e(2) by (auto simp: rt_queued_def)
    have ok: "arr_ok (arr_add head e ?p (rt_rqs s ?g))"
      by (rule arr_add_ok [OF rt_invD(4) [OF inv] p [OF False] notin room_for [OF inv e]])
    have ents: "x \<in> E \<and> rt_rq_of (rt_ses s x) = ?g \<and> rt_se_prio s x = i"
      if "x \<in> set (queue (arr_add head e ?p (rt_rqs s ?g)) i)" for x i
      using that rt_invD(6) [OF inv, of x ?g i] e(1) by (auto simp: set_arr_add split: if_splits)
    have own': "\<not> rt_queued s x \<and> (\<forall>i. x \<notin> set (queue (arr_add head e ?p (rt_rqs s ?g)) i))"
      if "my_q (rt_ses s x) = Some ?g" for x
      using own [OF that] by (auto simp: set_arr_add rt_queued_def)
    have "rt_inv E (enqueue_rt_entity1 head e s)"
    proof (rule rt_inv_upd [OF inv enq1_effect(2,3) [OF False] b])
      show "arr_ok ((arr_add head e ?p (rt_rqs s ?g))\<lparr>rt_nr_boosted := b\<rparr>)" unfolding arr_ok_boosted by (rule ok)
      show "\<not> rt_queued s x \<and> (\<forall>i. x \<notin> set (queue ((arr_add head e ?p (rt_rqs s ?g))\<lparr>rt_nr_boosted := b\<rparr>) i))"
        if "my_q (rt_ses s x) = Some ?g" for x
        using that unfolding queue_boosted by (rule own')
      show "x \<in> E \<and> rt_rq_of (rt_ses s x) = ?g \<and> rt_se_prio s x = i"
        if "x \<in> set (queue ((arr_add head e ?p (rt_rqs s ?g))\<lparr>rt_nr_boosted := b\<rparr>) i)" for x i
        using that unfolding queue_boosted by (rule ents)
    qed
    moreover have "y \<in> set (queue (rt_rqs (enqueue_rt_entity1 head e s) h) i) \<longleftrightarrow>
        y \<in> set (queue (rt_rqs s h) i) \<or> (h = ?g \<and> i = ?p \<and> y = e)" for y h i
      by (auto simp: b set_arr_add)
    then have "rt_queued (enqueue_rt_entity1 head e s) x \<longleftrightarrow> rt_queued s x \<or> x = e" for x
      unfolding rt_queued_def by blast
    ultimately show ?thesis using False by blast
  qed
  then show "rt_inv E (enqueue_rt_entity1 head e s)"
    "rt_queued (enqueue_rt_entity1 head e s) x \<longleftrightarrow> rt_queued s x \<or> (x = e \<and> \<not> enq_skipped s e)" by blast+
qed

lemma set_arr_del: "arr_ok r \<Longrightarrow> set (queue (arr_del e p r) i) = set (queue r i) - {e}"
  using arr_okD(4) [of r i] by (simp add: arr_del_def Let_def set_list_del_init)

lemma deq1_inv:
  assumes inv: "rt_inv E s" and e: "rt_queued s e"
    and owner: "\<And>x. rt_parent (rt_ses s e) = Some x \<Longrightarrow> \<not> rt_queued s x"
  shows "rt_inv E (dequeue_rt_entity1 e s)"
    "rt_queued (dequeue_rt_entity1 e s) x \<longleftrightarrow> rt_queued s x \<and> x \<noteq> e"
proof -
  let ?g = "rt_rq_of (rt_ses s e)" and ?p = "rt_se_prio s e"
  note ok = rt_invD(4) [OF inv, of ?g]
  note sd = set_arr_del [OF ok, of e ?p]
  obtain b where b: "rt_rqs (dequeue_rt_entity1 e s) =
      (rt_rqs s)(?g := (arr_del e ?p (rt_rqs s ?g))\<lparr>rt_nr_boosted := b\<rparr>)"
    using deq1_effect(1) by blast
  have own: "my_q (rt_ses s x) = Some ?g \<Longrightarrow> \<not> rt_queued s x" for x
    using owner [of x] hierD(2) [OF rt_invD(3) [OF inv]] by blast
  have pr: "?p \<in> rt_prios" using arr_ok_highest_least(2) [OF ok queued_at(1) [OF inv e]] .
  have ok': "arr_ok (arr_del e ?p (rt_rqs s ?g))"
    using arr_del_ok [OF ok pr queued_at(1) [OF inv e]] queued_at(2) [OF inv e] by blast
  have ents: "x \<in> E \<and> rt_rq_of (rt_ses s x) = ?g \<and> rt_se_prio s x = i"
    if "x \<in> set (queue (arr_del e ?p (rt_rqs s ?g)) i)" for x i
    using that rt_invD(6) [OF inv, of x ?g i] by (auto simp: sd)
  have own': "\<not> rt_queued s x \<and> (\<forall>i. x \<notin> set (queue (arr_del e ?p (rt_rqs s ?g)) i))"
    if "my_q (rt_ses s x) = Some ?g" for x
    using own [OF that] by (auto simp: sd rt_queued_def)
  show "rt_inv E (dequeue_rt_entity1 e s)"
  proof (rule rt_inv_upd [OF inv deq1_effect(2,3) b])
    show "arr_ok ((arr_del e ?p (rt_rqs s ?g))\<lparr>rt_nr_boosted := b\<rparr>)" unfolding arr_ok_boosted by (rule ok')
    show "\<not> rt_queued s x \<and> (\<forall>i. x \<notin> set (queue ((arr_del e ?p (rt_rqs s ?g))\<lparr>rt_nr_boosted := b\<rparr>) i))"
      if "my_q (rt_ses s x) = Some ?g" for x
      using that unfolding queue_boosted by (rule own')
    show "x \<in> E \<and> rt_rq_of (rt_ses s x) = ?g \<and> rt_se_prio s x = i"
      if "x \<in> set (queue ((arr_del e ?p (rt_rqs s ?g))\<lparr>rt_nr_boosted := b\<rparr>) i)" for x i
      using that unfolding queue_boosted by (rule ents)
  qed
  have mem: "y \<in> set (queue (rt_rqs (dequeue_rt_entity1 e s) h) i) \<longleftrightarrow> y \<in> set (queue (rt_rqs s h) i) \<and> (h = ?g \<longrightarrow> y \<noteq> e)" for y h i
    by (simp add: b sd)
  have "h = ?g" if "e \<in> set (queue (rt_rqs s h) i)" for h i using rt_invD(6) [OF inv that] by simp
  then show "rt_queued (dequeue_rt_entity1 e s) x \<longleftrightarrow> rt_queued s x \<and> x \<noteq> e"
    unfolding rt_queued_def mem by (cases "x = e") blast+
qed

section \<open>The chain of entities\<close>

lemma se_below_trans: "\<lbrakk>se_below a b; se_below b c\<rbrakk> \<Longrightarrow> se_below a c"
  by (cases a; cases b; cases c) auto

lemma se_chain_hier:
  "hier ses \<Longrightarrow> se_chain ses e = e # (case rt_parent (ses e) of None \<Rightarrow> [] | Some p \<Rightarrow> se_chain ses p)"
  by (subst se_chain.simps) (auto split: option.split dest: hierD(1))

lemma in_chain_below: "x \<in> set (se_chain ses e) \<Longrightarrow> x = e \<or> se_below e x"
proof (induction ses e rule: se_chain.induct)
  case (1 ses e)
  show ?case
  proof (cases "rt_parent (ses e)")
    case None
    then show ?thesis using "1.prems" by (subst (asm) se_chain.simps) simp
  next
    case (Some p)
    then show ?thesis using "1.prems" "1.IH" [OF Some]
      by (subst (asm) se_chain.simps) (auto split: if_splits dest: se_below_trans)
  qed
qed

lemma chain_fresh: "se_below e p \<Longrightarrow> e \<notin> set (se_chain ses p)"
  using in_chain_below [of e ses p] se_below_trans [of e p e] by auto

lemma chain_entities:
  assumes "rt_inv E s" "e \<in> E"
  shows "x \<in> set (se_chain (rt_ses s) e) \<Longrightarrow> x \<in> E"
  using assms(2)
proof (induction "rt_ses s" e rule: se_chain.induct)
  case (1 e)
  then show ?case
    using rt_invD(5) [OF assms(1)] hierD(1) [OF rt_invD(3) [OF assms(1)]]
    by (cases "rt_parent (rt_ses s e)") (auto simp: se_chain_hier [OF rt_invD(3) [OF assms(1)], of e])
qed

lemma dequeue_rt_stack_inv:
  assumes "rt_inv E s"
  shows "rt_inv E (dequeue_rt_stack e s) \<and> rt_ses (dequeue_rt_stack e s) = rt_ses s \<and>
    tasks (dequeue_rt_stack e s) = tasks s \<and>
    (\<forall>x. rt_queued (dequeue_rt_stack e s) x \<longleftrightarrow> rt_queued s x \<and> x \<notin> set (se_chain (rt_ses s) e))"
proof (induction "rt_ses s" e rule: se_chain.induct)
  case (1 e)
  let ?step = "\<lambda>x st. if on_rt_rq st x then dequeue_rt_entity1 x st else st"
  note ch = se_chain_hier [OF rt_invD(3) [OF assms], of e]
  obtain t where t: "dequeue_rt_stack e s = ?step e t" "rt_inv E t" "rt_ses t = rt_ses s" "tasks t = tasks s"
    "\<And>x. rt_queued t x \<longleftrightarrow> rt_queued s x \<and> x \<notin> set (tl (se_chain (rt_ses s) e))"
  proof (cases "rt_parent (rt_ses s e)")
    case None
    then show ?thesis using assms that [of s] by (simp add: dequeue_rt_stack_def ch)
  next
    case (Some p)
    have "dequeue_rt_stack e s = ?step e (dequeue_rt_stack p s)"
      using Some by (simp add: dequeue_rt_stack_def ch)
    with "1.hyps" [OF Some hierD(1) [OF rt_invD(3) [OF assms] Some]] show ?thesis
      using Some by (intro that [of "dequeue_rt_stack p s"]) (simp_all add: ch)
  qed
  have own: "\<not> rt_queued t x" if "rt_parent (rt_ses t e) = Some x" for x
    using that t(3,5) se_chain_hier [OF rt_invD(3) [OF assms], of x] by (simp add: ch)
  have e: "x \<notin> set (se_chain (rt_ses s) e) \<longleftrightarrow> x \<noteq> e \<and> x \<notin> set (tl (se_chain (rt_ses s) e))" for x
    by (simp add: ch)
  show ?case
  proof (cases "rt_queued t e")
    case True
    then have d: "dequeue_rt_stack e s = dequeue_rt_entity1 e t" using t(1) on_rt_rq_iff [OF t(2)] by simp
    have q: "rt_queued (dequeue_rt_entity1 e t) x \<longleftrightarrow> rt_queued s x \<and> x \<notin> set (se_chain (rt_ses s) e)" for x
      using deq1_inv(2) [OF t(2) True own, of x] t(5) [of x] e [of x] by blast
    show ?thesis unfolding d q deq1_effect(2,3) t(3,4) using deq1_inv(1) [OF t(2) True own] by blast
  next
    case False
    then have d: "dequeue_rt_stack e s = t" using t(1) on_rt_rq_iff [OF t(2)] by simp
    show ?thesis unfolding d using t(2-5) False e by blast
  qed
qed

text \<open>Rebuilding the chain; with \<open>gr\<close> only the entities of groups.\<close>

definition rebuild :: "bool \<Rightarrow> bool \<Rightarrow> rt_se \<Rightarrow> sched_state \<Rightarrow> sched_state" where
  "rebuild gr head x st = (if gr \<and> my_q (rt_ses st x) = None then st else enqueue_rt_entity1 head x st)"

lemma enqueue_as_rebuild:
  "enqueue_rt_entity head e s = fold (rebuild False head) (se_chain (rt_ses s) e) (dequeue_rt_stack e s)"
  unfolding enqueue_rt_entity_def rebuild_def by simp

lemma dequeue_as_rebuild:
  "dequeue_rt_entity e s = fold (rebuild True False) (se_chain (rt_ses s) e) (dequeue_rt_stack e s)"
proof -
  have "(case my_q (rt_ses st x) of None \<Rightarrow> st
       | Some h \<Rightarrow> if rt_nr_running (rt_rqs st h) \<noteq> 0 then enqueue_rt_entity1 False x st else st) =
      rebuild True False x st" for x st
    using enq1_skipped [of st x False] by (auto simp: rebuild_def enq_skipped_def split: option.splits)
  then show ?thesis unfolding dequeue_rt_entity_def by presburger
qed

lemma group_prio_range:
  assumes "rt_inv E s" "my_q (rt_ses s e) \<noteq> None" "\<not> enq_skipped s e"
  shows "rt_se_prio s e \<in> rt_prios"
proof -
  obtain h where h: "my_q (rt_ses s e) = Some h" using assms(2) by auto
  then have "rt_nr_running (rt_rqs s h) \<noteq> 0" using assms(3) by (auto simp: enq_skipped_def)
  from arr_ok_nonempty(1) [OF rt_invD(4) [OF assms(1)] this] h show ?thesis by (simp add: rt_se_prio_def)
qed

lemma rebuild_step:
  assumes inv: "rt_inv E s" and e: "e \<in> E" "\<not> rt_queued s e"
    and owner: "\<And>x. rt_parent (rt_ses s e) = Some x \<Longrightarrow> \<not> rt_queued s x"
    and p: "my_q (rt_ses s e) = None \<Longrightarrow> \<not> gr \<Longrightarrow> rt_se_prio s e \<in> rt_prios"
  shows "rt_inv E (rebuild gr head e s) \<and> rt_ses (rebuild gr head e s) = rt_ses s \<and>
    tasks (rebuild gr head e s) = tasks s \<and>
    (\<forall>x. x \<noteq> e \<longrightarrow> rt_queued (rebuild gr head e s) x = rt_queued s x) \<and>
    (rt_queued (rebuild gr head e s) e \<longleftrightarrow> \<not> (gr \<and> my_q (rt_ses s e) = None) \<and> \<not> enq_skipped s e)"
proof (cases "gr \<and> my_q (rt_ses s e) = None")
  case True
  then show ?thesis using inv e(2) by (simp add: rebuild_def)
next
  case False
  then have r: "rebuild gr head e s = enqueue_rt_entity1 head e s" by (auto simp: rebuild_def)
  have "rt_se_prio s e \<in> rt_prios" if "\<not> enq_skipped s e"
    using p False group_prio_range [OF inv _ that] by blast
  note i = enq1_inv [OF inv e owner this]
  have "rt_ses (enqueue_rt_entity1 head e s) = rt_ses s \<and> tasks (enqueue_rt_entity1 head e s) = tasks s"
    using enq1_effect(2,3) enq1_skipped by (cases "enq_skipped s e") auto
  with i e(2) False show ?thesis unfolding r by blast
qed

lemma rebuild_chain_inv:
  "\<lbrakk>rt_inv E s; e \<in> E; \<forall>x \<in> set (se_chain (rt_ses s) e). \<not> rt_queued s x;
    my_q (rt_ses s e) = None \<longrightarrow> \<not> gr \<longrightarrow> rt_se_prio s e \<in> rt_prios\<rbrakk> \<Longrightarrow>
   let s' = fold (rebuild gr head) (se_chain (rt_ses s) e) s in
     rt_inv E s' \<and> rt_ses s' = rt_ses s \<and> tasks s' = tasks s \<and>
     (\<forall>x. x \<notin> set (se_chain (rt_ses s) e) \<longrightarrow> rt_queued s' x = rt_queued s x) \<and>
     (rt_queued s' e \<longleftrightarrow> \<not> (gr \<and> my_q (rt_ses s e) = None) \<and> \<not> enq_skipped s e)"
proof (induction "rt_ses s" e arbitrary: s rule: se_chain.induct)
  case (1 e)
  note inv = "1.prems"(1) and hi = rt_invD(3) [OF "1.prems"(1)]
  note ch = se_chain_hier [OF hi, of e]
  let ?t = "rebuild gr head e s"
  have own: "\<not> rt_queued s x" if "rt_parent (rt_ses s e) = Some x" for x
    using that "1.prems"(3) se_chain_hier [OF hi, of x] by (simp add: ch)
  have "\<not> rt_queued s e" using "1.prems"(3) by (simp add: ch)
  note st = rebuild_step [OF inv "1.prems"(2) this own, of gr head]
  have t: "rt_inv E ?t" "rt_ses ?t = rt_ses s" "tasks ?t = tasks s"
    "\<And>x. x \<noteq> e \<Longrightarrow> rt_queued ?t x = rt_queued s x"
    "rt_queued ?t e \<longleftrightarrow> \<not> (gr \<and> my_q (rt_ses s e) = None) \<and> \<not> enq_skipped s e"
    using st "1.prems"(4) by blast+
  show ?case
  proof (cases "rt_parent (rt_ses s e)")
    case None
    then show ?thesis using t by (simp add: ch)
  next
    case (Some p)
    note below = hierD(1) [OF hi Some]
    have fresh: "e \<notin> set (se_chain (rt_ses s) p)" by (rule chain_fresh [OF below])
    have imp: "my_q (rt_ses ?t p) = None \<longrightarrow> \<not> gr \<longrightarrow> rt_se_prio ?t p \<in> rt_prios" using hierD(2) [OF hi, of e p] Some t(2) by simp
    have pE: "p \<in> E" using rt_invD(5) [OF inv "1.prems"(2) Some] .
    have nq: "\<forall>x \<in> set (se_chain (rt_ses ?t) p). \<not> rt_queued ?t x"
    proof
      fix x
      assume "x \<in> set (se_chain (rt_ses ?t) p)"
      then have x: "x \<in> set (se_chain (rt_ses s) p)" "x \<noteq> e" using fresh t(2) by auto
      then show "\<not> rt_queued ?t x" using t(4) [OF x(2)] "1.prems"(3) Some by (simp add: ch)
    qed
    have IH: "let s' = fold (rebuild gr head) (se_chain (rt_ses ?t) p) ?t in
        rt_inv E s' \<and> rt_ses s' = rt_ses ?t \<and> tasks s' = tasks ?t \<and>
        (\<forall>x. x \<notin> set (se_chain (rt_ses ?t) p) \<longrightarrow> rt_queued s' x = rt_queued ?t x) \<and>
        (rt_queued s' p \<longleftrightarrow> \<not> (gr \<and> my_q (rt_ses ?t p) = None) \<and> \<not> enq_skipped ?t p)"
      by (rule "1.hyps" [OF Some below t(2) [symmetric] t(1) pE nq imp])
    have "fold (rebuild gr head) (se_chain (rt_ses s) e) s = fold (rebuild gr head) (se_chain (rt_ses ?t) p) ?t"
      using Some t(2) by (simp add: ch)
    then show ?thesis using IH t fresh Some by (simp add: ch Let_def)
  qed
qed

section \<open>Enqueueing and dequeueing keep the invariant\<close>

lemma enqueue_rt_entity_inv:
  assumes inv: "rt_inv E s" and e: "e \<in> E"
    and p: "my_q (rt_ses s e) = None \<Longrightarrow> prio (tasks s (rt_task_of e)) \<in> rt_prios"
  shows "rt_inv E (enqueue_rt_entity head e s)" "rt_ses (enqueue_rt_entity head e s) = rt_ses s"
    "tasks (enqueue_rt_entity head e s) = tasks s"
    "x \<notin> set (se_chain (rt_ses s) e) \<Longrightarrow> rt_queued (enqueue_rt_entity head e s) x = rt_queued s x"
    "my_q (rt_ses s e) = None \<Longrightarrow> rt_queued (enqueue_rt_entity head e s) e"
proof -
  let ?t = "dequeue_rt_stack e s"
  have t: "rt_inv E ?t" "rt_ses ?t = rt_ses s" "tasks ?t = tasks s"
    "\<And>x. rt_queued ?t x \<longleftrightarrow> rt_queued s x \<and> x \<notin> set (se_chain (rt_ses s) e)"
    using dequeue_rt_stack_inv [OF inv, of e] by blast+
  have nq: "\<forall>x \<in> set (se_chain (rt_ses ?t) e). \<not> rt_queued ?t x" using t(2,4) by simp
  have pr: "my_q (rt_ses ?t e) = None \<longrightarrow> \<not> False \<longrightarrow> rt_se_prio ?t e \<in> rt_prios"
    using p t(2,3) by (simp add: rt_se_prio_def)
  note r = rebuild_chain_inv [OF t(1) e nq pr, of head, unfolded Let_def t(2), folded enqueue_as_rebuild]
  show "rt_inv E (enqueue_rt_entity head e s)" "rt_ses (enqueue_rt_entity head e s) = rt_ses s"
    "tasks (enqueue_rt_entity head e s) = tasks s"
    using r t(2,3) by simp_all
  show "rt_queued (enqueue_rt_entity head e s) x = rt_queued s x" if "x \<notin> set (se_chain (rt_ses s) e)"
    using r that t(4) by simp
  show "rt_queued (enqueue_rt_entity head e s) e" if "my_q (rt_ses s e) = None"
    using r that t(2) by (simp add: enq_skipped_def)
qed

lemma dequeue_rt_entity_inv:
  assumes inv: "rt_inv E s" and e: "e \<in> E"
  shows "rt_inv E (dequeue_rt_entity e s)" "rt_ses (dequeue_rt_entity e s) = rt_ses s"
    "tasks (dequeue_rt_entity e s) = tasks s"
    "x \<notin> set (se_chain (rt_ses s) e) \<Longrightarrow> rt_queued (dequeue_rt_entity e s) x = rt_queued s x"
    "my_q (rt_ses s e) = None \<Longrightarrow> \<not> rt_queued (dequeue_rt_entity e s) e"
proof -
  let ?t = "dequeue_rt_stack e s"
  have t: "rt_inv E ?t" "rt_ses ?t = rt_ses s" "tasks ?t = tasks s"
    "\<And>x. rt_queued ?t x \<longleftrightarrow> rt_queued s x \<and> x \<notin> set (se_chain (rt_ses s) e)"
    using dequeue_rt_stack_inv [OF inv, of e] by blast+
  have nq: "\<forall>x \<in> set (se_chain (rt_ses ?t) e). \<not> rt_queued ?t x" using t(2,4) by simp
  have pr: "my_q (rt_ses ?t e) = None \<longrightarrow> \<not> True \<longrightarrow> rt_se_prio ?t e \<in> rt_prios" by simp
  note r = rebuild_chain_inv [OF t(1) e nq pr, of False, unfolded Let_def t(2), folded dequeue_as_rebuild]
  show "rt_inv E (dequeue_rt_entity e s)" "rt_ses (dequeue_rt_entity e s) = rt_ses s"
    "tasks (dequeue_rt_entity e s) = tasks s"
    using r t(2,3) by simp_all
  show "rt_queued (dequeue_rt_entity e s) x = rt_queued s x" if "x \<notin> set (se_chain (rt_ses s) e)"
    using r that t(4) by simp
  show "\<not> rt_queued (dequeue_rt_entity e s) e" if "my_q (rt_ses s e) = None"
    using r that t(2) by simp
qed

text \<open>The invariant depends on the links, the priorities and the arrays only.\<close>

definition rt_same :: "sched_state \<Rightarrow> sched_state \<Rightarrow> bool" where
  "rt_same s s' \<longleftrightarrow>
     (\<forall>e. rt_parent (rt_ses s' e) = rt_parent (rt_ses s e) \<and> rt_rq_of (rt_ses s' e) = rt_rq_of (rt_ses s e) \<and>
        my_q (rt_ses s' e) = my_q (rt_ses s e)) \<and>
     (\<forall>t. prio (tasks s' t) = prio (tasks s t)) \<and>
     (\<forall>g. queue (rt_rqs s' g) = queue (rt_rqs s g) \<and> bitmap (rt_rqs s' g) = bitmap (rt_rqs s g) \<and>
        rt_nr_running (rt_rqs s' g) = rt_nr_running (rt_rqs s g) \<and>
        highest_prio_curr (rt_rqs s' g) = highest_prio_curr (rt_rqs s g))"

lemma rt_same_inv:
  assumes "rt_same s s'" "rt_inv E s"
  shows "rt_inv E s'"
proof -
  have l: "rt_parent (rt_ses s' e) = rt_parent (rt_ses s e)" "rt_rq_of (rt_ses s' e) = rt_rq_of (rt_ses s e)"
    "my_q (rt_ses s' e) = my_q (rt_ses s e)" for e using assms(1) by (simp_all add: rt_same_def)
  have q: "queue (rt_rqs s' g) = queue (rt_rqs s g)" for g using assms(1) by (simp add: rt_same_def)
  have a: "arr_ok (rt_rqs s' g) = arr_ok (rt_rqs s g)" for g
    using assms(1) by (intro arr_ok_cong) (simp_all add: rt_same_def)
  have p: "rt_se_prio s' e = rt_se_prio s e" for e
    using assms(1) unfolding rt_se_prio_def l rt_same_def by (simp split: option.split)
  show ?thesis using assms(2) unfolding rt_inv_def hier_def l q a p .
qed

lemma rt_same_refl [simp]: "rt_same s s"
  by (simp add: rt_same_def)

lemma rt_same_trans: "\<lbrakk>rt_same s t; rt_same t u\<rbrakk> \<Longrightarrow> rt_same s u"
  by (simp add: rt_same_def)

lemma rt_same_queued: "rt_same s s' \<Longrightarrow> rt_queued s' x = rt_queued s x"
  by (simp add: rt_same_def rt_queued_def)

lemma rt_same_ops [simp]:
  "(\<And>t. prio (f t) = prio t) \<Longrightarrow> rt_same s (upd_task p f s)"
  "rt_same s (upd_rq r s)" "rt_same s (emit ev s)" "rt_same s (resched_task p s)"
  "rt_same s (set_tsk_need_resched p s)" "rt_same s (inc_nr_running s)" "rt_same s (dec_nr_running s)"
  "rt_same s (cpuacct_charge p d s)" "rt_same s (start_rt_bandwidth g s)"
  "(\<And>x. rt_parent (h x) = rt_parent x \<and> rt_rq_of (h x) = rt_rq_of x \<and> my_q (h x) = my_q x) \<Longrightarrow> rt_same s (upd_rt_se e h s)"
  "(\<And>r. queue (u r) = queue r \<and> bitmap (u r) = bitmap r \<and> rt_nr_running (u r) = rt_nr_running r \<and>
     highest_prio_curr (u r) = highest_prio_curr r) \<Longrightarrow> rt_same s (upd_rt_rq g u s)"
  by (simp_all add: rt_same_def upd_defs resched_task_def set_tsk_need_resched_def inc_nr_running_def
      dec_nr_running_def)

lemma watchdog_rt_same [simp]: "rt_same s (watchdog_rt env p s)"
  by (simp add: watchdog_rt_def rt_same_def upd_defs Let_def)

section \<open>Bandwidth and ticks\<close>

text \<open>What an operation on the arrays leaves alone.\<close>

definition rt_keeps :: "rt_se set \<Rightarrow> sched_state \<Rightarrow> sched_state \<Rightarrow> bool" where
  "rt_keeps E s s' \<longleftrightarrow> rt_inv E s' \<and>
     (\<forall>e. rt_parent (rt_ses s' e) = rt_parent (rt_ses s e) \<and> my_q (rt_ses s' e) = my_q (rt_ses s e)) \<and>
     (\<forall>t. prio (tasks s' t) = prio (tasks s t))"

lemma rt_keeps_same: "\<lbrakk>rt_inv E s; rt_same s s'\<rbrakk> \<Longrightarrow> rt_keeps E s s'"
  by (simp add: rt_keeps_def rt_same_inv) (simp add: rt_same_def)

lemma rt_keeps_trans: "\<lbrakk>rt_keeps E s t; rt_keeps E t u\<rbrakk> \<Longrightarrow> rt_keeps E s u"
  by (simp add: rt_keeps_def)

lemma rt_keeps_inv: "rt_keeps E s s' \<Longrightarrow> rt_inv E s'"
  by (simp add: rt_keeps_def)

lemma rt_keeps_fold:
  assumes "\<And>x st. \<lbrakk>x \<in> set xs; rt_keeps E s st\<rbrakk> \<Longrightarrow> rt_keeps E st (f x st)" "rt_inv E s"
  shows "rt_keeps E s (fold f xs s)"
proof -
  have "rt_keeps E s (fold f xs st)" if "rt_keeps E s st" for st
    using that assms(1)
  proof (induction xs arbitrary: st)
    case (Cons x xs)
    then show ?case using rt_keeps_trans by simp
  qed simp
  from this [OF rt_keeps_same [OF assms(2) rt_same_refl]] show ?thesis .
qed

lemma sched_rt_rq_dequeue_keeps: "rt_inv E s \<Longrightarrow> rt_keeps E s (sched_rt_rq_dequeue g s)"
proof -
  assume inv: "rt_inv E s"
  have "rt_keeps E s (dequeue_rt_entity x s)" if "on_rt_rq s x" for x
  proof -
    have "x \<in> E" using that on_rt_rq_iff [OF inv] rt_invD(6) [OF inv] by (auto simp: rt_queued_def)
    from dequeue_rt_entity_inv [OF inv this] show ?thesis by (simp add: rt_keeps_def)
  qed
  then show ?thesis
    using rt_keeps_same [OF inv rt_same_refl] by (auto simp: sched_rt_rq_dequeue_def split: option.split)
qed

lemma runtime_exceeded_keeps: "rt_inv E s \<Longrightarrow> rt_keeps E s (snd (sched_rt_runtime_exceeded g s))"
proof -
  assume inv: "rt_inv E s"
  have k: "rt_keeps E s (upd_rt_rq g u s) \<and> rt_keeps E s (sched_rt_rq_dequeue g (upd_rt_rq g u s))"
    if "\<And>r. queue (u r) = queue r \<and> bitmap (u r) = bitmap r \<and> rt_nr_running (u r) = rt_nr_running r \<and>
      highest_prio_curr (u r) = highest_prio_curr r" for u
  proof -
    have "rt_keeps E s (upd_rt_rq g u s)" using that by (intro rt_keeps_same [OF inv]) simp
    then show ?thesis using sched_rt_rq_dequeue_keeps rt_keeps_inv rt_keeps_trans by blast
  qed
  show ?thesis
    using rt_keeps_same [OF inv rt_same_refl] by (auto simp: sched_rt_runtime_exceeded_def Let_def k)
qed

lemma charge_keeps: "rt_inv E s \<Longrightarrow> rt_keeps E s (charge_rt_entity d e s)"
proof -
  assume inv: "rt_inv E s"
  let ?g = "rt_rq_of (rt_ses s e)"
  let ?s1 = "upd_rt_rq ?g (\<lambda>r. r\<lparr>rt_time := rt_time r + d\<rparr>) s"
  obtain ex s2 where x: "sched_rt_runtime_exceeded ?g ?s1 = (ex, s2)" by fastforce
  have s1: "rt_keeps E s ?s1" by (intro rt_keeps_same [OF inv]) simp
  then have "rt_keeps E ?s1 s2" using runtime_exceeded_keeps [OF rt_keeps_inv [OF s1], of ?g] x by simp
  then have s2: "rt_keeps E s s2" using s1 rt_keeps_trans by blast
  then have "rt_keeps E s (resched_task (curr (rq s2)) s2)"
    using rt_keeps_trans rt_keeps_same [OF rt_keeps_inv [OF s2] rt_same_ops(4)] by blast
  with s2 show ?thesis
    using rt_keeps_same [OF inv rt_same_refl] by (simp add: charge_rt_entity_def Let_def x)
qed

lemma account_same:
  "rt_same s (cpuacct_charge p d (upd_task p (\<lambda>t. t\<lparr>se := f t\<rparr>) (emit ev (upd_task p (\<lambda>t. t\<lparr>se := h t\<rparr>) s))))"
  by (simp add: rt_same_def upd_defs)

lemma update_curr_rt_keeps: "rt_inv E s \<Longrightarrow> rt_keeps E s (update_curr_rt s)"
proof -
  assume inv: "rt_inv E s"
  let ?p = "curr (rq s)"
  let ?delta = "clock_task (rq s) - exec_start (se (tasks s ?p))"
  let ?d = "if sint ?delta < 0 then 0 else ?delta"
  let ?s4 = "cpuacct_charge ?p ?d (upd_task ?p (\<lambda>t. t\<lparr>se := (se t)\<lparr>exec_start := clock_task (rq s)\<rparr>\<rparr>)
      (emit (Account_group_exec_runtime ?p ?d) (upd_task ?p (\<lambda>t. t\<lparr>se := (se t)
        \<lparr>exec_max := max (exec_max (se t)) ?d, sum_exec_runtime := sum_exec_runtime (se t) + ?d\<rparr>\<rparr>) s)))"
  have "rt_same s ?s4" by (rule account_same)
  then have s4: "rt_keeps E s ?s4" by (rule rt_keeps_same [OF inv])
  have u: "update_curr_rt s = (if sched_class (tasks s ?p) \<noteq> rt_sched_class then s
      else if \<not> rt_bandwidth_enabled ?s4 then ?s4
      else fold (charge_rt_entity ?d) (se_chain (rt_ses ?s4) (TaskSE ?p)) ?s4)"
    unfolding update_curr_rt_def Let_def ..
  have "rt_keeps E ?s4 (fold (charge_rt_entity ?d) (se_chain (rt_ses ?s4) (TaskSE ?p)) ?s4)"
    using charge_keeps rt_keeps_inv by (intro rt_keeps_fold) (blast intro: rt_keeps_inv [OF s4])+
  then have f: "rt_keeps E s (fold (charge_rt_entity ?d) (se_chain (rt_ses ?s4) (TaskSE ?p)) ?s4)"
    by (rule rt_keeps_trans [OF s4])
  show ?thesis unfolding u using rt_keeps_same [OF inv rt_same_refl] s4 f by presburger
qed

lemma requeue_rt_entity_keeps: "rt_inv E s \<Longrightarrow> rt_keeps E s (requeue_rt_entity head e s)"
proof (cases "rt_queued s e")
  case True
  assume inv: "rt_inv E s"
  let ?g = "rt_rq_of (rt_ses s e)" and ?p = "rt_se_prio s e"
  let ?mv = "if head then list_move e else list_move_tail e"
  let ?q = "?mv (queue (rt_rqs s ?g) ?p)"
  let ?s = "requeue_rt_entity head e s"
  have r: "?s = upd_queue ?g ?p ?mv s" using True on_rt_rq_iff [OF inv] by (simp add: requeue_rt_entity_def)
  note at = queued_at(1) [OF inv True] and ok = rt_invD(4) [OF inv, of ?g]
  have p: "?p \<in> rt_prios" using arr_ok_highest_least(2) [OF ok at] .
  have q: "set ?q = set (queue (rt_rqs s ?g) ?p)" "distinct ?q" "length ?q = length (queue (rt_rqs s ?g) ?p)" "?q \<noteq> []"
    using at arr_okD(4) [OF ok, of ?p] by simp_all
  have "arr_ok ((rt_rqs s ?g)\<lparr>queue := (queue (rt_rqs s ?g))(?p := ?q)\<rparr>)"
    using ok nr_queued_upd [OF p, of "rt_rqs s ?g" ?q] q(2-4) arr_okD(1) [OF ok p] at p
    unfolding arr_ok_def by auto
  then have arr: "arr_ok (rt_rqs ?s g)" for g using rt_invD(4) [OF inv] by (simp add: r upd_queue_def)
  have sets: "set (queue (rt_rqs ?s g) i) = set (queue (rt_rqs s g) i)" for g i
    using q(1) by (simp add: r upd_queue_def)
  have "rt_inv E ?s" using inv arr sets by (simp add: rt_inv_def r)
  then show ?thesis by (simp add: rt_keeps_def r)
next
  case False
  assume inv: "rt_inv E s"
  then show ?thesis using False on_rt_rq_iff [OF inv] rt_keeps_same [OF inv rt_same_refl]
    by (simp add: requeue_rt_entity_def)
qed

lemma requeue_task_rt_keeps: "rt_inv E s \<Longrightarrow> rt_keeps E s (requeue_task_rt head p s)"
  unfolding requeue_task_rt_def
  by (rule rt_keeps_fold) (blast intro: requeue_rt_entity_keeps rt_keeps_inv)+

section \<open>The operations of the class\<close>

lemma enqueue_task_rt_keeps:
  assumes inv: "rt_inv E s" and p: "TaskSE p \<in> E" "prio (tasks s p) \<in> rt_prios"
  shows "rt_keeps E s (enqueue_task_rt p flags s)" "rt_queued (enqueue_task_rt p flags s) (TaskSE p)"
proof -
  let ?s1 = "if flag_set flags ENQUEUE_WAKEUP then upd_rt_se (TaskSE p) (\<lambda>x. x\<lparr>rt_timeout := 0\<rparr>) s else s"
  let ?s2 = "enqueue_rt_entity (flag_set flags ENQUEUE_HEAD) (TaskSE p) ?s1"
  have s1: "rt_keeps E s ?s1" by (rule rt_keeps_same [OF inv]) simp
  have pr: "prio (tasks ?s1 (rt_task_of (TaskSE p))) \<in> rt_prios"
    using p(2) s1 by (simp add: rt_keeps_def rt_task_of_def)
  note e = enqueue_rt_entity_inv [OF rt_keeps_inv [OF s1] p(1) pr, where head = "flag_set flags ENQUEUE_HEAD"]
  have q: "my_q (rt_ses ?s1 (TaskSE p)) = None" using hierD(3) [OF rt_invD(3) [OF rt_keeps_inv [OF s1]]] .
  have eq: "enqueue_task_rt p flags s = inc_nr_running ?s2" by (simp add: enqueue_task_rt_def Let_def)
  have "rt_keeps E ?s1 ?s2" using e(1-3) by (simp add: rt_keeps_def split del: if_split)
  then have "rt_keeps E s ?s2" by (rule rt_keeps_trans [OF s1])
  then show "rt_keeps E s (enqueue_task_rt p flags s)"
    unfolding eq using rt_keeps_trans rt_keeps_same [OF rt_keeps_inv rt_same_ops(6)] by blast
  show "rt_queued (enqueue_task_rt p flags s) (TaskSE p)"
    unfolding eq rt_same_queued [OF rt_same_ops(6)] using e(5) q by blast
qed

lemma dequeue_task_rt_keeps:
  assumes inv: "rt_inv E s" and p: "TaskSE p \<in> E"
  shows "rt_keeps E s (dequeue_task_rt p flags s)" "\<not> rt_queued (dequeue_task_rt p flags s) (TaskSE p)"
proof -
  let ?s1 = "update_curr_rt s"
  let ?s2 = "dequeue_rt_entity (TaskSE p) ?s1"
  note s1 = update_curr_rt_keeps [OF inv]
  note e = dequeue_rt_entity_inv [OF rt_keeps_inv [OF s1] p]
  have "rt_keeps E ?s1 ?s2" using e(1-3) by (simp add: rt_keeps_def)
  then have "rt_keeps E s ?s2" by (rule rt_keeps_trans [OF s1])
  then show "rt_keeps E s (dequeue_task_rt p flags s)"
    unfolding dequeue_task_rt_def using rt_keeps_trans rt_keeps_same [OF rt_keeps_inv rt_same_ops(7)] by blast
  show "\<not> rt_queued (dequeue_task_rt p flags s) (TaskSE p)"
    unfolding dequeue_task_rt_def rt_same_queued [OF rt_same_ops(7)]
    by (rule e(5) [OF hierD(3) [OF rt_invD(3) [OF rt_keeps_inv [OF s1]]]])
qed

lemma task_tick_rt_keeps: "rt_inv E s \<Longrightarrow> rt_keeps E s (task_tick_rt env p s)"
proof -
  assume inv: "rt_inv E s"
  let ?s1 = "watchdog_rt env p (update_curr_rt s)"
  have s1: "rt_keeps E s ?s1"
    using update_curr_rt_keeps [OF inv] rt_keeps_trans rt_keeps_same [OF rt_keeps_inv watchdog_rt_same] by blast
  have same: "rt_keeps E s st" if "rt_same ?s1 st" for st
    using s1 rt_keeps_trans rt_keeps_same [OF rt_keeps_inv [OF s1] that] by blast
  have req: "rt_keeps E s (set_tsk_need_resched p (requeue_task_rt False p st))" if "rt_same ?s1 st" for st
    using requeue_task_rt_keeps [OF rt_keeps_inv [OF same [OF that]]] same [OF that] rt_keeps_trans
      rt_keeps_same [OF rt_keeps_inv rt_same_ops(5)] by meson
  have "rt_same ?s1 (emit e ?s1)" "rt_same ?s1 (upd_rt_se (TaskSE p) (\<lambda>x. x\<lparr>rt_time_slice := n x\<rparr>) ?s1)"
    "rt_same ?s1 (upd_rt_se (TaskSE p) (\<lambda>x. x\<lparr>rt_time_slice := n x\<rparr>) (emit e ?s1))"
    "rt_same ?s1 (upd_rt_se (TaskSE p) (\<lambda>x. x\<lparr>rt_time_slice := m x\<rparr>) (upd_rt_se (TaskSE p) (\<lambda>x. x\<lparr>rt_time_slice := n x\<rparr>) ?s1))"
    "rt_same ?s1 (upd_rt_se (TaskSE p) (\<lambda>x. x\<lparr>rt_time_slice := m x\<rparr>) (upd_rt_se (TaskSE p) (\<lambda>x. x\<lparr>rt_time_slice := n x\<rparr>) (emit e ?s1)))"
    for e n m
    by (simp_all add: rt_same_def upd_defs)
  then show ?thesis unfolding task_tick_rt_def Let_def using s1 same req by (simp only: split: if_split) blast
qed

lemma sched_rt_rq_enqueue_keeps:
  assumes inv: "rt_inv E s"
    and grp: "\<And>t x. \<lbrakk>rt_rq_tg (rt_rqs s g) = Some t; tg_rt_se (tgs s t) = Some x\<rbrakk> \<Longrightarrow> x \<in> E \<and> my_q (rt_ses s x) \<noteq> None"
  shows "rt_keeps E s (sched_rt_rq_enqueue g s)"
proof -
  have e: "rt_keeps E s (enqueue_rt_entity False x s)"
    if "rt_rq_tg (rt_rqs s g) = Some t" "tg_rt_se (tgs s t) = Some x" for t x
    using enqueue_rt_entity_inv(1-3) [OF inv, of x False] grp [OF that] by (simp add: rt_keeps_def)
  have r: "rt_keeps E s (resched_task c st)" if "rt_keeps E s st" for st c
    using that rt_keeps_trans rt_keeps_same [OF rt_keeps_inv [OF that] rt_same_ops(4)] by blast
  show ?thesis
    using rt_keeps_same [OF inv rt_same_refl] e
    by (auto simp: sched_rt_rq_enqueue_def Let_def intro!: r split: option.split)
qed

lemma period_timer_keeps:
  assumes inv: "rt_inv E s"
    and grp: "\<And>t x. \<lbrakk>rt_rq_tg (rt_rqs s g) = Some t; tg_rt_se (tgs s t) = Some x\<rbrakk> \<Longrightarrow> x \<in> E \<and> my_q (rt_ses s x) \<noteq> None"
  shows "rt_keeps E s (snd (do_sched_rt_period_timer g n s))"
proof -
  have k: "rt_keeps E s st \<and> rt_keeps E s (sched_rt_rq_enqueue g st)"
    if "rt_same s st" "rt_rq_tg (rt_rqs st g) = rt_rq_tg (rt_rqs s g)" "tgs st = tgs s" for st
  proof -
    note st = rt_keeps_same [OF inv that(1)] and eqs = that(2,3)
    have "x \<in> E \<and> my_q (rt_ses st x) \<noteq> None" if "rt_rq_tg (rt_rqs st g) = Some t" "tg_rt_se (tgs st t) = Some x" for t x
      using grp [of t x] that eqs st by (simp add: rt_keeps_def)
    then have "rt_keeps E st (sched_rt_rq_enqueue g st)"
      by (rule sched_rt_rq_enqueue_keeps [OF rt_keeps_inv [OF st]])
    with st show ?thesis using rt_keeps_trans by blast
  qed
  have "rt_same s (upd_rt_rq g (\<lambda>x. x\<lparr>rt_time := a\<rparr>) s)"
    "rt_same s (upd_rt_rq g (\<lambda>x. x\<lparr>rt_throttled := False\<rparr>) (upd_rt_rq g (\<lambda>x. x\<lparr>rt_time := a\<rparr>) s))"
    "rt_same s (upd_rq f (upd_rt_rq g (\<lambda>x. x\<lparr>rt_throttled := False\<rparr>) (upd_rt_rq g (\<lambda>x. x\<lparr>rt_time := a\<rparr>) s)))" for a f
    by (simp_all add: rt_same_def upd_defs)
  then show ?thesis
    unfolding do_sched_rt_period_timer_def Let_def using k [OF rt_same_refl refl refl] k
    by (auto simp: upd_defs split: if_split)
qed

end
