(* ===== verification/Rt_Class.thy ===== *)
theory Rt_Class
  imports Rt_Proofs
begin

text \<open>
  What the real-time class promises: picking terminates at a task of the highest runnable priority,
  the invariant holds in every state the class and the group operations reach, a round-robin task
  rotates when its slice ends, and the bandwidth limit throttles and releases a group.
\<close>

section \<open>Picking\<close>

definition rt_runnable :: "sched_state \<Rightarrow> task \<Rightarrow> bool" where
  "rt_runnable s q \<longleftrightarrow>
     (\<forall>x \<in> set (se_chain (rt_ses s) (TaskSE q)). rt_queued s x) \<and>
     rt_rq_of (rt_ses s (last (se_chain (rt_ses s) (TaskSE q)))) = root_task_group"

lemma arr_ok_running:
  assumes "arr_ok r" "highest_prio_curr r \<in> rt_prios"
  shows "rt_nr_running r \<noteq> 0"
proof -
  have "bitmap r (highest_prio_curr r)"
    using first_bit_props(3) [where b = "bitmap r", OF arr_okD(2) [OF assms(1)]] arr_okD(6) [OF assms(1)] by simp
  then obtain e where "e \<in> set (queue r (highest_prio_curr r))"
    using arr_okD(1) [OF assms(1,2)] by (metis list.set_intros(1) neq_Nil_conv)
  then show ?thesis by (rule arr_ok_highest_least(3) [OF assms(1)])
qed

lemma pick_next_rt_entity_ok:
  assumes "rt_inv E s" "rt_nr_running (rt_rqs s g) \<noteq> 0"
  obtains e where "pick_next_rt_entity s g = Some e" "e \<in> set (queue (rt_rqs s g) (highest_prio_curr (rt_rqs s g)))"
proof -
  note ok = rt_invD(4) [OF assms(1), of g]
  note h = arr_ok_nonempty [OF ok assms(2)] and f = arr_okD(6) [OF ok]
  obtain e es where q: "queue (rt_rqs s g) (highest_prio_curr (rt_rqs s g)) = e # es"
    using h(2) by (meson neq_Nil_conv)
  have "pick_next_rt_entity s g = Some e"
    using h(1) q f by (simp add: pick_next_rt_entity_def Let_def)
  with q show thesis by (intro that [of e]) simp_all
qed

text \<open>The entities at or below a queue of the hierarchy; picking descends into fewer of them.\<close>

definition reach :: "rt_se set \<Rightarrow> sched_state \<Rightarrow> tg \<Rightarrow> rt_se set" where
  "reach E s g = {y \<in> E. \<exists>z \<in> E. rt_rq_of (rt_ses s z) = g \<and> (y = z \<or> se_below y z)}"

lemma reach_decreases:
  assumes inv: "rt_inv E s" and e: "e \<in> E" "rt_rq_of (rt_ses s e) = g" "my_q (rt_ses s e) = Some h"
  shows "reach E s h \<subset> reach E s g"
proof -
  have b: "se_below z e" if "rt_rq_of (rt_ses s z) = h" for z
    using hierD(1,2) [OF rt_invD(3) [OF inv]] e(3) that by metis
  have "reach E s h \<subseteq> {y \<in> E. se_below y e}"
    using b se_below_trans by (auto simp: reach_def)
  moreover have "{y \<in> E. se_below y e} \<subseteq> reach E s g" using e by (auto simp: reach_def)
  moreover have "e \<in> reach E s g" using e by (auto simp: reach_def)
  ultimately show ?thesis by auto
qed

lemma pick_rt_loop_ok:
  assumes "rt_inv E s" "rt_nr_running (rt_rqs s g) \<noteq> 0"
  shows "\<exists>p. pick_rt_loop s g = Some p \<and> rt_queued s (TaskSE p) \<and>
    prio (tasks s p) = highest_prio_curr (rt_rqs s g)"
  using assms
proof (induction "card (reach E s g)" arbitrary: g rule: less_induct)
  case less
  obtain e where e: "pick_next_rt_entity s g = Some e"
    "e \<in> set (queue (rt_rqs s g) (highest_prio_curr (rt_rqs s g)))"
    by (rule pick_next_rt_entity_ok [OF less.prems])
  note i = rt_invD(6) [OF less.prems(1) e(2)]
  have fin: "finite (reach E s g)"
    using rt_invD(1) [OF less.prems(1)] by (simp add: reach_def)
  show ?case
  proof (cases "my_q (rt_ses s e)")
    case None
    have "e \<noteq> GroupSE k" for k using i None rt_invD(7) [OF less.prems(1), of k] by blast
    then obtain p where p: "e = TaskSE p" by (cases e) auto
    have "pick_rt_loop s g = Some p" by (subst pick_rt_loop.simps) (simp add: e(1) p None [unfolded p] rt_task_of_def)
    moreover have "rt_queued s (TaskSE p)" using e(2) p by (auto simp: rt_queued_def)
    moreover have "prio (tasks s p) = highest_prio_curr (rt_rqs s g)"
      using i None p by (simp add: rt_se_prio_def rt_task_of_def)
    ultimately show ?thesis by blast
  next
    case (Some h)
    then have eq: "highest_prio_curr (rt_rqs s h) = highest_prio_curr (rt_rqs s g)"
      using i by (simp add: rt_se_prio_def)
    have "rt_nr_running (rt_rqs s h) \<noteq> 0"
      using arr_ok_running [OF rt_invD(4) [OF less.prems(1)]] arr_ok_nonempty(1) [OF rt_invD(4) less.prems(2)]
        less.prems(1) eq by metis
    moreover have "card (reach E s h) < card (reach E s g)"
      using reach_decreases [OF less.prems(1) _ _ Some] i fin by (blast intro: psubset_card_mono)
    ultimately show ?thesis
      using less.hyps [of h] less.prems(1) eq by (subst pick_rt_loop.simps) (simp add: e(1) Some)
  qed
qed

lemma chain_highest:
  "\<lbrakk>rt_inv E s; \<forall>x \<in> set (se_chain (rt_ses s) e). rt_queued s x\<rbrakk> \<Longrightarrow>
   highest_prio_curr (rt_rqs s (rt_rq_of (rt_ses s (last (se_chain (rt_ses s) e))))) \<le> rt_se_prio s e"
proof (induction "rt_ses s" e rule: se_chain.induct)
  case (1 e)
  note hi = rt_invD(3) [OF "1.prems"(1)]
  note ch = se_chain_hier [OF hi, of e]
  have "rt_queued s e" using "1.prems"(2) by (simp add: ch)
  from queued_at(1) [OF "1.prems"(1) this]
  have le: "highest_prio_curr (rt_rqs s (rt_rq_of (rt_ses s e))) \<le> rt_se_prio s e"
    by (rule arr_ok_highest_least(1) [OF rt_invD(4) [OF "1.prems"(1)]])
  show ?case
  proof (cases "rt_parent (rt_ses s e)")
    case None
    then show ?thesis using le by (simp add: ch)
  next
    case (Some p)
    have "rt_se_prio s p = highest_prio_curr (rt_rqs s (rt_rq_of (rt_ses s e)))"
      using hierD(2) [OF hi, of e p] Some by (simp add: rt_se_prio_def)
    moreover have "se_chain (rt_ses s) p \<noteq> []" by (simp add: se_chain.simps)
    ultimately show ?thesis
      using "1.hyps" [OF Some hierD(1) [OF hi Some] "1.prems"(1)] "1.prems"(2) Some le by (simp add: ch)
  qed
qed

text \<open>C8: the loop of \<open>_pick_next_task_rt\<close> that descends through the groups ends. When the root
  queue has a runnable entity and is not throttled, no \<open>BUG_ON\<close> is hit and the class returns
  a queued task, and no task that is queued with every group around it has a higher priority
  (a smaller number).\<close>

theorem rt_pick_highest:
  assumes "rt_inv E s" and "rt_nr_running (rt_rqs s root_task_group) \<noteq> 0"
    and "\<not> rt_rq_throttled (rt_rqs s root_task_group)"
  shows "\<exists>p. map_option fst (pick_next_task_rt s) = Some (Some p) \<and> rt_queued s (TaskSE p) \<and>
    (\<forall>q. rt_runnable s q \<longrightarrow> prio (tasks s p) \<le> prio (tasks s q))"
proof -
  obtain p where p: "pick_rt_loop s root_task_group = Some p" "rt_queued s (TaskSE p)"
    "prio (tasks s p) = highest_prio_curr (rt_rqs s root_task_group)"
    using pick_rt_loop_ok [OF assms(1,2)] by blast
  have "prio (tasks s p) \<le> prio (tasks s q)" if "rt_runnable s q" for q
    using chain_highest [OF assms(1), of "TaskSE q"] that p(3) hierD(3) [OF rt_invD(3) [OF assms(1)]]
    by (simp add: rt_runnable_def rt_se_prio_def rt_task_of_def)
  with p assms(2,3) show ?thesis by (auto simp: pick_next_task_rt_def Let_def)
qed

section \<open>Reachable states\<close>

text \<open>Creating a group whose number is fresh adds its entity and keeps the invariant.\<close>

definition fresh_group :: "rt_se set \<Rightarrow> tg \<Rightarrow> tg \<Rightarrow> sched_state \<Rightarrow> bool" where
  "fresh_group E g parent s \<longleftrightarrow>
     GroupSE g \<notin> E \<and> card E + 1 < 2 ^ 32 \<and> g \<noteq> root_task_group \<and> my_q (rt_ses s (GroupSE g)) = None \<and>
     (\<forall>e. my_q (rt_ses s e) \<noteq> Some g \<and> my_q (rt_ses s e) \<noteq> Some root_task_group \<and> rt_rq_of (rt_ses s e) \<noteq> g) \<and>
     (case tg_rt_se (tgs s parent) of
        None \<Rightarrow> True
      | Some x \<Rightarrow> x \<in> E \<and> se_below (GroupSE g) x \<and> my_q (rt_ses s x) \<noteq> None \<and>
          (\<forall>y. my_q (rt_ses s y) = my_q (rt_ses s x) \<longrightarrow> y = x)) \<and> parent \<noteq> g"

definition empty_rq :: "rt_rq \<Rightarrow> bool" where
  "empty_rq r \<longleftrightarrow> bitmap r = (\<lambda>i. i = MAX_RT_PRIO) \<and> queue r = (\<lambda>_. []) \<and> rt_nr_running r = 0 \<and>
     highest_prio_curr r = MAX_RT_PRIO"

lemma empty_rq_ok:
  assumes "empty_rq r"
  shows "arr_ok r"
proof -
  have "sched_find_first_bit (bitmap r) = MAX_RT_PRIO"
    using assms by (intro first_bit_eqI) (auto simp: empty_rq_def prio_defs)
  then show ?thesis using assms by (auto simp: arr_ok_def empty_rq_def nr_queued_def)
qed

lemma alloc_rt_sched_group_effect:
  assumes "fresh_group E g parent s" and s': "s' = snd (alloc_rt_sched_group True g parent s)"
  shows "empty_rq (rt_rqs s' g)" "h \<noteq> g \<Longrightarrow> rt_rqs s' h = rt_rqs s h" "tasks s' = tasks s"
    "e \<noteq> GroupSE g \<Longrightarrow> rt_ses s' e = rt_ses s e" "my_q (rt_ses s' (GroupSE g)) = Some g"
    "rt_parent (rt_ses s' (GroupSE g)) = tg_rt_se (tgs s parent)"
    "rt_rq_of (rt_ses s' (GroupSE g)) = (case tg_rt_se (tgs s parent) of None \<Rightarrow> root_task_group
       | Some x \<Rightarrow> the (my_q (rt_ses s x)))"
  unfolding s' using assms(1)
  by (auto simp: alloc_rt_sched_group_def init_tg_rt_entry_def init_rt_rq_def fresh_group_def empty_rq_def Let_def
      upd_defs fun_eq_iff init_rt_bandwidth_def prio_defs split: option.splits)

lemma alloc_rt_sched_group_inv:
  assumes inv: "rt_inv E s" and f: "fresh_group E g parent s"
  shows "rt_inv (insert (GroupSE g) E) (snd (alloc_rt_sched_group True g parent s))"
proof -
  define s' where "s' = snd (alloc_rt_sched_group True g parent s)"
  note eff = alloc_rt_sched_group_effect [OF f s'_def]
  note hi = rt_invD(3) [OF inv]
  have fr: "my_q (rt_ses s e) \<noteq> Some g" "my_q (rt_ses s e) \<noteq> Some root_task_group" "rt_rq_of (rt_ses s e) \<noteq> g"
    "my_q (rt_ses s (GroupSE g)) = None" "rt_parent (rt_ses s e) \<noteq> Some (GroupSE g)" for e
    using f hierD(2) [OF hi, of e "GroupSE g"] by (auto simp: fresh_group_def)
  have up: "x \<in> E" "se_below (GroupSE g) x" "\<exists>h. my_q (rt_ses s x) = Some h" "x \<noteq> GroupSE g"
    if "tg_rt_se (tgs s parent) = Some x" for x
    using f that by (auto simp: fresh_group_def)
  have link: "rt_parent (rt_ses s' e) = Some x \<longleftrightarrow> my_q (rt_ses s' x) = Some (rt_rq_of (rt_ses s' e))" for e x
  proof (cases "e = GroupSE g")
    case True
    show ?thesis
    proof (cases "tg_rt_se (tgs s parent)")
      case None
      then show ?thesis
        using True eff(4-7) fr(2) f by (cases "x = GroupSE g") (auto simp: fresh_group_def)
    next
      case (Some y)
      obtain h where h: "my_q (rt_ses s y) = Some h" using up(3) [OF Some] by blast
      have "x = y" if "my_q (rt_ses s x) = Some h"
        using that h f Some by (simp add: fresh_group_def)
      then show ?thesis
        using True Some h up(4) [OF Some] eff(4-7) fr(1) by (cases "x = GroupSE g") auto
    qed
  next
    case False
    then show ?thesis using eff(4,5) fr hierD(2) [OF hi, of e x] by (cases "x = GroupSE g") auto
  qed
  have below: "se_below e x" if "rt_parent (rt_ses s' e) = Some x" for e x
    using that eff(4,6) up(2) hierD(1) [OF hi] by (cases "e = GroupSE g") auto
  have hier': "hier (rt_ses s')"
    using link below eff(4) hierD(3) [OF hi] by (simp add: hier_def)
  have E': "x \<in> insert (GroupSE g) E" if "e \<in> insert (GroupSE g) E" "rt_parent (rt_ses s' e) = Some x" for e x
    using that eff(4,6) up(1) rt_invD(5) [OF inv, of e x] by (cases "e = GroupSE g") auto
  have groups: "my_q (rt_ses s' (GroupSE k)) \<noteq> None" if "GroupSE k \<in> insert (GroupSE g) E" for k
    using that eff(4,5) rt_invD(7) [OF inv, of k] by (cases "k = g") auto
  have arrays: "arr_ok (rt_rqs s' k)" for k
    using eff(1,2) empty_rq_ok rt_invD(4) [OF inv] by (cases "k = g") auto
  have queued: "e \<in> E \<and> rt_rq_of (rt_ses s' e) = k \<and> rt_se_prio s' e = i" if "e \<in> set (queue (rt_rqs s' k) i)" for e k i
  proof -
    have k: "k \<noteq> g" using that eff(1) by (auto simp: empty_rq_def)
    with that eff(2) have q: "e \<in> set (queue (rt_rqs s k) i)" by simp
    note e = rt_invD(6) [OF inv q]
    have "e \<noteq> GroupSE g" using e f by (auto simp: fresh_group_def)
    then show ?thesis
      using e eff(2-4) fr(1) [of e] by (auto simp: rt_se_prio_def split: option.splits)
  qed
  have "card (insert (GroupSE g) E) < 2 ^ 32" "finite (insert (GroupSE g) E)"
    using f rt_invD(1) [OF inv] by (auto simp: fresh_group_def)
  then show ?thesis
    unfolding rt_inv_def s'_def [symmetric] using hier' E' groups arrays queued by blast
qed

text \<open>The entity of a group, if it has one, exists and owns the queue of the group alone.\<close>

definition group_linked :: "rt_se set \<Rightarrow> tg \<Rightarrow> sched_state \<Rightarrow> bool" where
  "group_linked E g s \<longleftrightarrow>
     (case tg_rt_se (tgs s g) of
        None \<Rightarrow> \<forall>y. my_q (rt_ses s y) \<noteq> Some g
      | Some x \<Rightarrow> x \<in> E \<and> (\<forall>y. my_q (rt_ses s y) = Some g \<longleftrightarrow> y = x))"

inductive rt_step :: "kenv \<Rightarrow> rt_se set \<Rightarrow> sched_state \<Rightarrow> sched_state \<Rightarrow> bool" for env E where
  enqueue: "\<lbrakk>TaskSE p \<in> E; 0 \<le> prio (tasks s p); prio (tasks s p) < MAX_RT_PRIO\<rbrakk> \<Longrightarrow>
    rt_step env E s (enqueue_task_rt p flags s)"
| dequeue: "TaskSE p \<in> E \<Longrightarrow> rt_step env E s (dequeue_task_rt p flags s)"
| pick: "pick_next_task_rt s = Some (p, s') \<Longrightarrow> rt_step env E s s'"
| put_prev: "rt_step env E s (put_prev_task_rt p s)"
| yield: "rt_step env E s (yield_task_rt s)"
| check_preempt: "rt_step env E s (check_preempt_curr_rt p flags s)"
| set_curr: "rt_step env E s (set_curr_task_rt s)"
| tick: "rt_step env E s (task_tick_rt env p s)"
| switched_to: "rt_step env E s (switched_to_rt p s)"
| prio_changed: "rt_step env E s (prio_changed_rt p oldprio s)"
| set_prio: "\<not> on_rt_rq s (TaskSE p) \<Longrightarrow> rt_step env E s (upd_task p (\<lambda>t. t\<lparr>prio := n\<rparr>) s)"
| move: "\<lbrakk>\<not> on_rt_rq s (TaskSE p); group_linked E (sched_task_group (tasks s p)) s\<rbrakk> \<Longrightarrow>
    rt_step env E s (set_task_rq p s)"
| period: "(\<And>t x. \<lbrakk>rt_rq_tg (rt_rqs s g) = Some t; tg_rt_se (tgs s t) = Some x\<rbrakk> \<Longrightarrow>
      x \<in> E \<and> my_q (rt_ses s x) \<noteq> None) \<Longrightarrow>
    rt_step env E s (snd (do_sched_rt_period_timer g n s))"

definition rt_init :: "rt_se set \<Rightarrow> sched_state \<Rightarrow> bool" where
  "rt_init E s \<longleftrightarrow> finite E \<and> card E < 2 ^ 32 \<and> (\<forall>e. rt_parent (rt_ses s e) = None \<and> my_q (rt_ses s e) = None) \<and>
     (\<forall>g. GroupSE g \<notin> E) \<and> (\<forall>g. empty_rq (rt_rqs s g))"

inductive rt_reachable :: "kenv \<Rightarrow> rt_se set \<Rightarrow> sched_state \<Rightarrow> bool" for env where
  init: "rt_init E s \<Longrightarrow> rt_reachable env E s"
| step: "\<lbrakk>rt_reachable env E s; rt_step env E s s'\<rbrakk> \<Longrightarrow> rt_reachable env E s'"
| create: "\<lbrakk>rt_reachable env E s; fresh_group E g parent s\<rbrakk> \<Longrightarrow>
    rt_reachable env (insert (GroupSE g) E) (snd (alloc_rt_sched_group True g parent s))"

lemma set_prio_inv:
  assumes inv: "rt_inv E s" and p: "\<not> on_rt_rq s (TaskSE p)"
  shows "rt_inv E (upd_task p (\<lambda>t. t\<lparr>prio := n\<rparr>) s)"
proof -
  let ?s' = "upd_task p (\<lambda>t. t\<lparr>prio := n\<rparr>) s"
  have "rt_se_prio ?s' e = rt_se_prio s e" if "e \<in> set (queue (rt_rqs s g) i)" for e g i
  proof -
    have "e \<noteq> TaskSE p" using that p on_rt_rq_iff [OF inv] by (auto simp: rt_queued_def)
    moreover have "e \<noteq> GroupSE k" if "my_q (rt_ses s e) = None" for k
      using rt_invD(6) [OF inv \<open>e \<in> set (queue (rt_rqs s g) i)\<close>] rt_invD(7) [OF inv, of k] that by blast
    ultimately show ?thesis
      by (cases e) (auto simp: rt_se_prio_def upd_task_def rt_task_of_def split: option.split)
  qed
  then show ?thesis using inv by (simp add: rt_inv_def) (simp add: upd_task_def)
qed

lemma set_task_rq_inv:
  assumes inv: "rt_inv E s" and p: "\<not> on_rt_rq s (TaskSE p)"
    and g: "group_linked E (sched_task_group (tasks s p)) s"
  shows "rt_inv E (set_task_rq p s)"
proof -
  let ?g = "sched_task_group (tasks s p)"
  let ?s' = "set_task_rq p s"
  note hi = rt_invD(3) [OF inv]
  have eff: "tasks ?s' = tasks s" "rt_rqs ?s' = rt_rqs s" "\<And>e. my_q (rt_ses ?s' e) = my_q (rt_ses s e)"
    "\<And>e. e \<noteq> TaskSE p \<Longrightarrow> rt_ses ?s' e = rt_ses s e" "rt_rq_of (rt_ses ?s' (TaskSE p)) = ?g"
    "rt_parent (rt_ses ?s' (TaskSE p)) = tg_rt_se (tgs s ?g)"
    by (simp_all add: set_task_rq_def Let_def upd_rt_se_def)
  have own: "tg_rt_se (tgs s ?g) = Some x \<longleftrightarrow> my_q (rt_ses s x) = Some ?g" "tg_rt_se (tgs s ?g) = Some x \<Longrightarrow> x \<in> E" for x
    using g by (auto simp: group_linked_def split: option.splits)
  have grp: "se_below (TaskSE t) x" if "my_q (rt_ses s x) \<noteq> None" for t x
    using that hierD(3) [OF hi] by (cases x) auto
  have "hier (rt_ses ?s')"
    unfolding hier_def
  proof (intro conjI allI impI)
    fix e x
    show "se_below e x" if "rt_parent (rt_ses ?s' e) = Some x"
      using that eff(4,6) own(1) [of x] grp hierD(1) [OF hi, of e x] by (cases "e = TaskSE p") auto
    show "rt_parent (rt_ses ?s' e) = Some x \<longleftrightarrow> my_q (rt_ses ?s' x) = Some (rt_rq_of (rt_ses ?s' e))"
      using eff(3-6) own(1) [of x] hierD(2) [OF hi, of e x] by (cases "e = TaskSE p") auto
  qed (simp add: eff(3) hierD(3) [OF hi])
  moreover have "x \<in> E" if "e \<in> E" "rt_parent (rt_ses ?s' e) = Some x" for e x
    using that eff(4,6) own(2) [of x] rt_invD(5) [OF inv that(1)] by (cases "e = TaskSE p") auto
  moreover have "e \<in> E \<and> rt_rq_of (rt_ses ?s' e) = h \<and> rt_se_prio ?s' e = i" if "e \<in> set (queue (rt_rqs ?s' h) i)" for e h i
  proof -
    have q: "e \<in> set (queue (rt_rqs s h) i)" using that eff(2) by simp
    then have "e \<noteq> TaskSE p" using p on_rt_rq_iff [OF inv] by (auto simp: rt_queued_def)
    then show ?thesis using rt_invD(6) [OF inv q] eff(1-4) by (simp add: rt_se_prio_def split: option.splits)
  qed
  ultimately show ?thesis
    unfolding rt_inv_def using rt_invD(1,2,7) [OF inv] rt_invD(4) [OF inv] eff(2,3) by auto
qed

lemma pick_next_same: "pick_next_task_rt s = Some (p, s') \<Longrightarrow> rt_same s s'"
  by (auto simp: pick_next_task_rt_def Let_def Option.bind_eq_Some_conv split: if_splits)

lemma rt_step_inv: "\<lbrakk>rt_step env E s s'; rt_inv E s\<rbrakk> \<Longrightarrow> rt_inv E s'"
proof (induction rule: rt_step.induct)
  case (enqueue p s flags)
  then show ?case using enqueue_task_rt_keeps(1) rt_keeps_inv by (metis atLeastLessThan_iff)
next
  case (dequeue p s flags)
  then show ?case using dequeue_task_rt_keeps(1) rt_keeps_inv by blast
next
  case (pick s p s')
  then show ?case using pick_next_same rt_same_inv by blast
next
  case (put_prev s p)
  then show ?case using update_curr_rt_keeps rt_keeps_inv by (simp add: put_prev_task_rt_def) blast
next
  case (yield s)
  then show ?case using requeue_task_rt_keeps rt_keeps_inv by (simp add: yield_task_rt_def) blast
next
  case (tick s p)
  then show ?case using task_tick_rt_keeps rt_keeps_inv by blast
next
  case (set_prio s p n)
  then show ?case using set_prio_inv by blast
next
  case (move s p)
  then show ?case using set_task_rq_inv by blast
next
  case (period s g n)
  then show ?case using period_timer_keeps rt_keeps_inv by metis
qed (simp_all add: check_preempt_curr_rt_def set_curr_task_rt_def switched_to_rt_def prio_changed_rt_def
    rt_same_inv [OF rt_same_ops(4)] rt_same_inv [OF rt_same_ops(1)])

lemma rt_init_inv: "rt_init E s \<Longrightarrow> rt_inv E s"
proof -
  assume i: "rt_init E s"
  then have "hier (rt_ses s)" "arr_ok (rt_rqs s g)" "queue (rt_rqs s g) k = []" for g k
    using empty_rq_ok by (auto simp: rt_init_def hier_def empty_rq_def)
  with i show ?thesis by (auto simp: rt_inv_def rt_init_def)
qed

text \<open>C7: in every state that the operations of the class, the period timer and the creation of
  groups reach from an empty system, each priority array is consistent: a bit is set exactly for
  the non-empty queues, \<open>rt_nr_running\<close> is the number of queued entities,
  \<open>highest_prio.curr\<close> is the least index in use, and a queued entity sits once, on its own
  group's array, in the queue of its current priority.\<close>

theorem rt_reachable_inv:
  assumes "rt_reachable env E s"
  shows "rt_inv E s"
  using assms by (induction rule: rt_reachable.induct)
    (simp_all add: rt_init_inv rt_step_inv alloc_rt_sched_group_inv)

section \<open>Throttling\<close>

text \<open>The fields of a queue that enqueueing and dequeueing leave alone.\<close>

definition rt_limits :: "rt_rq \<Rightarrow> bool \<times> u64 \<times> u64 \<times> tg option" where
  "rt_limits r = (rt_throttled r, rt_time r, rt_runtime r, rt_rq_tg r)"

lemma rt_limits_1 [simp]:
  "rt_limits (rt_rqs (enqueue_rt_entity1 head e s) h) = rt_limits (rt_rqs s h)"
  "rt_limits (rt_rqs (dequeue_rt_entity1 e s) h) = rt_limits (rt_rqs s h)"
proof -
  have a: "rt_limits ((arr_add hd e p r)\<lparr>rt_nr_boosted := b\<rparr>) = rt_limits r"
    "rt_limits ((arr_del e p r)\<lparr>rt_nr_boosted := b\<rparr>) = rt_limits r" for hd p r b
    by (simp_all add: arr_add_def arr_del_def inc_rt_prio_def dec_rt_prio_def rt_limits_def Let_def)
  show "rt_limits (rt_rqs (dequeue_rt_entity1 e s) h) = rt_limits (rt_rqs s h)"
    using deq1_effect(1) [of e s] a(2) by auto
  show "rt_limits (rt_rqs (enqueue_rt_entity1 head e s) h) = rt_limits (rt_rqs s h)"
    using enq1_effect(1) [of s e head] enq1_skipped [of s e head] a(1) by (cases "enq_skipped s e") auto
qed

lemma fold_keeps_limits:
  "(\<And>x st. rt_limits (rt_rqs (f x st) h) = rt_limits (rt_rqs st h)) \<Longrightarrow>
   rt_limits (rt_rqs (fold f xs s) h) = rt_limits (rt_rqs s h)"
  by (induction xs arbitrary: s) simp_all

lemma rt_limits_entity [simp]:
  "rt_limits (rt_rqs (enqueue_rt_entity head e s) h) = rt_limits (rt_rqs s h)"
  "rt_limits (rt_rqs (dequeue_rt_entity e s) h) = rt_limits (rt_rqs s h)"
  "rt_limits (rt_rqs (sched_rt_rq_enqueue g s) h) = rt_limits (rt_rqs s h)"
  "rt_limits (rt_rqs (sched_rt_rq_dequeue g s) h) = rt_limits (rt_rqs s h)"
proof -
  have st: "rt_limits (rt_rqs (dequeue_rt_stack e s) h) = rt_limits (rt_rqs s h)" for e s
    unfolding dequeue_rt_stack_def by (rule fold_keeps_limits) simp
  have en: "rt_limits (rt_rqs (enqueue_rt_entity head e s) h) = rt_limits (rt_rqs s h)" for head e s
    unfolding enqueue_rt_entity_def using fold_keeps_limits [of "enqueue_rt_entity1 head"] st by simp
  have de: "rt_limits (rt_rqs (dequeue_rt_entity e s) h) = rt_limits (rt_rqs s h)" for e s
    unfolding dequeue_as_rebuild using fold_keeps_limits [of "rebuild True False"] st by (simp add: rebuild_def)
  show "rt_limits (rt_rqs (enqueue_rt_entity head e s) h) = rt_limits (rt_rqs s h)"
    "rt_limits (rt_rqs (dequeue_rt_entity e s) h) = rt_limits (rt_rqs s h)"
    by (rule en, rule de)
  show "rt_limits (rt_rqs (sched_rt_rq_enqueue g s) h) = rt_limits (rt_rqs s h)"
    using en by (auto simp: sched_rt_rq_enqueue_def Let_def resched_task_def set_tsk_need_resched_def upd_task_def
        split: option.split)
  show "rt_limits (rt_rqs (sched_rt_rq_dequeue g s) h) = rt_limits (rt_rqs s h)"
    using de by (auto simp: sched_rt_rq_dequeue_def split: option.split)
qed

lemma stack_frame:
  assumes "\<And>x. x \<in> set xs \<Longrightarrow> rt_rq_of (rt_ses s x) \<noteq> h"
  shows "rt_rqs (fold (\<lambda>x st. if on_rt_rq st x then dequeue_rt_entity1 x st else st) xs s) h = rt_rqs s h"
  using assms
proof (induction xs arbitrary: s)
  case (Cons x xs)
  let ?t = "if on_rt_rq s x then dequeue_rt_entity1 x s else s"
  have "rt_ses ?t = rt_ses s" "rt_rqs ?t h = rt_rqs s h"
    using deq1_effect(1) [of x s] Cons.prems [of x] by (auto simp: deq1_effect(2))
  then show ?case using Cons.IH [of ?t] Cons.prems by simp
qed simp

lemma stack_keeps_group:
  assumes inv: "rt_inv E s" and h: "my_q (rt_ses s e) = Some h"
  shows "rt_rqs (dequeue_rt_stack e s) h = rt_rqs s h"
  unfolding dequeue_rt_stack_def
proof (rule stack_frame)
  fix x
  assume "x \<in> set (rev (se_chain (rt_ses s) e))"
  then have x: "x = e \<or> se_below e x" using in_chain_below by simp
  show "rt_rq_of (rt_ses s x) \<noteq> h"
    using hierD(1,2) [OF rt_invD(3) [OF inv], of x e] x h se_below_trans se_below_irrefl by blast
qed

lemma group_entity_queued:
  assumes inv: "rt_inv E s" and e: "e \<in> E" and h: "my_q (rt_ses s e) = Some h"
  shows "rt_queued (dequeue_rt_entity e s) e \<longleftrightarrow> \<not> enq_skipped s e"
    "rt_queued (enqueue_rt_entity head e s) e \<longleftrightarrow> \<not> enq_skipped s e"
proof -
  let ?t = "dequeue_rt_stack e s"
  have t: "rt_inv E ?t" "rt_ses ?t = rt_ses s"
    "\<And>x. rt_queued ?t x \<longleftrightarrow> rt_queued s x \<and> x \<notin> set (se_chain (rt_ses s) e)"
    using dequeue_rt_stack_inv [OF inv, of e] by blast+
  have nq: "\<forall>x \<in> set (se_chain (rt_ses ?t) e). \<not> rt_queued ?t x" using t(2,3) by simp
  have pr: "my_q (rt_ses ?t e) = None \<longrightarrow> \<not> gr \<longrightarrow> rt_se_prio ?t e \<in> rt_prios" for gr using h t(2) by simp
  have sk: "enq_skipped ?t e = enq_skipped s e"
    using stack_keeps_group [OF inv h] h t(2) by (simp add: enq_skipped_def)
  show "rt_queued (dequeue_rt_entity e s) e \<longleftrightarrow> \<not> enq_skipped s e"
    using rebuild_chain_inv [OF t(1) e nq pr [of True], of False, unfolded Let_def t(2), folded dequeue_as_rebuild] h sk t(2) by simp
  show "rt_queued (enqueue_rt_entity head e s) e \<longleftrightarrow> \<not> enq_skipped s e"
    using rebuild_chain_inv [OF t(1) e nq pr [of False], of head, unfolded Let_def t(2), folded enqueue_as_rebuild] h sk t(2) by simp
qed

text \<open>C9: in a state with consistent arrays, for a group that is not throttled yet, that has an entity
  of its own, nothing boosted in it and a limited runtime below its period: when the real-time used
  exceeds the runtime of its queue and the group has a non-zero runtime assigned,
  \<open>sched_rt_runtime_exceeded\<close> reports it, marks the group throttled and takes the group's entity
  off the queue, so that no task below it is runnable; the arrays stay consistent. A group with no
  runtime assigned is not throttled: its used time is set to zero and nothing else changes.\<close>

theorem rt_throttle:
  assumes "rt_inv E s" and "r = rt_rqs s g" and "\<not> rt_throttled r"
    and "rt_rq_tg r = Some t" and "tg_rt_se (tgs s t) = Some x" and "my_q (rt_ses s x) = Some g"
    and "rt_runtime r < rt_period (tg_rt_bandwidth (tgs s t))" and "rt_runtime r \<noteq> RUNTIME_INF"
    and "rt_time r > rt_runtime r" and "rt_nr_boosted r = 0"
    and "s' = snd (sched_rt_runtime_exceeded g s)"
  shows "(rt_b_runtime (tg_rt_bandwidth (tgs s t)) \<noteq> 0 \<longrightarrow>
      fst (sched_rt_runtime_exceeded g s) \<and> rt_throttled (rt_rqs s' g) \<and> rt_inv E s' \<and> \<not> rt_queued s' x \<and>
      (\<forall>q. x \<in> set (se_chain (rt_ses s') (TaskSE q)) \<longrightarrow> \<not> rt_runnable s' q)) \<and>
    (rt_b_runtime (tg_rt_bandwidth (tgs s t)) = 0 \<longrightarrow>
      \<not> fst (sched_rt_runtime_exceeded g s) \<and> s' = upd_rt_rq g (\<lambda>y. y\<lparr>rt_time := 0\<rparr>) s)"
proof (cases "rt_b_runtime (tg_rt_bandwidth (tgs s t)) = 0")
  case True
  have "\<not> rt_rq_throttled (rt_rqs (upd_rt_rq g (\<lambda>y. y\<lparr>rt_time := 0\<rparr>) s) g)"
    using assms(2,3) by (simp add: rt_rq_throttled_def upd_rt_rq_def)
  then have "sched_rt_runtime_exceeded g s = (False, upd_rt_rq g (\<lambda>y. y\<lparr>rt_time := 0\<rparr>) s)"
    using assms(2-4,7-9) True unfolding sched_rt_runtime_exceeded_def Let_def
    by (auto simp: sched_rt_runtime_def sched_rt_period_def)
  with True assms(11) show ?thesis by simp
next
  case False
  define s1 where "s1 = upd_rt_rq g (\<lambda>x. x\<lparr>rt_throttled := True\<rparr>) s"
  have s1: "rt_inv E s1" "rt_throttled (rt_rqs s1 g)" "rt_rq_tg (rt_rqs s1 g) = Some t" "tgs s1 = tgs s" "rt_ses s1 = rt_ses s"
    "rt_nr_boosted (rt_rqs s1 g) = 0"
    using rt_same_inv [OF rt_same_ops(11) assms(1)] assms(2,4,10) by (simp_all add: s1_def upd_rt_rq_def)
  have e: "sched_rt_runtime_exceeded g s = (True, sched_rt_rq_dequeue g s1)"
    using assms(2-5,7-10) False s1(2,6) unfolding sched_rt_runtime_exceeded_def Let_def s1_def [symmetric]
    by (auto simp: sched_rt_runtime_def sched_rt_period_def rt_rq_throttled_def)
  have sk: "enq_skipped s1 x" using assms(6) s1 by (simp add: enq_skipped_def rt_rq_throttled_def)
  have "\<not> rt_queued (sched_rt_rq_dequeue g s1) x"
  proof (cases "on_rt_rq s1 x")
    case True
    then have "x \<in> E" using on_rt_rq_iff [OF s1(1)] rt_invD(6) [OF s1(1)] by (auto simp: rt_queued_def)
    from group_entity_queued(1) [OF s1(1) this] True show ?thesis
      using assms(5,6) s1 sk by (simp add: sched_rt_rq_dequeue_def)
  next
    case False
    then show ?thesis using assms(5) s1(3,4) on_rt_rq_iff [OF s1(1)] by (simp add: sched_rt_rq_dequeue_def)
  qed
  moreover have "rt_throttled (rt_rqs (sched_rt_rq_dequeue g s1) g)"
    using rt_limits_entity(4) [of g s1 g] s1(2) by (simp add: rt_limits_def)
  ultimately show ?thesis
    using e False assms(11) rt_keeps_inv [OF sched_rt_rq_dequeue_keeps [OF s1(1)]] by (auto simp: rt_runnable_def)
qed

lemma time_after_periods:
  fixes a n c :: u64
  assumes "unat n * unat c < 2 ^ 64"
  shows "unat (a - min a (n * c)) = unat a - unat n * unat c"
proof -
  have "unat (n * c) = unat n * unat c" using assms by (simp add: unat_mult_lem [THEN iffD1])
  then show ?thesis by (simp add: min_def unat_sub word_le_nat_alt)
qed

text \<open>C10: in a state with consistent arrays, for a group with an entity of its own that has used some
  real-time (\<open>rt_time\<close> is not zero), and while \<open>overrun\<close> times its runtime fits in 64 bits: a run of the
  period timer pays back \<open>overrun\<close> times the runtime of the group, without going below zero, and
  ends the throttling exactly when the remaining time is below the runtime; a released group
  with runnable tasks gets its entity back on the queue.\<close>

theorem rt_period_replenish:
  assumes "rt_inv E s" and "r = rt_rqs s g" and "rt_time r \<noteq> 0" and "unat n * unat (rt_runtime r) < 2 ^ 64"
    and "rt_rq_tg r = Some t" and "tg_rt_se (tgs s t) = Some x" and "x \<in> E" and "my_q (rt_ses s x) = Some g"
    and "s' = snd (do_sched_rt_period_timer g n s)"
  shows "unat (rt_time (rt_rqs s' g)) = unat (rt_time r) - unat n * unat (rt_runtime r) \<and>
    (rt_throttled (rt_rqs s' g) \<longleftrightarrow> rt_throttled r \<and> rt_runtime r \<le> rt_time (rt_rqs s' g)) \<and>
    (rt_throttled r \<and> rt_time (rt_rqs s' g) < rt_runtime r \<and> rt_nr_running r \<noteq> 0 \<longrightarrow> rt_queued s' x)"
proof -
  define tm where "tm = rt_time r - min (rt_time r) (n * rt_runtime r)"
  define un where "un = (rt_throttled r \<and> tm < rt_runtime r)"
  define sb where "sb = (let sa = upd_rt_rq g (\<lambda>x. x\<lparr>rt_time := tm\<rparr>) s in
     if un then upd_rt_rq g (\<lambda>x. x\<lparr>rt_throttled := False\<rparr>) sa else sa)"
  define sc where "sc = (if un \<and> rt_nr_running r \<noteq> 0 \<and> curr (rq s) = idle (rq s)
     then upd_rq (\<lambda>q. q\<lparr>skip_clock_update := - 1\<rparr>) sb else sb)"
  have s': "s' = (if un then sched_rt_rq_enqueue g sc else sc)"
    using assms(3) unfolding assms(9) do_sched_rt_period_timer_def Let_def assms(2) [symmetric] tm_def un_def sb_def sc_def
    by simp
  have same: "rt_same s sc" by (simp add: sc_def sb_def rt_same_def upd_defs Let_def)
  have sc: "rt_inv E sc" "tgs sc = tgs s" "rt_ses sc = rt_ses s" "rt_time (rt_rqs sc g) = tm"
    "rt_throttled (rt_rqs sc g) \<longleftrightarrow> rt_throttled r \<and> \<not> un" "rt_rq_tg (rt_rqs sc g) = Some t"
    "rt_nr_running (rt_rqs sc g) = rt_nr_running r"
    using rt_same_inv [OF same assms(1)] assms(2,5) by (simp_all add: sc_def sb_def upd_defs Let_def)
  have "rt_limits (rt_rqs s' g) = rt_limits (rt_rqs sc g)" by (simp add: s')
  then have lim: "rt_time (rt_rqs s' g) = tm" "rt_throttled (rt_rqs s' g) \<longleftrightarrow> rt_throttled r \<and> \<not> un"
    using sc(4,5) by (simp_all add: rt_limits_def)
  have "rt_queued s' x" if "un" "rt_nr_running r \<noteq> 0"
  proof -
    have q: "rt_queued (enqueue_rt_entity False x sc) x"
      using group_entity_queued(2) [OF sc(1) assms(7)] assms(8) sc that
      by (simp add: enq_skipped_def rt_rq_throttled_def)
    have "rt_queued (resched_task c st) x = rt_queued st x" for c st
      using rt_same_queued [OF rt_same_ops(4)] by blast
    then show ?thesis
      using q that assms(6) sc(2,6,7) on_rt_rq_iff [OF sc(1)]
      by (simp add: s' sched_rt_rq_enqueue_def Let_def)
  qed
  with lim time_after_periods [OF assms(4), of "rt_time r"] show ?thesis
    by (auto simp: tm_def un_def not_less)
qed

section \<open>Round robin\<close>

lemma no_bandwidth_update:
  assumes "\<not> rt_bandwidth_enabled s"
  shows "rt_rqs (update_curr_rt s) = rt_rqs s" "rt_ses (update_curr_rt s) = rt_ses s"
    "rt_same s (update_curr_rt s)" "policy (tasks (update_curr_rt s) p) = policy (tasks s p)"
proof -
  have b: "\<not> rt_bandwidth_enabled (cpuacct_charge q d (upd_task q f (emit ev (upd_task q h s))))" for q d f ev h
    using assms by (simp add: rt_bandwidth_enabled_def upd_defs)
  show "rt_rqs (update_curr_rt s) = rt_rqs s" "rt_ses (update_curr_rt s) = rt_ses s"
    "policy (tasks (update_curr_rt s) p) = policy (tasks s p)"
    unfolding update_curr_rt_def Let_def if_P [OF b] by (simp_all add: upd_defs)
  have i: "rt_same s (if c then s else st)" if "rt_same s st" for c st using that by simp
  show "rt_same s (update_curr_rt s)"
    unfolding update_curr_rt_def Let_def if_P [OF b] by (rule i, rule account_same)
qed

lemma watchdog_rt_frame [simp]:
  "rt_rqs (watchdog_rt env p s) = rt_rqs s" "policy (tasks (watchdog_rt env p s) q) = policy (tasks s q)"
  "rt_time_slice (rt_ses (watchdog_rt env p s) e) = rt_time_slice (rt_ses s e)"
  by (simp_all add: watchdog_rt_def upd_defs Let_def)

text \<open>C11: a tick of a queued round-robin task outside any group, with the bandwidth limit off, takes one
  tick off its slice and leaves the queue; the tick that ends the slice refills it with
  \<open>RR_TIMESLICE\<close>, moves the task behind the others of its priority and, when there are any,
  asks for rescheduling.\<close>

theorem rt_rr_tick:
  assumes "rt_inv E s" and "\<not> rt_bandwidth_enabled s" and "policy (tasks s p) = SCHED_RR"
    and "rt_parent (rt_ses s (TaskSE p)) = None" and "rt_queued s (TaskSE p)"
    and "g = rt_rq_of (rt_ses s (TaskSE p))" and "q = queue (rt_rqs s g) (prio (tasks s p))"
    and "s' = task_tick_rt env p s"
  shows "if rt_time_slice (rt_ses s (TaskSE p)) = 1
    then rt_time_slice (rt_ses s' (TaskSE p)) = word_of_int (RR_TIMESLICE (HZ env)) \<and>
      queue (rt_rqs s' g) (prio (tasks s p)) = remove1 (TaskSE p) q @ [TaskSE p] \<and>
      (q \<noteq> [TaskSE p] \<longrightarrow> need_resched (tasks s' p))
    else rt_time_slice (rt_ses s' (TaskSE p)) = rt_time_slice (rt_ses s (TaskSE p)) - 1 \<and>
      queue (rt_rqs s' g) (prio (tasks s p)) = q"
proof -
  let ?e = "TaskSE p"
  define s1 where "s1 = watchdog_rt env p (update_curr_rt s)"
  note u = no_bandwidth_update [OF assms(2)]
  have same: "rt_same s s1" using u(3) rt_same_trans watchdog_rt_same unfolding s1_def by blast
  have pr: "rt_se_prio s ?e = prio (tasks s p)"
    using hierD(3) [OF rt_invD(3) [OF assms(1)]] by (simp add: rt_se_prio_def rt_task_of_def)
  note at = queued_at [OF assms(1,5), unfolded pr, folded assms(6)]
  have mem: "?e \<in> set q" using at(1) assms(7) by simp
  define s2 where "s2 = (if rr_fifo_trace (tasks s1 p) = 1
    then emit (Printk (rr_trace_line (tasks s1 p) (rt_time_slice (rt_ses s1 ?e)))) s1 else s1)"
  define s3 where "s3 = upd_rt_se ?e (\<lambda>x. x\<lparr>rt_time_slice := rt_time_slice x - 1\<rparr>) s2"
  define s4 where "s4 = upd_rt_se ?e (\<lambda>x. x\<lparr>rt_time_slice := word_of_int (RR_TIMESLICE (HZ env))\<rparr>) s3"
  have pol: "policy (tasks s1 p) = SCHED_RR" using assms(3) u(4) by (simp add: s1_def)
  have rqs: "rt_rqs s2 = rt_rqs s" "rt_rqs s3 = rt_rqs s" "rt_rqs s4 = rt_rqs s"
    using u(1) by (simp_all add: s1_def s2_def s3_def s4_def upd_defs)
  have sl: "rt_time_slice (rt_ses s3 ?e) = rt_time_slice (rt_ses s ?e) - 1"
    "rt_time_slice (rt_ses s4 ?e) = word_of_int (RR_TIMESLICE (HZ env))"
    using u(2) by (simp_all add: s1_def s2_def s3_def s4_def upd_defs)
  have s': "s' = (if rt_time_slice (rt_ses s3 ?e) \<noteq> 0 then s3 else
      if list_ex (rt_shares_queue s4) (se_chain (rt_ses s4) ?e)
      then set_tsk_need_resched p (requeue_task_rt False p s4) else s4)"
    using pol unfolding assms(8) task_tick_rt_def Let_def s1_def [symmetric] s2_def s3_def s4_def by simp
  have same4: "rt_same s s4"
    using same by (auto simp: rt_same_def s2_def s3_def s4_def upd_defs)
  have inv4: "rt_inv E s4" by (rule rt_same_inv [OF same4 assms(1)])
  have l4: "rt_parent (rt_ses s4 ?e) = None" "rt_rq_of (rt_ses s4 ?e) = g" "rt_se_prio s4 ?e = prio (tasks s p)"
    "on_rt_rq s4 ?e"
    using same4 assms(4,5,6) pr rt_same_queued [OF same4] on_rt_rq_iff [OF inv4] hierD(3) [OF rt_invD(3) [OF inv4]]
    by (simp_all add: rt_same_def rt_se_prio_def rt_task_of_def)
  have ch: "se_chain (rt_ses s4) ?e = [?e]" using l4(1) by (simp add: se_chain.simps)
  have range: "prio (tasks s p) \<in> rt_prios" by (rule arr_ok_highest_least(2) [OF rt_invD(4) [OF assms(1)] at(1)])
  have dist: "distinct q" using arr_okD(4) [OF rt_invD(4) [OF assms(1)]] assms(7) by simp
  have one: "?e \<in> set (queue (rt_rqs s g) i) \<longleftrightarrow> i = prio (tasks s p)" for i using at by blast
  have sh: "rt_shares_queue s4 ?e \<longleftrightarrow> 2 \<le> length q"
    using range assms(7) unfolding rt_shares_queue_def l4(2) rqs(3) one by (auto simp: list_ex_iff)
  have req: "queue (rt_rqs (set_tsk_need_resched p (requeue_task_rt False p s4)) g) (prio (tasks s p)) =
      remove1 ?e q @ [?e]"
    "rt_ses (set_tsk_need_resched p (requeue_task_rt False p s4)) = rt_ses s4"
    "need_resched (tasks (set_tsk_need_resched p (requeue_task_rt False p s4)) p)"
    using l4 ch rqs(3) assms(7) unfolding requeue_task_rt_def ch
    by (simp_all add: requeue_rt_entity_def upd_queue_def upd_defs set_tsk_need_resched_def list_op_defs)
  show ?thesis
  proof (cases "rt_time_slice (rt_ses s ?e) = 1")
    case False
    then show ?thesis using s' sl(1) rqs(2) assms(7) by simp
  next
    case True
    show ?thesis
    proof (cases "2 \<le> length q")
      case True2: True
      then have "s' = set_tsk_need_resched p (requeue_task_rt False p s4)" using s' sl(1) True sh ch by simp
      then show ?thesis using req sl(2) True by simp
    next
      case short: False
      then have q: "q = [?e]" using mem by (cases q rule: list.exhaust) (auto simp: Suc_le_eq not_le)
      have "s' = s4" using s' sl(1) True sh ch short by simp
      then show ?thesis using q sl(2) True rqs(3) assms(7) by simp
    qed
  qed
qed

section \<open>A system with a group\<close>

text \<open>
  Tasks 1 and 2 outside any group, task 3 in group 1, all queued with priorities 50, 40 and 50; the
  group may use 500 ns of each period.
\<close>

definition rt_idle0 :: sched_state where
  "rt_idle0 = state0\<lparr>tasks := (\<lambda>p. task0\<lparr>sched_class := rt_sched_class, policy := SCHED_RR,
     prio := if p = 2 then 40 else 50, normal_prio := if p = 2 then 40 else 50,
     sched_task_group := if p = 3 then 1 else 0\<rparr>), sysctl_sched_rt_runtime := - 1\<rparr>"

definition rt_tasks0 :: "rt_se set" where
  "rt_tasks0 = {TaskSE 1, TaskSE 2, TaskSE 3}"

definition rt_group0 :: sched_state where
  "rt_group0 = set_task_rq 3 (snd (alloc_rt_sched_group True 1 0 rt_idle0))"

lemma rt_idle0_reachable: "rt_reachable env rt_tasks0 rt_idle0"
  by (intro rt_reachable.init)
    (auto simp: rt_init_def rt_tasks0_def rt_idle0_def state0_def empty_rq_def rt_rq0_def)

lemma rt_group0_reachable: "rt_reachable env (insert (GroupSE 1) rt_tasks0) rt_group0"
proof -
  have "rt_reachable env (insert (GroupSE 1) rt_tasks0) (snd (alloc_rt_sched_group True 1 0 rt_idle0))"
    by (rule rt_reachable.create [OF rt_idle0_reachable])
      (auto simp: fresh_group_def rt_tasks0_def rt_idle0_def state0_def root_task_group_def)
  then show ?thesis
    unfolding rt_group0_def
    by (rule rt_reachable.step, intro rt_step.move)
      (auto simp: on_rt_rq_def list_ex_iff group_linked_def alloc_rt_sched_group_def init_tg_rt_entry_def init_rt_rq_def
        rt_idle0_def state0_def rt_rq0_def Let_def upd_defs init_rt_bandwidth_def)
qed

lemma rt_run0_prio: "prio (tasks rt_group0 p) = (if p = 2 then 40 else 50)"
  by (simp add: rt_group0_def set_task_rq_def alloc_rt_sched_group_def init_tg_rt_entry_def rt_idle0_def Let_def upd_defs)

lemma rt_enqueued0_reachable:
  "rt_reachable env (insert (GroupSE 1) rt_tasks0) (enqueue_task_rt 3 0 rt_group0)"
  by (rule rt_reachable.step [OF rt_group0_reachable], rule rt_step.enqueue)
    (simp_all add: rt_run0_prio rt_tasks0_def prio_defs)

theorem rt_reachable_inv_witness:
  "rt_inv (insert (GroupSE 1) rt_tasks0) (enqueue_task_rt 3 0 rt_group0)"
  by (rule rt_reachable_inv [OF rt_enqueued0_reachable])

text \<open>The same system with every task queued and the group over its limit.\<close>

definition rt_run0 :: sched_state where
  "rt_run0 = rt_idle0\<lparr>
     rt_ses := (\<lambda>e. if e = TaskSE 3 then \<lparr>rt_timeout = 0, rt_time_slice = 1, rt_parent = Some (GroupSE 1), rt_rq_of = 1, my_q = None\<rparr>
       else if e = GroupSE 1 then \<lparr>rt_timeout = 0, rt_time_slice = 0, rt_parent = None, rt_rq_of = 0, my_q = Some 1\<rparr>
       else \<lparr>rt_timeout = 0, rt_time_slice = 1, rt_parent = None, rt_rq_of = 0, my_q = None\<rparr>),
     rt_rqs := (\<lambda>g. if g = 0 then rt_rq0\<lparr>bitmap := (\<lambda>i. i \<in> {40, 50, 100}),
         queue := (\<lambda>i. if i = 40 then [TaskSE 2] else if i = 50 then [TaskSE 1, GroupSE 1] else []),
         rt_nr_running := 3, highest_prio_curr := 40\<rparr>
       else if g = 1 then rt_rq0\<lparr>bitmap := (\<lambda>i. i \<in> {50, 100}), queue := (\<lambda>i. if i = 50 then [TaskSE 3] else []),
         rt_nr_running := 1, highest_prio_curr := 50, rt_time := 600, rt_runtime := 500, rt_rq_tg := Some 1\<rparr>
       else rt_rq0),
     tgs := (\<lambda>g. \<lparr>tg_rt_se = if g = 1 then Some (GroupSE 1) else None,
        tg_rt_bandwidth = \<lparr>rt_period = 1000, rt_b_runtime = 500, rt_timer_active = False\<rparr>,
        tg_parent = None, tg_children = [], tg_cgroup = Some 0\<rparr>)\<rparr>"

lemma arr_ok_two:
  assumes "bitmap r = (\<lambda>i. i \<in> {a, b, MAX_RT_PRIO})" "a < b \<or> a = b" "0 \<le> a" "b < MAX_RT_PRIO"
    "queue r = (\<lambda>i. if i = a then xs else if i = b then ys else [])" "distinct xs" "distinct ys" "xs \<noteq> []" "ys \<noteq> []"
    "unat (rt_nr_running r) = length xs + (if a = b then 0 else length ys)" "highest_prio_curr r = a"
  shows "arr_ok r"
proof -
  have "nr_queued r = (\<Sum>i \<in> {a, b}. length (queue r i))"
    unfolding nr_queued_def using assms(2-5) by (intro sum.mono_neutral_right) auto
  then have n: "nr_queued r = length xs + (if a = b then 0 else length ys)" using assms(5) by auto
  have f: "sched_find_first_bit (bitmap r) = a"
    using assms(1-4) by (intro first_bit_eqI) (auto simp: prio_defs)
  show ?thesis
    unfolding arr_ok_def n f using assms by auto
qed

lemma rt_run0_inv: "rt_inv (insert (GroupSE 1) rt_tasks0) rt_run0"
proof -
  have a: "arr_ok (rt_rqs rt_run0 0)"
    by (rule arr_ok_two [where a = 40 and b = 50 and xs = "[TaskSE 2]" and ys = "[TaskSE 1, GroupSE 1]"])
      (simp_all add: rt_run0_def rt_rq0_def prio_defs)
  have b: "arr_ok (rt_rqs rt_run0 1)"
    by (rule arr_ok_two [where a = 50 and b = 50 and xs = "[TaskSE 3]" and ys = "[TaskSE 3]"])
      (simp_all add: rt_run0_def rt_rq0_def prio_defs fun_eq_iff)
  have c: "arr_ok (rt_rqs rt_run0 g)" if "g \<noteq> 0" "g \<noteq> 1" for g
    using that by (intro empty_rq_ok) (simp add: rt_run0_def rt_rq0_def empty_rq_def)
  have "arr_ok (rt_rqs rt_run0 g)" for g using a b c by (cases "g = 0"; cases "g = 1") auto
  moreover have "hier (rt_ses rt_run0)" by (auto simp: hier_def rt_run0_def split: if_splits)
  moreover have "e \<in> insert (GroupSE 1) rt_tasks0 \<and> rt_rq_of (rt_ses rt_run0 e) = g \<and> rt_se_prio rt_run0 e = i"
    if "e \<in> set (queue (rt_rqs rt_run0 g) i)" for e g i
    using that by (auto simp: rt_run0_def rt_rq0_def rt_tasks0_def rt_se_prio_def rt_task_of_def rt_idle0_def split: if_splits)
  moreover have "card (insert (GroupSE 1) rt_tasks0) < 2 ^ 32" "finite (insert (GroupSE 1) rt_tasks0)"
    by (auto simp: rt_tasks0_def)
  ultimately show ?thesis by (auto simp: rt_inv_def rt_run0_def rt_tasks0_def split: if_splits)
qed

theorem rt_pick_highest_witness:
  "\<exists>p. map_option fst (pick_next_task_rt rt_run0) = Some (Some p) \<and> rt_queued rt_run0 (TaskSE p) \<and>
    (\<forall>q. rt_runnable rt_run0 q \<longrightarrow> prio (tasks rt_run0 p) \<le> prio (tasks rt_run0 q))"
  by (rule rt_pick_highest [OF rt_run0_inv])
    (simp_all add: rt_run0_def rt_rq0_def rt_rq_throttled_def root_task_group_def)

theorem rt_throttle_witness:
  "rt_throttled (rt_rqs (snd (sched_rt_runtime_exceeded 1 rt_run0)) 1) \<and>
   \<not> rt_queued (snd (sched_rt_runtime_exceeded 1 rt_run0)) (GroupSE 1)"
  using rt_throttle [OF rt_run0_inv refl, of 1 1 "GroupSE 1", OF _ _ _ _ _ _ _ _ refl]
  by (simp add: rt_run0_def rt_rq0_def RUNTIME_INF_def)

theorem rt_period_replenish_witness:
  "unat (rt_time (rt_rqs (snd (do_sched_rt_period_timer 1 1 rt_run0)) 1)) = 100"
  using rt_period_replenish [OF rt_run0_inv refl, of 1 1 1 "GroupSE 1", OF _ _ _ _ _ _ refl]
  by (simp add: rt_run0_def rt_rq0_def)

theorem rt_rr_tick_witness:
  "queue (rt_rqs (task_tick_rt env0 1 rt_run0) 0) 50 = [GroupSE 1, TaskSE 1] \<and>
   need_resched (tasks (task_tick_rt env0 1 rt_run0) 1)"
proof -
  have h: "\<not> rt_bandwidth_enabled rt_run0" "policy (tasks rt_run0 1) = SCHED_RR"
    "rt_parent (rt_ses rt_run0 (TaskSE 1)) = None" "rt_rq_of (rt_ses rt_run0 (TaskSE 1)) = 0"
    "queue (rt_rqs rt_run0 0) 50 = [TaskSE 1, GroupSE 1]" "prio (tasks rt_run0 1) = 50"
    "rt_time_slice (rt_ses rt_run0 (TaskSE 1)) = 1"
    by (simp_all add: rt_run0_def rt_idle0_def rt_bandwidth_enabled_def rt_rq0_def)
  have "TaskSE 1 \<in> set (queue (rt_rqs rt_run0 0) 50)" unfolding h(5) by simp
  then have q: "rt_queued rt_run0 (TaskSE 1)" unfolding rt_queued_def by blast
  show ?thesis
    using rt_rr_tick [OF rt_run0_inv h(1-3) q refl refl refl, of env0] unfolding h(4-7) by simp
qed

end
