(* ===== verification/Core_Load.thy ===== *)
theory Core_Load
  imports Sched_Types
begin

text \<open>
  The load statistics of \<open>kernel/sched/core.c\<close>: the global load average with its correction for
  tickless idle periods (\<open>calc_load\<close> and the functions around it) and the decaying load of
  the CPU (\<open>update_cpu_load\<close>). \<open>unsigned long\<close> and \<open>long\<close> are 32-bit words;
  arithmetic wraps as in C.
\<close>

section \<open>State\<close>

text \<open>
  The variables of the load average, and the fields of \<open>struct rq\<close> it uses, for the one CPU.
  \<open>calc_load_update\<close> is the global variable, \<open>rq_load_update\<close> the field of the run queue.
\<close>

record load_avg =
  jiffies :: ulong
  calc_load_tasks :: ulong
  calc_load_update :: ulong
  avenrun :: "nat \<Rightarrow> ulong"
  calc_load_idle :: "nat \<Rightarrow> ulong"
  calc_load_idx :: u32
  calc_load_active :: ulong
  rq_load_update :: ulong
  cpu_load :: "nat \<Rightarrow> ulong"
  nr_load_updates :: ulong
  last_load_update_tick :: ulong

definition FSHIFT :: nat where "FSHIFT = 11"
definition FIXED_1 :: ulong where "FIXED_1 = push_bit FSHIFT 1"
definition LOAD_FREQ :: "int \<Rightarrow> ulong" where "LOAD_FREQ hz = word_of_int (5 * hz + 1)"
definition EXP_1 :: ulong where "EXP_1 = 1884"
definition EXP_5 :: ulong where "EXP_5 = 2014"
definition EXP_15 :: ulong where "EXP_15 = 2037"

lemmas load_consts = FSHIFT_def FIXED_1_def EXP_1_def EXP_5_def EXP_15_def

text \<open>\<open>time_before\<close> of the kernel's jiffies interface.\<close>

definition time_before :: "ulong \<Rightarrow> ulong \<Rightarrow> bool" where
  "time_before a b \<longleftrightarrow> sint (a - b) < 0"

section \<open>Load average\<close>

definition get_avenrun :: "ulong \<Rightarrow> nat \<Rightarrow> load_avg \<Rightarrow> ulong list" where
  "get_avenrun offset shift l = map (\<lambda>i. push_bit shift (avenrun l i + offset)) [0, 1, 2]"

definition calc_load_fold_active :: "ulong \<Rightarrow> ulong \<Rightarrow> load_avg \<Rightarrow> ulong \<times> load_avg" where
  "calc_load_fold_active running uninterruptible l =
     (let nr_active = running + uninterruptible in
      if nr_active \<noteq> calc_load_active l
      then (nr_active - calc_load_active l, l\<lparr>calc_load_active := nr_active\<rparr>)
      else (0, l))"

definition calc_load :: "ulong \<Rightarrow> ulong \<Rightarrow> ulong \<Rightarrow> ulong" where
  "calc_load ld ex active =
     (let l1 = ld * ex; l2 = l1 + active * (FIXED_1 - ex); l3 = l2 + push_bit (FSHIFT - 1) 1
      in drop_bit FSHIFT l3)"

definition calc_load_write_idx :: "load_avg \<Rightarrow> nat" where
  "calc_load_write_idx l =
     (let idx = calc_load_idx l;
          idx1 = (if \<not> time_before (jiffies l) (calc_load_update l) then idx + 1 else idx)
      in unat (idx1 AND 1))"

definition calc_load_read_idx :: "load_avg \<Rightarrow> nat" where
  "calc_load_read_idx l = unat (calc_load_idx l AND 1)"

definition calc_load_enter_idle :: "ulong \<Rightarrow> ulong \<Rightarrow> load_avg \<Rightarrow> load_avg" where
  "calc_load_enter_idle running uninterruptible l =
     (case calc_load_fold_active running uninterruptible l of
        (delta, l1) \<Rightarrow>
          if delta \<noteq> 0 then
            let idx = calc_load_write_idx l1
            in l1\<lparr>calc_load_idle := (calc_load_idle l1)(idx := calc_load_idle l1 idx + delta)\<rparr>
          else l1)"

definition calc_load_exit_idle :: "int \<Rightarrow> load_avg \<Rightarrow> load_avg" where
  "calc_load_exit_idle hz l =
     (if time_before (jiffies l) (rq_load_update l) then l
      else
        let l1 = l\<lparr>rq_load_update := calc_load_update l\<rparr>
        in if time_before (jiffies l1) (rq_load_update l1 + 10)
           then l1\<lparr>rq_load_update := rq_load_update l1 + LOAD_FREQ hz\<rparr> else l1)"

definition calc_load_fold_idle :: "load_avg \<Rightarrow> ulong \<times> load_avg" where
  "calc_load_fold_idle l =
     (let idx = calc_load_read_idx l in
      if calc_load_idle l idx \<noteq> 0
      then (calc_load_idle l idx, l\<lparr>calc_load_idle := (calc_load_idle l)(idx := 0)\<rparr>)
      else (0, l))"

text \<open>A fixed-point product, rounded to the nearest.\<close>

definition fixed_mult :: "nat \<Rightarrow> ulong \<Rightarrow> ulong \<Rightarrow> ulong" where
  "fixed_mult frac_bits a b = drop_bit frac_bits (a * b + push_bit (frac_bits - 1) 1)"

lemma unat_half: "unat (drop_bit (Suc 0) n) = unat n div 2" for n :: "'a :: len word"
  unfolding unat_drop_bit_eq by (simp add: drop_bit_Suc)

lemma half_less: "n \<noteq> 0 \<Longrightarrow> unat (drop_bit (Suc 0) n) < unat n" for n :: "'a :: len word"
  by (simp only: unat_half) (simp add: unat_gt_0)

function fixed_power_loop :: "ulong \<Rightarrow> nat \<Rightarrow> u32 \<Rightarrow> ulong \<Rightarrow> ulong" where
  "fixed_power_loop x frac_bits n result =
     (let result1 = (if n AND 1 \<noteq> 0 then fixed_mult frac_bits result x else result);
          n1 = drop_bit 1 n
      in if n1 = 0 then result1 else fixed_power_loop (fixed_mult frac_bits x x) frac_bits n1 result1)"
  by pat_completeness auto
termination
  by (relation "measure (\<lambda>(x, f, n, r). unat n)") (auto simp del: unat_drop_bit_eq intro!: half_less)

declare fixed_power_loop.simps [simp del]

text \<open>The same loop, stopped without a result when it has not ended after \<open>k\<close> iterations.\<close>

fun fixed_power_steps :: "nat \<Rightarrow> ulong \<Rightarrow> nat \<Rightarrow> u32 \<Rightarrow> ulong \<Rightarrow> ulong option" where
  "fixed_power_steps 0 x frac_bits n result = None"
| "fixed_power_steps (Suc k) x frac_bits n result =
     (let result1 = (if n AND 1 \<noteq> 0 then fixed_mult frac_bits result x else result);
          n1 = drop_bit 1 n
      in if n1 = 0 then Some result1 else fixed_power_steps k (fixed_mult frac_bits x x) frac_bits n1 result1)"

definition fixed_power_int :: "ulong \<Rightarrow> nat \<Rightarrow> u32 \<Rightarrow> ulong" where
  "fixed_power_int x frac_bits n =
     (let result = push_bit frac_bits 1
      in if n \<noteq> 0 then fixed_power_loop x frac_bits n result else result)"

definition calc_load_n :: "ulong \<Rightarrow> ulong \<Rightarrow> ulong \<Rightarrow> u32 \<Rightarrow> ulong" where
  "calc_load_n ld ex active n = calc_load ld (fixed_power_int ex FSHIFT n) active"

definition active_load :: "load_avg \<Rightarrow> ulong" where
  "active_load l = (if sint (calc_load_tasks l) > 0 then calc_load_tasks l * FIXED_1 else 0)"

text \<open>When the guard holds, \<open>delta\<close> is not negative.\<close>

definition calc_global_nohz :: "int \<Rightarrow> load_avg \<Rightarrow> load_avg" where
  "calc_global_nohz hz l =
     (let l1 =
        (if \<not> time_before (jiffies l) (calc_load_update l + 10) then
           let delta = jiffies l - calc_load_update l - 10;
               n = 1 + word_of_int (sint delta div sint (LOAD_FREQ hz));
               active = active_load l
           in l\<lparr>avenrun := (avenrun l)
                  (0 := calc_load_n (avenrun l 0) EXP_1 active n,
                   1 := calc_load_n (avenrun l 1) EXP_5 active n,
                   2 := calc_load_n (avenrun l 2) EXP_15 active n),
                calc_load_update := calc_load_update l + n * LOAD_FREQ hz\<rparr>
         else l)
      in l1\<lparr>calc_load_idx := calc_load_idx l1 + 1\<rparr>)"

definition calc_global_load :: "int \<Rightarrow> load_avg \<Rightarrow> load_avg" where
  "calc_global_load hz l =
     (if time_before (jiffies l) (calc_load_update l + 10) then l
      else
        case calc_load_fold_idle l of
          (delta, l1) \<Rightarrow>
            let l2 = (if delta \<noteq> 0 then l1\<lparr>calc_load_tasks := calc_load_tasks l1 + delta\<rparr> else l1);
                active = active_load l2;
                l3 = l2\<lparr>avenrun := (avenrun l2)
                       (0 := calc_load (avenrun l2 0) EXP_1 active,
                        1 := calc_load (avenrun l2 1) EXP_5 active,
                        2 := calc_load (avenrun l2 2) EXP_15 active),
                     calc_load_update := calc_load_update l2 + LOAD_FREQ hz\<rparr>
            in calc_global_nohz hz l3)"

definition calc_load_account_active :: "int \<Rightarrow> ulong \<Rightarrow> ulong \<Rightarrow> load_avg \<Rightarrow> load_avg" where
  "calc_load_account_active hz running uninterruptible l =
     (if time_before (jiffies l) (rq_load_update l) then l
      else
        case calc_load_fold_active running uninterruptible l of
          (delta, l1) \<Rightarrow>
            let l2 = (if delta \<noteq> 0 then l1\<lparr>calc_load_tasks := calc_load_tasks l1 + delta\<rparr> else l1)
            in l2\<lparr>rq_load_update := rq_load_update l2 + LOAD_FREQ hz\<rparr>)"

section \<open>Load of the CPU\<close>

definition CPU_LOAD_IDX_MAX :: nat where "CPU_LOAD_IDX_MAX = 5"
definition DEGRADE_SHIFT :: nat where "DEGRADE_SHIFT = 7"

definition degrade_zero_ticks :: "ulong list" where
  "degrade_zero_ticks = [0, 8, 32, 64, 128]"

text \<open>Columns the initialiser leaves out are zero.\<close>

definition degrade_factor :: "ulong list list" where
  "degrade_factor =
    [[0, 0, 0, 0, 0, 0, 0, 0],
     [64, 32, 8, 0, 0, 0, 0, 0],
     [96, 72, 40, 12, 1, 0, 0, 0],
     [112, 98, 75, 43, 15, 1, 0, 0],
     [120, 112, 98, 76, 45, 16, 2, 0]]"

text \<open>The loop; \<open>None\<close> is a read outside the table.\<close>

function decay_loop :: "ulong \<Rightarrow> ulong \<Rightarrow> nat \<Rightarrow> nat \<Rightarrow> ulong option" where
  "decay_loop ld missed idx j =
     (if missed = 0 then Some ld
      else if missed mod 2 = 0 then decay_loop ld (drop_bit 1 missed) idx (Suc j)
      else if idx < CPU_LOAD_IDX_MAX \<and> j < DEGRADE_SHIFT + 1
      then decay_loop (drop_bit DEGRADE_SHIFT (ld * degrade_factor ! idx ! j)) (drop_bit 1 missed) idx (Suc j)
      else None)"
  by pat_completeness auto
termination
  by (relation "measure (\<lambda>(l, m, i, j). unat m)")
    (auto simp del: unat_drop_bit_eq intro!: half_less)

declare decay_loop.simps [simp del]

definition decay_load_missed :: "ulong \<Rightarrow> ulong \<Rightarrow> nat \<Rightarrow> ulong option" where
  "decay_load_missed ld missed idx =
     (if missed = 0 then Some ld
      else if missed \<ge> degrade_zero_ticks ! idx then Some 0
      else if idx = 1 then Some (drop_bit (unat missed) ld)
      else decay_loop ld missed idx 0)"

text \<open>One slot of the array: \<open>scale\<close> is \<open>2 ^ i\<close>.\<close>

definition cpu_load_step :: "nat \<Rightarrow> ulong \<Rightarrow> ulong \<Rightarrow> ulong \<Rightarrow> ulong option" where
  "cpu_load_step i this_load pending old =
     (let scale = push_bit i 1 in
      case decay_load_missed old (pending - 1) i of
        None \<Rightarrow> None
      | Some old_load \<Rightarrow>
          let new_load = (if this_load > old_load then this_load + (scale - 1) else this_load)
          in Some (drop_bit i (old_load * (scale - 1) + new_load)))"

definition update_cpu_load :: "ulong \<Rightarrow> load_avg \<Rightarrow> load_avg option" where
  "update_cpu_load this_load l =
     (let l1 = l\<lparr>nr_load_updates := nr_load_updates l + 1\<rparr> in
      if jiffies l1 = last_load_update_tick l1 then Some l1
      else
        let pending = jiffies l1 - last_load_update_tick l1;
            l2 = l1\<lparr>last_load_update_tick := jiffies l1, cpu_load := (cpu_load l1)(0 := this_load)\<rparr>
        in fold (\<lambda>i acc. case acc of
                   None \<Rightarrow> None
                 | Some st \<Rightarrow> map_option (\<lambda>v. st\<lparr>cpu_load := (cpu_load st)(i := v)\<rparr>)
                                (cpu_load_step i this_load pending (cpu_load st i)))
             [1..<CPU_LOAD_IDX_MAX] (Some l2))"

definition update_cpu_load_active :: "int \<Rightarrow> ulong \<Rightarrow> ulong \<Rightarrow> ulong \<Rightarrow> load_avg \<Rightarrow> load_avg option" where
  "update_cpu_load_active hz this_load running uninterruptible l =
     map_option (calc_load_account_active hz running uninterruptible) (update_cpu_load this_load l)"

end
