(* ===== verification/Core_Sched.thy ===== *)
theory Core_Sched
  imports Ras Rt Core_Load
begin

text \<open>
  The core of the scheduler, \<open>kernel/sched/core.c\<close>, on one CPU: queueing, waking, forking,
  picking and switching tasks, ticks, and the system calls that change priority and policy. It
  calls the scheduling classes through their operation tables. The real-time and the race-averse
  class are the models of \<open>rt.c\<close> and \<open>ras.c\<close>; the stop, fair and idle classes are not in the
  repository and are parameters, as are signals, credentials, the security hooks, workqueues and
  priority inheritance. Scheduling statistics and trace points are left out.
\<close>

section \<open>Classes and services\<close>

record class_ops =
  enqueue_op :: "task \<Rightarrow> u32 \<Rightarrow> sched_state \<Rightarrow> sched_state"
  dequeue_op :: "task \<Rightarrow> u32 \<Rightarrow> sched_state \<Rightarrow> sched_state"
  yield_op :: "sched_state \<Rightarrow> sched_state"
  check_preempt_op :: "task \<Rightarrow> u32 \<Rightarrow> sched_state \<Rightarrow> sched_state"
  pick_next_op :: "sched_state \<Rightarrow> (task option \<times> sched_state) option"
  put_prev_op :: "task \<Rightarrow> sched_state \<Rightarrow> sched_state"
  set_curr_op :: "sched_state \<Rightarrow> sched_state"
  task_tick_op :: "task \<Rightarrow> sched_state \<Rightarrow> sched_state"
  task_fork_op :: "(task \<Rightarrow> sched_state \<Rightarrow> sched_state) option"
  task_move_group_op :: "(task \<Rightarrow> bool \<Rightarrow> sched_state \<Rightarrow> sched_state) option"
  switched_from_op :: "(task \<Rightarrow> sched_state \<Rightarrow> sched_state) option"
  switched_to_op :: "task \<Rightarrow> sched_state \<Rightarrow> sched_state"
  prio_changed_op :: "task \<Rightarrow> int \<Rightarrow> sched_state \<Rightarrow> sched_state"
  get_rr_interval_op :: "task \<Rightarrow> sched_state \<Rightarrow> u32 \<times> sched_state"

record cred =
  user_ns :: nat
  euid :: nat
  uid :: nat
  suid :: nat

text \<open>What the core takes from code outside the repository.\<close>

record kservices =
  kernel :: kenv
  ext_class :: "sched_class_id \<Rightarrow> class_ops"
  rq_load_weight :: "sched_state \<Rightarrow> ulong"
  capable_nice :: bool
  cred_of :: "task \<Rightarrow> cred"
  security_setscheduler :: "task \<Rightarrow> int"
  security_getscheduler :: "task \<Rightarrow> int"
  security_setnice :: "task \<Rightarrow> int \<Rightarrow> int"
  rt_mutex_getprio :: "task \<Rightarrow> sched_state \<Rightarrow> int"
  find_task_by_vpid :: "pid_t \<Rightarrow> task option"
  is_autogroup :: "tg \<Rightarrow> bool"
  wq_worker_sleeping :: "task \<Rightarrow> sched_state \<Rightarrow> task option"

definition rt_class_ops :: "kenv \<Rightarrow> class_ops" where
  "rt_class_ops env = \<lparr>enqueue_op = enqueue_task_rt, dequeue_op = dequeue_task_rt, yield_op = yield_task_rt,
     check_preempt_op = check_preempt_curr_rt, pick_next_op = pick_next_task_rt, put_prev_op = put_prev_task_rt,
     set_curr_op = set_curr_task_rt, task_tick_op = task_tick_rt env, task_fork_op = None,
     task_move_group_op = None, switched_from_op = None, switched_to_op = switched_to_rt, prio_changed_op = prio_changed_rt,
     get_rr_interval_op = (\<lambda>p s. (get_rr_interval_rt env p s, s))\<rparr>"

definition ras_class_ops :: "kenv \<Rightarrow> class_ops" where
  "ras_class_ops env = \<lparr>enqueue_op = enqueue_task_ras env, dequeue_op = dequeue_task_ras, yield_op = yield_task_ras,
     check_preempt_op = check_preempt_curr_ras, pick_next_op = (\<lambda>s. Some (pick_next_task_ras s)),
     put_prev_op = put_prev_task_ras, set_curr_op = set_curr_task_ras, task_tick_op = task_tick_ras env,
     task_fork_op = None, task_move_group_op = None, switched_from_op = None, switched_to_op = switched_to_ras,
     prio_changed_op = prio_changed_ras, get_rr_interval_op = get_rr_interval_ras env\<rparr>"

definition class_of :: "kservices \<Rightarrow> sched_class_id \<Rightarrow> class_ops" where
  "class_of K c = (case c of
     rt_sched_class \<Rightarrow> rt_class_ops (kernel K)
   | ras_sched_class \<Rightarrow> ras_class_ops (kernel K)
   | _ \<Rightarrow> ext_class K c)"

definition task_class :: "kservices \<Rightarrow> sched_state \<Rightarrow> task \<Rightarrow> class_ops" where
  "task_class K s p = class_of K (sched_class (tasks s p))"

text \<open>\<open>for_each_class\<close> follows \<open>next\<close> from \<open>sched_class_highest\<close>.\<close>

definition all_classes :: "sched_class_id list" where
  "all_classes = [stop_sched_class, rt_sched_class, ras_sched_class, fair_sched_class, idle_sched_class]"

definition PF_WQ_WORKER :: u32 where "PF_WQ_WORKER = 0x20"
definition PF_FROZEN :: u32 where "PF_FROZEN = 0x10000"

definition task_has_rt_policy :: "task_struct \<Rightarrow> bool" where
  "task_has_rt_policy t \<longleftrightarrow> rt_policy (policy t)"

definition task_contributes_to_load :: "task_struct \<Rightarrow> bool" where
  "task_contributes_to_load t \<longleftrightarrow> flag_set (tstate t) TASK_UNINTERRUPTIBLE \<and> \<not> flag_set (tflags t) PF_FROZEN"

section \<open>Clock and queueing\<close>

text \<open>No interrupt time accounting: the whole delta is task time.\<close>

definition update_rq_clock_task :: "u64 \<Rightarrow> sched_state \<Rightarrow> sched_state" where
  "update_rq_clock_task delta = upd_rq (\<lambda>r. r\<lparr>clock_task := clock_task r + delta\<rparr>)"

definition update_rq_clock :: "kservices \<Rightarrow> sched_state \<Rightarrow> sched_state" where
  "update_rq_clock K s =
     (if skip_clock_update (rq s) > 0 then s
      else
        let delta = sched_clock_cpu (kernel K) - clock (rq s)
        in update_rq_clock_task delta (upd_rq (\<lambda>r. r\<lparr>clock := clock r + delta\<rparr>) s))"

definition enqueue_task :: "kservices \<Rightarrow> task \<Rightarrow> u32 \<Rightarrow> sched_state \<Rightarrow> sched_state" where
  "enqueue_task K p flags s =
     (let s1 = update_rq_clock K s in enqueue_op (task_class K s1 p) p flags s1)"

definition dequeue_task :: "kservices \<Rightarrow> task \<Rightarrow> u32 \<Rightarrow> sched_state \<Rightarrow> sched_state" where
  "dequeue_task K p flags s =
     (let s1 = update_rq_clock K s in dequeue_op (task_class K s1 p) p flags s1)"

definition activate_task :: "kservices \<Rightarrow> task \<Rightarrow> u32 \<Rightarrow> sched_state \<Rightarrow> sched_state" where
  "activate_task K p flags s =
     (let s1 = (if task_contributes_to_load (tasks s p)
                then upd_rq (\<lambda>r. r\<lparr>nr_uninterruptible := nr_uninterruptible r - 1\<rparr>) s else s)
      in enqueue_task K p flags s1)"

definition deactivate_task :: "kservices \<Rightarrow> task \<Rightarrow> u32 \<Rightarrow> sched_state \<Rightarrow> sched_state" where
  "deactivate_task K p flags s =
     (let s1 = (if task_contributes_to_load (tasks s p)
                then upd_rq (\<lambda>r. r\<lparr>nr_uninterruptible := nr_uninterruptible r + 1\<rparr>) s else s)
      in dequeue_task K p flags s1)"

section \<open>Priorities and weights\<close>

definition WEIGHT_IDLEPRIO :: ulong where "WEIGHT_IDLEPRIO = 3"
definition WMULT_IDLEPRIO :: ulong where "WMULT_IDLEPRIO = 1431655765"

definition prio_to_weight :: "int list" where
  "prio_to_weight =
    [88761, 71755, 56483, 46273, 36291,
     29154, 23254, 18705, 14949, 11916,
     9548, 7620, 6100, 4904, 3906,
     3121, 2501, 1991, 1586, 1277,
     1024, 820, 655, 526, 423,
     335, 272, 215, 172, 137,
     110, 87, 70, 56, 45,
     36, 29, 23, 18, 15]"

definition prio_to_wmult :: "int list" where
  "prio_to_wmult =
    [48388, 59856, 76040, 92818, 118348,
     147320, 184698, 229616, 287308, 360437,
     449829, 563644, 704093, 875809, 1099582,
     1376151, 1717300, 2157191, 2708050, 3363326,
     4194304, 5237765, 6557202, 8165337, 10153587,
     12820798, 15790321, 19976592, 24970740, 31350126,
     39045157, 49367440, 61356676, 76695844, 95443717,
     119304647, 148102320, 186737708, 238609294, 286331153]"

text \<open>On 32 bits \<open>scale_load\<close> is the identity. \<open>None\<close> is a read outside the tables.\<close>

definition set_load_weight :: "task \<Rightarrow> sched_state \<Rightarrow> sched_state option" where
  "set_load_weight p s =
     (let t = tasks s p; i = static_prio t - MAX_RT_PRIO;
          set = (\<lambda>w m. upd_task p (\<lambda>t. t\<lparr>se := (se t)\<lparr>load := \<lparr>weight = w, inv_weight = m\<rparr>\<rparr>\<rparr>) s)
      in if policy t = SCHED_IDLE then Some (set WEIGHT_IDLEPRIO WMULT_IDLEPRIO)
         else if 0 \<le> i \<and> i < 40
         then Some (set (word_of_int (prio_to_weight ! nat i)) (word_of_int (prio_to_wmult ! nat i)))
         else None)"

definition normal_prio_of :: "task_struct \<Rightarrow> int" where
  "normal_prio_of t = (if task_has_rt_policy t then MAX_RT_PRIO - 1 - rt_priority t else static_prio t)"

text \<open>\<open>effective_prio\<close> stores the normal priority and returns the priority to use.\<close>

definition effective_prio :: "task \<Rightarrow> sched_state \<Rightarrow> int \<times> sched_state" where
  "effective_prio p s =
     (let s1 = upd_task p (\<lambda>t. t\<lparr>normal_prio := normal_prio_of t\<rparr>) s; t = tasks s1 p
      in (if \<not> rt_prio (prio t) then normal_prio t else prio t, s1))"

definition check_class_changed :: "kservices \<Rightarrow> task \<Rightarrow> sched_class_id \<Rightarrow> int \<Rightarrow> sched_state \<Rightarrow> sched_state" where
  "check_class_changed K p prev_class oldprio s =
     (if prev_class \<noteq> sched_class (tasks s p) then
        let s1 = (case switched_from_op (class_of K prev_class) of None \<Rightarrow> s | Some f \<Rightarrow> f p s)
        in switched_to_op (task_class K s1 p) p s1
      else if oldprio \<noteq> prio (tasks s p) then prio_changed_op (task_class K s p) p oldprio s
      else s)"

text \<open>The class of \<open>p\<close> comes before the class of the current task.\<close>

fun class_before :: "sched_class_id \<Rightarrow> sched_class_id \<Rightarrow> sched_class_id list \<Rightarrow> bool" where
  "class_before c cur [] = False"
| "class_before c cur (k # ks) = (if k = cur then False else if k = c then True else class_before c cur ks)"

definition check_preempt_curr :: "kservices \<Rightarrow> task \<Rightarrow> u32 \<Rightarrow> sched_state \<Rightarrow> sched_state" where
  "check_preempt_curr K p flags s =
     (let c = curr (rq s);
          s1 = (if sched_class (tasks s p) = sched_class (tasks s c)
                then check_preempt_op (task_class K s c) p flags s
                else if class_before (sched_class (tasks s p)) (sched_class (tasks s c)) all_classes
                then resched_task c s else s)
      in if on_rq (tasks s1 (curr (rq s1))) \<and> need_resched (tasks s1 (curr (rq s1)))
         then upd_rq (\<lambda>r. r\<lparr>skip_clock_update := 1\<rparr>) s1 else s1)"

section \<open>Waking\<close>

definition ttwu_activate :: "kservices \<Rightarrow> task \<Rightarrow> u32 \<Rightarrow> sched_state \<Rightarrow> sched_state" where
  "ttwu_activate K p flags s =
     (let s1 = upd_task p (\<lambda>t. t\<lparr>on_rq := True\<rparr>) (activate_task K p flags s)
      in if flag_set (tflags (tasks s1 p)) PF_WQ_WORKER then emit (Wq_worker_waking_up p) s1 else s1)"

definition ttwu_do_wakeup :: "kservices \<Rightarrow> task \<Rightarrow> u32 \<Rightarrow> sched_state \<Rightarrow> sched_state" where
  "ttwu_do_wakeup K p flags s = upd_task p (\<lambda>t. t\<lparr>tstate := TASK_RUNNING\<rparr>) (check_preempt_curr K p flags s)"

definition ttwu_do_activate :: "kservices \<Rightarrow> task \<Rightarrow> u32 \<Rightarrow> sched_state \<Rightarrow> sched_state" where
  "ttwu_do_activate K p flags s =
     ttwu_do_wakeup K p flags (ttwu_activate K p (ENQUEUE_WAKEUP OR ENQUEUE_WAKING) s)"

definition ttwu_remote :: "kservices \<Rightarrow> task \<Rightarrow> u32 \<Rightarrow> sched_state \<Rightarrow> bool \<times> sched_state" where
  "ttwu_remote K p flags s = (if on_rq (tasks s p) then (True, ttwu_do_wakeup K p flags s) else (False, s))"

definition ttwu_queue :: "kservices \<Rightarrow> task \<Rightarrow> sched_state \<Rightarrow> sched_state" where
  "ttwu_queue K p s = ttwu_do_activate K p 0 s"

definition try_to_wake_up :: "kservices \<Rightarrow> task \<Rightarrow> u32 \<Rightarrow> u32 \<Rightarrow> sched_state \<Rightarrow> bool \<times> sched_state" where
  "try_to_wake_up K p states flags s =
     (if \<not> flag_set (tstate (tasks s p)) states then (False, s)
      else if on_rq (tasks s p) then
        (case ttwu_remote K p flags s of (done1, s1) \<Rightarrow> if done1 then (True, s1) else (True, ttwu_queue K p s1))
      else (True, ttwu_queue K p s))"

definition try_to_wake_up_local :: "kservices \<Rightarrow> task \<Rightarrow> sched_state \<Rightarrow> sched_state" where
  "try_to_wake_up_local K p s =
     (if p = curr (rq s) then s
      else if \<not> flag_set (tstate (tasks s p)) TASK_NORMAL then s
      else
        let s1 = (if \<not> on_rq (tasks s p) then ttwu_activate K p ENQUEUE_WAKEUP s else s)
        in ttwu_do_wakeup K p 0 s1)"

definition wake_up_process :: "kservices \<Rightarrow> task \<Rightarrow> sched_state \<Rightarrow> bool \<times> sched_state" where
  "wake_up_process K p s = try_to_wake_up K p TASK_NORMAL 0 s"

definition wake_up_state :: "kservices \<Rightarrow> task \<Rightarrow> u32 \<Rightarrow> sched_state \<Rightarrow> bool \<times> sched_state" where
  "wake_up_state K p states s = try_to_wake_up K p states 0 s"

section \<open>Forking\<close>

text \<open>
  The child \<open>p\<close> starts as a copy of its parent, made by \<open>fork.c\<close>. Its entities are on no queue. On one CPU
  \<open>set_task_cpu\<close> does nothing.
\<close>

definition sched_fork1 :: "task \<Rightarrow> sched_state \<Rightarrow> sched_state" where
  "sched_fork1 p = upd_task p (\<lambda>t. t\<lparr>on_rq := False, se := (se t)\<lparr>se_on_rq := 0, exec_start := 0,
     sum_exec_runtime := 0, prev_sum_exec_runtime := 0, nr_migrations := 0, vruntime := 0, exec_max := 0\<rparr>\<rparr>)"

definition reset_on_fork :: "task \<Rightarrow> sched_state \<Rightarrow> sched_state option" where
  "reset_on_fork p s =
     (if sched_reset_on_fork (tasks s p) then
        let s1 = (if task_has_rt_policy (tasks s p)
                  then upd_task p (\<lambda>t. t\<lparr>policy := SCHED_NORMAL, static_prio := NICE_TO_PRIO 0, rt_priority := 0\<rparr>) s
                  else if PRIO_TO_NICE (static_prio (tasks s p)) < 0
                  then upd_task p (\<lambda>t. t\<lparr>static_prio := NICE_TO_PRIO 0\<rparr>) s else s);
            s2 = upd_task p (\<lambda>t. t\<lparr>prio := static_prio t, normal_prio := static_prio t\<rparr>) s1
        in map_option (upd_task p (\<lambda>t. t\<lparr>sched_reset_on_fork := False\<rparr>)) (set_load_weight p s2)
      else Some s)"

definition sched_fork :: "kservices \<Rightarrow> task \<Rightarrow> sched_state \<Rightarrow> sched_state option" where
  "sched_fork K p s =
     (let s1 = sched_fork1 p s;
          s2 = upd_task p (\<lambda>t. t\<lparr>tstate := TASK_RUNNING, prio := normal_prio (tasks s1 (curr (rq s1)))\<rparr>) s1
      in case reset_on_fork p s2 of
           None \<Rightarrow> None
         | Some s3 \<Rightarrow>
             let s4 = (if \<not> rt_prio (prio (tasks s3 p)) then upd_task p (\<lambda>t. t\<lparr>sched_class := fair_sched_class\<rparr>) s3 else s3)
             in Some (case task_fork_op (task_class K s4 p) of None \<Rightarrow> s4 | Some f \<Rightarrow> f p s4))"

definition wake_up_new_task :: "kservices \<Rightarrow> task \<Rightarrow> sched_state \<Rightarrow> sched_state" where
  "wake_up_new_task K p s =
     check_preempt_curr K p WF_FORK (upd_task p (\<lambda>t. t\<lparr>on_rq := True\<rparr>) (activate_task K p 0 s))"

section \<open>Scheduling\<close>

definition put_prev_task :: "kservices \<Rightarrow> task \<Rightarrow> sched_state \<Rightarrow> sched_state" where
  "put_prev_task K prev s =
     (let s1 = (if on_rq (tasks s prev) \<or> skip_clock_update (rq s) < 0 then update_rq_clock K s else s)
      in put_prev_op (task_class K s1 prev) prev s1)"

text \<open>\<open>None\<close> is \<open>BUG\<close>: no class has a task, or a class stops on an inconsistency.\<close>

fun pick_from :: "kservices \<Rightarrow> sched_class_id list \<Rightarrow> sched_state \<Rightarrow> (task \<times> sched_state) option" where
  "pick_from K [] s = None"
| "pick_from K (c # cs) s =
     (case pick_next_op (class_of K c) s of
        None \<Rightarrow> None
      | Some (Some p, s') \<Rightarrow> Some (p, s')
      | Some (None, s') \<Rightarrow> pick_from K cs s')"

definition pick_next_task :: "kservices \<Rightarrow> sched_state \<Rightarrow> (task \<times> sched_state) option" where
  "pick_next_task K s =
     (if nr_running (rq s) = cfs_h_nr_running (rq s) then
        case pick_next_op (class_of K fair_sched_class) s of
          None \<Rightarrow> None
        | Some (Some p, s') \<Rightarrow> Some (p, s')
        | Some (None, s') \<Rightarrow> pick_from K all_classes s'
      else pick_from K all_classes s)"

text \<open>
  The part of \<open>__schedule\<close> that decides whether the previous task sleeps; \<open>act p\<close> says that the context of \<open>p\<close>
  runs with \<open>PREEMPT_ACTIVE\<close>.
\<close>

definition sched_sleep :: "kservices \<Rightarrow> task \<Rightarrow> sched_state \<Rightarrow> sched_state" where
  "sched_sleep K prev s =
     (if signal_pending_state (tstate (tasks s prev)) (tasks s prev)
      then upd_task prev (\<lambda>t. t\<lparr>tstate := TASK_RUNNING\<rparr>) s
      else
        let s1 = upd_task prev (\<lambda>t. t\<lparr>on_rq := False\<rparr>) (deactivate_task K prev DEQUEUE_SLEEP s)
        in if flag_set (tflags (tasks s1 prev)) PF_WQ_WORKER
           then (case wq_worker_sleeping K prev s1 of None \<Rightarrow> s1 | Some w \<Rightarrow> try_to_wake_up_local K w s1)
           else s1)"

definition schedule_once :: "kservices \<Rightarrow> (task \<Rightarrow> bool) \<Rightarrow> sched_state \<Rightarrow> sched_state option" where
  "schedule_once K act s =
     (let prev = curr (rq s);
          voluntary = (tstate (tasks s prev) \<noteq> 0 \<and> \<not> act prev);
          s1 = (if voluntary then sched_sleep K prev s else s);
          s2 = put_prev_task K prev s1
      in case pick_next_task K s2 of
           None \<Rightarrow> None
         | Some (nxt, s3) \<Rightarrow>
             let s4 = upd_rq (\<lambda>r. r\<lparr>skip_clock_update := 0\<rparr>) (clear_tsk_need_resched prev s3)
             in Some (if prev \<noteq> nxt
                      then upd_task prev (\<lambda>t. if voluntary then t\<lparr>nvcsw := nvcsw t + 1\<rparr> else t\<lparr>nivcsw := nivcsw t + 1\<rparr>)
                             (upd_rq (\<lambda>r. r\<lparr>nr_switches := nr_switches r + 1, curr := nxt\<rparr>) s4)
                      else s4))"

text \<open>The loop around it; the switched-to task goes on in its own earlier call.\<close>

partial_function (option) schedule1 :: "kservices \<Rightarrow> (task \<Rightarrow> bool) \<Rightarrow> sched_state \<Rightarrow> sched_state option" where
  "schedule1 K act s =
     Option.bind (schedule_once K act s)
       (\<lambda>s'. if need_resched (tasks s' (curr (rq s'))) then schedule1 K act s' else Some s')"

definition schedule :: "kservices \<Rightarrow> sched_state \<Rightarrow> sched_state option" where
  "schedule K s = schedule1 K (\<lambda>_. False) s"

text \<open>The flag \<open>PREEMPT_ACTIVE\<close> keeps a preempted task on its queue whatever its state. The loop of
  \<open>preempt_schedule\<close> runs again while the flag is set; \<open>schedule1\<close> returns with it clear.\<close>

definition preempt_schedule :: "kservices \<Rightarrow> bool \<Rightarrow> bool \<Rightarrow> sched_state \<Rightarrow> sched_state option" where
  "preempt_schedule K preempt_count irqs_disabled s =
     (if preempt_count \<or> irqs_disabled then Some s else schedule1 K (\<lambda>p. p = curr (rq s)) s)"

definition sys_sched_yield :: "kservices \<Rightarrow> sched_state \<Rightarrow> sched_state option" where
  "sys_sched_yield K s = schedule K (yield_op (task_class K s (curr (rq s))) s)"

definition yield :: "kservices \<Rightarrow> sched_state \<Rightarrow> sched_state option" where
  "yield K s = sys_sched_yield K (upd_task (curr (rq s)) (\<lambda>t. t\<lparr>tstate := TASK_RUNNING\<rparr>) s)"

definition cond_resched :: "kservices \<Rightarrow> bool \<Rightarrow> sched_state \<Rightarrow> (bool \<times> sched_state) option" where
  "cond_resched K preempt_active s =
     (if need_resched (tasks s (curr (rq s))) \<and> \<not> preempt_active
      then map_option (Pair True) (schedule1 K (\<lambda>p. p = curr (rq s)) s)
      else Some (False, s))"

definition scheduler_tick :: "kservices \<Rightarrow> sched_state \<times> load_avg \<Rightarrow> (sched_state \<times> load_avg) option" where
  "scheduler_tick K st =
     (case st of (s, l) \<Rightarrow>
        let c = curr (rq s); s1 = update_rq_clock K s
        in map_option (\<lambda>l'. (task_tick_op (task_class K s1 c) c s1, l'))
             (update_cpu_load_active (HZ (kernel K)) (rq_load_weight K s1) (nr_running (rq s1)) (nr_uninterruptible (rq s1)) l))"

section \<open>Counters\<close>

definition nr_uninterruptible_sum :: "sched_state \<Rightarrow> ulong" where
  "nr_uninterruptible_sum s = (if sint (nr_uninterruptible (rq s)) < 0 then 0 else nr_uninterruptible (rq s))"

definition idle_cpu :: "sched_state \<Rightarrow> bool" where
  "idle_cpu s \<longleftrightarrow> curr (rq s) = idle (rq s) \<and> nr_running (rq s) = 0"

text \<open>Run time not yet accounted to a running task.\<close>

definition do_task_delta_exec :: "kservices \<Rightarrow> task \<Rightarrow> sched_state \<Rightarrow> u64 \<times> sched_state" where
  "do_task_delta_exec K p s =
     (if task_current s p then
        let s1 = update_rq_clock K s; ns = clock_task (rq s1) - exec_start (se (tasks s1 p))
        in (if sint ns < 0 then 0 else ns, s1)
      else (0, s))"

definition task_sched_runtime :: "kservices \<Rightarrow> task \<Rightarrow> sched_state \<Rightarrow> u64 \<times> sched_state" where
  "task_sched_runtime K p s =
     (let a = sum_exec_runtime (se (tasks s p)) in
      case do_task_delta_exec K p s of (ns, s1) \<Rightarrow> (a + ns, s1))"

end
