(* ===== verification/Core_Prio.thy ===== *)
theory Core_Prio
  imports Core_Sched
begin

text \<open>
  The operations of \<open>core.c\<close> that change the priority, the policy or the group of a task, and the
  system calls that end in them. A result is \<open>None\<close> when the priority tables would be read out of
  range; otherwise it is the return code, negative for an error, and the state. The second look at
  the policy under the run queue lock guards against a concurrent caller and never differs here.
\<close>

section \<open>Changing the priority\<close>

text \<open>Take a queued task off its queue and a running one out of its class, change it, and undo this.\<close>

definition suspend_task :: "kservices \<Rightarrow> task \<Rightarrow> bool \<Rightarrow> bool \<Rightarrow> sched_state \<Rightarrow> sched_state" where
  "suspend_task K p queued running s =
     (let s1 = (if queued then dequeue_task K p 0 s else s)
      in if running then put_prev_op (task_class K s1 p) p s1 else s1)"

definition resume_task :: "kservices \<Rightarrow> task \<Rightarrow> u32 \<Rightarrow> bool \<Rightarrow> bool \<Rightarrow> sched_state \<Rightarrow> sched_state" where
  "resume_task K p flags queued running s =
     (let s1 = (if running then set_curr_op (task_class K s p) s else s)
      in if queued then enqueue_task K p flags s1 else s1)"

definition class_for :: "int \<Rightarrow> int \<Rightarrow> sched_class_id" where
  "class_for pol pr =
     (if pol = SCHED_RAS then ras_sched_class else if rt_prio pr then rt_sched_class else fair_sched_class)"

text \<open>\<open>None\<close> is \<open>BUG_ON\<close>.\<close>

definition rt_mutex_setprio :: "kservices \<Rightarrow> task \<Rightarrow> int \<Rightarrow> sched_state \<Rightarrow> sched_state option" where
  "rt_mutex_setprio K p pr s =
     (if pr < 0 \<or> pr > MAX_PRIO then None
      else if p = idle (rq s) then Some s
      else
        let oldprio = prio (tasks s p); prev_class = sched_class (tasks s p);
            queued = on_rq (tasks s p); running = task_current s p;
            s1 = suspend_task K p queued running s;
            s2 = upd_task p (\<lambda>t. t\<lparr>sched_class := class_for (policy t) pr, prio := pr\<rparr>) s1;
            s3 = resume_task K p (if oldprio < pr then ENQUEUE_HEAD else 0) queued running s2
        in Some (check_class_changed K p prev_class oldprio s3))"

definition TASK_NICE :: "task_struct \<Rightarrow> int" where
  "TASK_NICE t = PRIO_TO_NICE (static_prio t)"

definition set_user_nice :: "kservices \<Rightarrow> task \<Rightarrow> int \<Rightarrow> sched_state \<Rightarrow> sched_state option" where
  "set_user_nice K p nice s =
     (if TASK_NICE (tasks s p) = nice \<or> nice < - 20 \<or> nice > 19 then Some s
      else if task_has_rt_policy (tasks s p) then Some (upd_task p (\<lambda>t. t\<lparr>static_prio := NICE_TO_PRIO nice\<rparr>) s)
      else
        let queued = on_rq (tasks s p);
            s1 = (if queued then dequeue_task K p 0 s else s)
        in case set_load_weight p (upd_task p (\<lambda>t. t\<lparr>static_prio := NICE_TO_PRIO nice\<rparr>) s1) of
             None \<Rightarrow> None
           | Some s2 \<Rightarrow>
               (case effective_prio p s2 of
                  (pr, s3) \<Rightarrow>
                    let delta = pr - prio (tasks s2 p);
                        s4 = upd_task p (\<lambda>t. t\<lparr>prio := pr\<rparr>) s3
                    in Some (if queued then
                               let s5 = enqueue_task K p 0 s4
                               in if delta < 0 \<or> (delta > 0 \<and> task_current s5 p)
                                  then resched_task (curr (rq s5)) s5 else s5
                             else s4)))"

definition can_nice :: "kservices \<Rightarrow> task_struct \<Rightarrow> int \<Rightarrow> bool" where
  "can_nice K t nice \<longleftrightarrow> (word_of_int (20 - nice) :: ulong) \<le> task_rlimit t RLIMIT_NICE \<or> capable_nice K"

definition sys_nice :: "kservices \<Rightarrow> int \<Rightarrow> sched_state \<Rightarrow> (int \<times> sched_state) option" where
  "sys_nice K increment s =
     (let c = curr (rq s); t = tasks s c;
          inc1 = (if increment < - 40 then - 40 else increment);
          inc2 = (if inc1 > 40 then 40 else inc1);
          n1 = TASK_NICE t + inc2;
          n2 = (if n1 < - 20 then - 20 else n1);
          nice = (if n2 > 19 then 19 else n2)
      in if inc2 < 0 \<and> \<not> can_nice K t nice then Some (- EPERM, s)
         else if security_setnice K c nice \<noteq> 0 then Some (security_setnice K c nice, s)
         else map_option (Pair 0) (set_user_nice K c nice s))"

definition task_prio :: "task_struct \<Rightarrow> int" where
  "task_prio t = prio t - MAX_RT_PRIO"

definition find_process_by_pid :: "kservices \<Rightarrow> sched_state \<Rightarrow> pid_t \<Rightarrow> task option" where
  "find_process_by_pid K s n = (if n \<noteq> 0 then find_task_by_vpid K n else Some (curr (rq s)))"

section \<open>Changing the policy\<close>

definition setscheduler :: "kservices \<Rightarrow> task \<Rightarrow> int \<Rightarrow> int \<Rightarrow> sched_state \<Rightarrow> sched_state option" where
  "setscheduler K p pol pr s =
     (let s1 = upd_task p (\<lambda>t. t\<lparr>policy := pol, rt_priority := pr\<rparr>) s;
          s2 = upd_task p (\<lambda>t. t\<lparr>normal_prio := normal_prio_of t\<rparr>) s1;
          s3 = upd_task p (\<lambda>t. t\<lparr>prio := rt_mutex_getprio K p s2\<rparr>) s2;
          s4 = upd_task p (\<lambda>t. t\<lparr>sched_class := class_for pol (prio t)\<rparr>) s3
      in set_load_weight p s4)"

definition check_same_owner :: "kservices \<Rightarrow> task \<Rightarrow> sched_state \<Rightarrow> bool" where
  "check_same_owner K p s =
     (let c = cred_of K (curr (rq s)); pc = cred_of K p in
      if user_ns c = user_ns pc then euid c = euid pc \<or> euid c = uid pc else False)"

definition valid_policy :: "int \<Rightarrow> bool" where
  "valid_policy pol \<longleftrightarrow> pol = SCHED_FIFO \<or> pol = SCHED_RR \<or> pol = SCHED_NORMAL \<or> pol = SCHED_BATCH \<or>
     pol = SCHED_IDLE \<or> pol = SCHED_RAS"

text \<open>The policy and the reset flag a caller asks for; a negative policy keeps both.\<close>

definition requested_policy :: "task_struct \<Rightarrow> int \<Rightarrow> int \<times> bool" where
  "requested_policy t pol =
     (if pol < 0 then (policy t, sched_reset_on_fork t)
      else (pol AND NOT SCHED_RESET_ON_FORK, pol AND SCHED_RESET_ON_FORK \<noteq> 0))"

definition setscheduler_denied :: "kservices \<Rightarrow> task \<Rightarrow> int \<Rightarrow> int \<Rightarrow> bool \<Rightarrow> sched_state \<Rightarrow> bool" where
  "setscheduler_denied K p pol pr reset s =
     (let t = tasks s p; rlim = uint (task_rlimit t RLIMIT_RTPRIO) in
      (rt_policy pol \<and> (pol \<noteq> policy t \<and> rlim = 0 \<or> pr > rt_priority t \<and> pr > rlim)) \<or>
      (policy t = SCHED_IDLE \<and> pol \<noteq> SCHED_IDLE \<and> \<not> can_nice K t (TASK_NICE t)) \<or>
      \<not> check_same_owner K p s \<or>
      (sched_reset_on_fork t \<and> \<not> reset))"

definition change_scheduler :: "kservices \<Rightarrow> task \<Rightarrow> int \<Rightarrow> int \<Rightarrow> bool \<Rightarrow> sched_state \<Rightarrow> (int \<times> sched_state) option" where
  "change_scheduler K p pol pr reset s =
     (let queued = on_rq (tasks s p); running = task_current s p;
          s1 = suspend_task K p queued running s;
          s2 = upd_task p (\<lambda>t. t\<lparr>sched_reset_on_fork := reset\<rparr>) s1;
          oldprio = prio (tasks s2 p); prev_class = sched_class (tasks s2 p)
      in case setscheduler K p pol pr s2 of
           None \<Rightarrow> None
         | Some s3 \<Rightarrow>
             let s4 = check_class_changed K p prev_class oldprio (resume_task K p 0 queued running s3)
             in Some (0, emit (Rt_mutex_adjust_pi p) s4))"

definition sched_setscheduler1 :: "kservices \<Rightarrow> task \<Rightarrow> int \<Rightarrow> int \<Rightarrow> bool \<Rightarrow> sched_state \<Rightarrow> (int \<times> sched_state) option" where
  "sched_setscheduler1 K p asked pr user s =
     (let t = tasks s p; pol = fst (requested_policy t asked); reset = snd (requested_policy t asked) in
      if 0 \<le> asked \<and> \<not> valid_policy pol then Some (- EINVAL, s)
      else if pr < 0 \<or> (has_mm t \<and> pr > MAX_USER_RT_PRIO - 1) \<or> (\<not> has_mm t \<and> pr > MAX_RT_PRIO - 1)
      then Some (- EINVAL, s)
      else if rt_policy pol \<noteq> (pr \<noteq> 0) then Some (- EINVAL, s)
      else if user \<and> \<not> capable_nice K \<and> setscheduler_denied K p pol pr reset s then Some (- EPERM, s)
      else if user \<and> security_setscheduler K p \<noteq> 0 then Some (security_setscheduler K p, s)
      else if stop (rq s) = Some p then Some (- EINVAL, s)
      else if pol = policy t \<and> (\<not> rt_policy pol \<or> pr = rt_priority t) then Some (0, s)
      else if user \<and> rt_bandwidth_enabled s \<and> rt_policy pol \<and>
        rt_b_runtime (tg_rt_bandwidth (tgs s (sched_task_group t))) = 0 \<and> \<not> is_autogroup K (sched_task_group t)
      then Some (- EPERM, s)
      else change_scheduler K p pol pr reset s)"

definition sched_setscheduler :: "kservices \<Rightarrow> task \<Rightarrow> int \<Rightarrow> int \<Rightarrow> sched_state \<Rightarrow> (int \<times> sched_state) option" where
  "sched_setscheduler K p pol pr s = sched_setscheduler1 K p pol pr True s"

definition sched_setscheduler_nocheck :: "kservices \<Rightarrow> task \<Rightarrow> int \<Rightarrow> int \<Rightarrow> sched_state \<Rightarrow> (int \<times> sched_state) option" where
  "sched_setscheduler_nocheck K p pol pr s = sched_setscheduler1 K p pol pr False s"

text \<open>A user pointer is \<open>None\<close> when null and \<open>Some None\<close> when it cannot be read.\<close>

definition do_sched_setscheduler :: "kservices \<Rightarrow> pid_t \<Rightarrow> int \<Rightarrow> int option option \<Rightarrow> sched_state \<Rightarrow> (int \<times> sched_state) option" where
  "do_sched_setscheduler K n pol param s =
     (case param of
        None \<Rightarrow> Some (- EINVAL, s)
      | Some lparam \<Rightarrow>
          if n < 0 then Some (- EINVAL, s)
          else (case lparam of
             None \<Rightarrow> Some (- EFAULT, s)
           | Some pr \<Rightarrow> (case find_process_by_pid K s n of
                None \<Rightarrow> Some (- ESRCH, s)
              | Some p \<Rightarrow> sched_setscheduler K p pol pr s)))"

definition sys_sched_setscheduler :: "kservices \<Rightarrow> pid_t \<Rightarrow> int \<Rightarrow> int option option \<Rightarrow> sched_state \<Rightarrow> (int \<times> sched_state) option" where
  "sys_sched_setscheduler K n pol param s =
     (if pol < 0 then Some (- EINVAL, s) else do_sched_setscheduler K n pol param s)"

definition sys_sched_setparam :: "kservices \<Rightarrow> pid_t \<Rightarrow> int option option \<Rightarrow> sched_state \<Rightarrow> (int \<times> sched_state) option" where
  "sys_sched_setparam K n param s = do_sched_setscheduler K n (- 1) param s"

definition sys_sched_getscheduler :: "kservices \<Rightarrow> pid_t \<Rightarrow> sched_state \<Rightarrow> int" where
  "sys_sched_getscheduler K n s =
     (if n < 0 then - EINVAL
      else case find_process_by_pid K s n of
        None \<Rightarrow> - ESRCH
      | Some p \<Rightarrow> if security_getscheduler K p \<noteq> 0 then security_getscheduler K p
                 else policy (tasks s p) OR (if sched_reset_on_fork (tasks s p) then SCHED_RESET_ON_FORK else 0))"

text \<open>The value copied out, when the copy succeeds (\<open>writable\<close>).\<close>

definition sys_sched_getparam :: "kservices \<Rightarrow> pid_t \<Rightarrow> bool option \<Rightarrow> sched_state \<Rightarrow> int \<times> int option" where
  "sys_sched_getparam K n param s =
     (case param of
        None \<Rightarrow> (- EINVAL, None)
      | Some writable \<Rightarrow>
          if n < 0 then (- EINVAL, None)
          else (case find_process_by_pid K s n of
             None \<Rightarrow> (- ESRCH, None)
           | Some p \<Rightarrow> if security_getscheduler K p \<noteq> 0 then (security_getscheduler K p, None)
                      else if writable then (0, Some (rt_priority (tasks s p))) else (- EFAULT, None)))"

definition sys_sched_get_priority_max :: "int \<Rightarrow> int" where
  "sys_sched_get_priority_max pol =
     (if pol = SCHED_FIFO \<or> pol = SCHED_RR then MAX_USER_RT_PRIO - 1
      else if pol = SCHED_NORMAL \<or> pol = SCHED_BATCH \<or> pol = SCHED_IDLE \<or> pol = SCHED_RAS then 0
      else - EINVAL)"

definition sys_sched_get_priority_min :: "int \<Rightarrow> int" where
  "sys_sched_get_priority_min pol =
     (if pol = SCHED_FIFO \<or> pol = SCHED_RR then 1
      else if pol = SCHED_NORMAL \<or> pol = SCHED_BATCH \<or> pol = SCHED_IDLE \<or> pol = SCHED_RAS then 0
      else - EINVAL)"

text \<open>The slice in ticks that is converted and copied to the caller.\<close>

definition sys_sched_rr_get_interval :: "kservices \<Rightarrow> pid_t \<Rightarrow> bool \<Rightarrow> sched_state \<Rightarrow> (int \<times> u32 option) \<times> sched_state" where
  "sys_sched_rr_get_interval K n writable s =
     (if n < 0 then ((- EINVAL, None), s)
      else case find_process_by_pid K s n of
        None \<Rightarrow> ((- ESRCH, None), s)
      | Some p \<Rightarrow> if security_getscheduler K p \<noteq> 0 then ((security_getscheduler K p, None), s)
                 else (case get_rr_interval_op (task_class K s p) p s of
                   (ts, s1) \<Rightarrow> (if writable then (0, Some ts) else (- EFAULT, None), s1)))"

section \<open>Groups and the stop task\<close>

text \<open>\<open>sched_move_task\<close>: \<open>g\<close> is the group the control group code puts the task in.\<close>

definition sched_move_task :: "kservices \<Rightarrow> task \<Rightarrow> tg \<Rightarrow> sched_state \<Rightarrow> sched_state" where
  "sched_move_task K p g s =
     (let running = task_current s p; queued = on_rq (tasks s p);
          s1 = suspend_task K p queued running s;
          s2 = upd_task p (\<lambda>t. t\<lparr>sched_task_group := g\<rparr>) s1;
          s3 = (case task_move_group_op (task_class K s2 p) of None \<Rightarrow> set_task_rq p s2 | Some f \<Rightarrow> f p queued s2)
      in resume_task K p 0 queued running s3)"

definition sched_set_stop_task :: "kservices \<Rightarrow> task option \<Rightarrow> sched_state \<Rightarrow> sched_state option" where
  "sched_set_stop_task K stp s =
     (let old_stop = stop (rq s);
          s1 = (case stp of
                  None \<Rightarrow> Some s
                | Some p \<Rightarrow> map_option (\<lambda>r. upd_task p (\<lambda>t. t\<lparr>sched_class := stop_sched_class\<rparr>) (snd r))
                             (sched_setscheduler_nocheck K p SCHED_FIFO (MAX_RT_PRIO - 1) s))
      in map_option (\<lambda>st.
           let s2 = upd_rq (\<lambda>r. r\<lparr>stop := stp\<rparr>) st
           in case old_stop of None \<Rightarrow> s2 | Some o1 \<Rightarrow> upd_task o1 (\<lambda>t. t\<lparr>sched_class := rt_sched_class\<rparr>) s2) s1)"

end
