(* ===== verification/Rt_Bandwidth.thy ===== *)
theory Rt_Bandwidth
  imports Core_Prio
begin

text \<open>
  The tree of task groups and the admission control of real-time bandwidth, \<open>kernel/sched/core.c\<close>: the walk over
  the tree, creating and destroying groups, setting the period and the runtime of a group, the global limit under
  \<open>/proc/sys/kernel\<close>, and the operations that the \<open>cpu\<close> control group subsystem calls. The subsystem itself, the fair
  half of a group and the parsing of the files are outside: what they return is an argument. A \<open>long\<close> is 32 bits wide.
\<close>

section \<open>The walk over the task groups\<close>

text \<open>A visitor gets the group and the data behind the \<open>void\<close> pointer and returns its code and the data.\<close>

type_synonym 'd tg_visitor = "tg \<Rightarrow> 'd \<Rightarrow> int \<times> 'd"

text \<open>\<open>list_for_each_entry_rcu\<close>: the group after \<open>c\<close> on the list of siblings.\<close>

definition sibling_after :: "tg \<Rightarrow> tg list \<Rightarrow> tg option" where
  "sibling_after c xs = (case dropWhile (\<lambda>x. x \<noteq> c) xs of _ # y # _ \<Rightarrow> Some y | _ \<Rightarrow> None)"

text \<open>The two points the walk jumps between: label \<open>down\<close>, and the end of the loop over the children.\<close>

datatype walk_at = Down tg | Leave tg

partial_function (option) walk_loop ::
    "sched_state \<Rightarrow> tg \<Rightarrow> 'd tg_visitor \<Rightarrow> 'd tg_visitor \<Rightarrow> walk_at \<Rightarrow> 'd \<Rightarrow> (int \<times> 'd) option" where
  "walk_loop s from down up at d =
     (case at of
        Down parent \<Rightarrow>
          (case down parent d of (ret, d1) \<Rightarrow>
             if ret \<noteq> 0 then Some (ret, d1)
             else (case tg_children (tgs s parent) of
                     [] \<Rightarrow> walk_loop s from down up (Leave parent) d1
                   | child # _ \<Rightarrow> walk_loop s from down up (Down child) d1))
      | Leave parent \<Rightarrow>
          (case up parent d of (ret, d1) \<Rightarrow>
             if ret \<noteq> 0 \<or> parent = from then Some (ret, d1)
             else (case tg_parent (tgs s parent) of
                     None \<Rightarrow> Some (ret, d1)
                   | Some g \<Rightarrow> (case sibling_after parent (tg_children (tgs s g)) of
                       Some child \<Rightarrow> walk_loop s from down up (Down child) d1
                     | None \<Rightarrow> walk_loop s from down up (Leave g) d1))))"

definition walk_tg_tree_from ::
    "sched_state \<Rightarrow> tg \<Rightarrow> 'd tg_visitor \<Rightarrow> 'd tg_visitor \<Rightarrow> 'd \<Rightarrow> (int \<times> 'd) option" where
  "walk_tg_tree_from s from down up d = walk_loop s from down up (Down from) d"

definition walk_tg_tree :: "sched_state \<Rightarrow> 'd tg_visitor \<Rightarrow> 'd tg_visitor \<Rightarrow> 'd \<Rightarrow> (int \<times> 'd) option" where
  "walk_tg_tree s down up d = walk_tg_tree_from s root_task_group down up d"

definition tg_nop :: "'d tg_visitor" where
  "tg_nop g d = (0, d)"

section \<open>Groups\<close>

text \<open>What \<open>kzalloc\<close> returns.\<close>

definition zero_tg :: task_group where
  "zero_tg = \<lparr>tg_rt_se = None, tg_rt_bandwidth = \<lparr>rt_period = 0, rt_b_runtime = 0, rt_timer_active = False\<rparr>,
     tg_parent = None, tg_children = [], tg_cgroup = None\<rparr>"

definition upd_tg :: "tg \<Rightarrow> (task_group \<Rightarrow> task_group) \<Rightarrow> sched_state \<Rightarrow> sched_state" where
  "upd_tg g f s = s\<lparr>tgs := (tgs s)(g := f (tgs s g))\<rparr>"

text \<open>The new group \<open>g\<close>; the flags say whether the memory for the group, its fair half and its real-time half is there.\<close>

definition sched_create_group :: "bool \<Rightarrow> bool \<Rightarrow> bool \<Rightarrow> tg \<Rightarrow> tg \<Rightarrow> sched_state \<Rightarrow> (errno + tg) \<times> sched_state" where
  "sched_create_group mem fair_mem rt_mem g parent s =
     (if \<not> mem then (Inl (- ENOMEM), s)
      else
        let s1 = upd_tg g (\<lambda>_. zero_tg) s in
        if \<not> fair_mem then (Inl (- ENOMEM), s1)
        else (case alloc_rt_sched_group rt_mem g parent s1 of (ret, s2) \<Rightarrow>
          if ret = 0 then (Inl (- ENOMEM), s2)
          else (Inr g, upd_tg parent (\<lambda>x. x\<lparr>tg_children := list_add g (tg_children x)\<rparr>)
                 (upd_tg g (\<lambda>x. x\<lparr>tg_parent := Some parent, tg_children := []\<rparr>)
                   (s2\<lparr>task_groups := list_add g (task_groups s2)\<rparr>)))))"

definition sched_destroy_group :: "tg \<Rightarrow> sched_state \<Rightarrow> sched_state" where
  "sched_destroy_group g s =
     (let s1 = s\<lparr>task_groups := list_del_init g (task_groups s)\<rparr>
      in case tg_parent (tgs s g) of
           None \<Rightarrow> s1
         | Some p \<Rightarrow> upd_tg p (\<lambda>x. x\<lparr>tg_children := list_del_init g (tg_children x)\<rparr>) s1)"

section \<open>Limits\<close>

definition NSEC_PER_USEC :: u64 where "NSEC_PER_USEC = 1000"

definition global_rt_period :: "sched_state \<Rightarrow> u64" where
  "global_rt_period s = word_of_int (sysctl_sched_rt_period s) * NSEC_PER_USEC"

definition global_rt_runtime :: "sched_state \<Rightarrow> u64" where
  "global_rt_runtime s =
     (if sysctl_sched_rt_runtime s < 0 then RUNTIME_INF else word_of_int (sysctl_sched_rt_runtime s) * NSEC_PER_USEC)"

text \<open>The groups' part of \<open>sched_init\<close>.\<close>

definition init_root_group :: "sched_state \<Rightarrow> sched_state" where
  "init_root_group s =
     (let b = init_rt_bandwidth (global_rt_period s) (global_rt_runtime s) in
      upd_tg root_task_group (\<lambda>x. x\<lparr>tg_rt_bandwidth := b, tg_children := []\<rparr>)
        (s\<lparr>def_rt_bandwidth := b, task_groups := list_add root_task_group []\<rparr>))"

text \<open>The share of the processor in units of \<open>2 ^ 20\<close>; the quotient is cut to 32 bits.\<close>

definition to_ratio :: "u64 \<Rightarrow> u64 \<Rightarrow> ulong" where
  "to_ratio period runtime =
     (if runtime = RUNTIME_INF then push_bit 20 1 else ucast (push_bit 20 runtime div period))"

text \<open>\<open>threads\<close> are the tasks that \<open>do_each_thread\<close> visits; the run queue of each is the only one.\<close>

definition tg_has_rt_tasks :: "task list \<Rightarrow> tg \<Rightarrow> sched_state \<Rightarrow> bool" where
  "tg_has_rt_tasks threads g s \<longleftrightarrow>
     list_ex (\<lambda>p. rt_task (tasks s p) \<and> rt_rq_tg (rt_rqs s root_task_group) = Some g) threads"

record rt_schedulable_data =
  rsd_tg :: "tg option"
  rsd_period :: u64
  rsd_runtime :: u64

text \<open>The period and the runtime that group \<open>g\<close> has or is going to have.\<close>

definition planned_period :: "sched_state \<Rightarrow> rt_schedulable_data \<Rightarrow> tg \<Rightarrow> u64" where
  "planned_period s d g = (if rsd_tg d = Some g then rsd_period d else rt_period (tg_rt_bandwidth (tgs s g)))"

definition planned_runtime :: "sched_state \<Rightarrow> rt_schedulable_data \<Rightarrow> tg \<Rightarrow> u64" where
  "planned_runtime s d g = (if rsd_tg d = Some g then rsd_runtime d else rt_b_runtime (tg_rt_bandwidth (tgs s g)))"

abbreviation (input) EBUSY :: errno where "EBUSY \<equiv> 16"

definition tg_rt_schedulable :: "task list \<Rightarrow> sched_state \<Rightarrow> rt_schedulable_data tg_visitor" where
  "tg_rt_schedulable threads s g d =
     (let period = planned_period s d g; runtime = planned_runtime s d g; total = to_ratio period runtime
      in if runtime > period \<and> runtime \<noteq> RUNTIME_INF then (- EINVAL, d)
         else if rt_bandwidth_enabled s \<and> runtime = 0 \<and> tg_has_rt_tasks threads g s then (- EBUSY, d)
         else if total > to_ratio (global_rt_period s) (global_rt_runtime s) then (- EINVAL, d)
         else if (\<Sum>c\<leftarrow>tg_children (tgs s g). to_ratio (planned_period s d c) (planned_runtime s d c)) > total
         then (- EINVAL, d)
         else (0, d))"

definition rt_schedulable :: "task list \<Rightarrow> tg option \<Rightarrow> u64 \<Rightarrow> u64 \<Rightarrow> sched_state \<Rightarrow> int option" where
  "rt_schedulable threads g period runtime s =
     map_option fst (walk_tg_tree s (tg_rt_schedulable threads s) tg_nop
       \<lparr>rsd_tg = g, rsd_period = period, rsd_runtime = runtime\<rparr>)"

section \<open>Setting the bandwidth of a group\<close>

definition tg_set_rt_bandwidth :: "task list \<Rightarrow> tg \<Rightarrow> u64 \<Rightarrow> u64 \<Rightarrow> sched_state \<Rightarrow> (int \<times> sched_state) option" where
  "tg_set_rt_bandwidth threads g period runtime s =
     (case rt_schedulable threads (Some g) period runtime s of
        None \<Rightarrow> None
      | Some err \<Rightarrow> Some (if err \<noteq> 0 then (err, s)
          else (err, upd_rt_rq g (\<lambda>r. r\<lparr>rt_runtime := runtime\<rparr>)
                 (upd_tg g (\<lambda>x. x\<lparr>tg_rt_bandwidth := (tg_rt_bandwidth x)\<lparr>rt_period := period, rt_b_runtime := runtime\<rparr>\<rparr>) s))))"

definition sched_group_set_rt_runtime :: "task list \<Rightarrow> tg \<Rightarrow> 32 word \<Rightarrow> sched_state \<Rightarrow> (int \<times> sched_state) option" where
  "sched_group_set_rt_runtime threads g rt_runtime_us s =
     tg_set_rt_bandwidth threads g (rt_period (tg_rt_bandwidth (tgs s g)))
       (if sint rt_runtime_us < 0 then RUNTIME_INF else scast rt_runtime_us * NSEC_PER_USEC) s"

definition sched_group_rt_runtime :: "tg \<Rightarrow> sched_state \<Rightarrow> 32 word" where
  "sched_group_rt_runtime g s =
     (let r = rt_b_runtime (tg_rt_bandwidth (tgs s g))
      in if r = RUNTIME_INF then - 1 else ucast (r div NSEC_PER_USEC))"

definition sched_group_set_rt_period :: "task list \<Rightarrow> tg \<Rightarrow> 32 word \<Rightarrow> sched_state \<Rightarrow> (int \<times> sched_state) option" where
  "sched_group_set_rt_period threads g rt_period_us s =
     (let period = scast rt_period_us * NSEC_PER_USEC
      in if period = 0 then Some (- EINVAL, s)
         else tg_set_rt_bandwidth threads g period (rt_b_runtime (tg_rt_bandwidth (tgs s g))) s)"

definition sched_group_rt_period :: "tg \<Rightarrow> sched_state \<Rightarrow> 32 word" where
  "sched_group_rt_period g s = ucast (rt_period (tg_rt_bandwidth (tgs s g)) div NSEC_PER_USEC)"

section \<open>The global limit\<close>

definition sched_rt_global_constraints :: "task list \<Rightarrow> sched_state \<Rightarrow> int option" where
  "sched_rt_global_constraints threads s =
     (if sysctl_sched_rt_period s \<le> 0 then Some (- EINVAL)
      else if global_rt_runtime s > global_rt_period s \<and> global_rt_runtime s \<noteq> RUNTIME_INF then Some (- EINVAL)
      else rt_schedulable threads None 0 0 s)"

text \<open>
  \<open>proc_dointvec\<close> parses the user's buffer: \<open>ret0\<close> is its return code, \<open>period\<close> and \<open>runtime\<close> are the two settings
  after it.
\<close>

definition sched_rt_handler :: "task list \<Rightarrow> bool \<Rightarrow> int \<Rightarrow> int \<Rightarrow> int \<Rightarrow> sched_state \<Rightarrow> (int \<times> sched_state) option" where
  "sched_rt_handler threads write ret0 period runtime s =
     (let s1 = s\<lparr>sysctl_sched_rt_period := period, sysctl_sched_rt_runtime := runtime\<rparr>
      in if ret0 = 0 \<and> write then
           (case sched_rt_global_constraints threads s1 of
              None \<Rightarrow> None
            | Some ret \<Rightarrow>
                Some (ret,
                  if ret \<noteq> 0
                  then s1\<lparr>sysctl_sched_rt_period := sysctl_sched_rt_period s, sysctl_sched_rt_runtime := sysctl_sched_rt_runtime s\<rparr>
                  else s1\<lparr>def_rt_bandwidth := (def_rt_bandwidth s1)\<lparr>rt_b_runtime := global_rt_runtime s1,
                         rt_period := global_rt_period s1\<rparr>\<rparr>))
         else Some (ret0, s1))"

section \<open>The control group subsystem\<close>

definition sched_rt_can_attach :: "tg \<Rightarrow> task \<Rightarrow> sched_state \<Rightarrow> bool" where
  "sched_rt_can_attach g p s \<longleftrightarrow> \<not> (rt_task (tasks s p) \<and> rt_b_runtime (tg_rt_bandwidth (tgs s g)) = 0)"

text \<open>\<open>parent\<close> is the group of the parent control group; the top control group has none.\<close>

definition cpu_cgroup_create :: "bool \<Rightarrow> bool \<Rightarrow> bool \<Rightarrow> tg \<Rightarrow> tg option \<Rightarrow> sched_state \<Rightarrow> (errno + tg) \<times> sched_state" where
  "cpu_cgroup_create mem fair_mem rt_mem g parent s =
     (case parent of
        None \<Rightarrow> (Inr root_task_group, s)
      | Some p \<Rightarrow> (case sched_create_group mem fair_mem rt_mem g p s of
           (Inl _, s1) \<Rightarrow> (Inl (- ENOMEM), s1)
         | (Inr h, s1) \<Rightarrow> (Inr h, s1)))"

definition cpu_cgroup_destroy :: "tg \<Rightarrow> sched_state \<Rightarrow> sched_state" where
  "cpu_cgroup_destroy g s = sched_destroy_group g s"

fun cpu_cgroup_allow_attach :: "kservices \<Rightarrow> task list \<Rightarrow> sched_state \<Rightarrow> int" where
  "cpu_cgroup_allow_attach K [] s = 0"
| "cpu_cgroup_allow_attach K (p # ps) s =
     (let c = curr (rq s) in
      if c \<noteq> p \<and> \<not> capable_nice K \<and> euid (cred_of K c) \<noteq> uid (cred_of K p) \<and> euid (cred_of K c) \<noteq> suid (cred_of K p)
      then - EACCES
      else cpu_cgroup_allow_attach K ps s)"

fun cpu_cgroup_can_attach :: "tg \<Rightarrow> task list \<Rightarrow> sched_state \<Rightarrow> int" where
  "cpu_cgroup_can_attach g [] s = 0"
| "cpu_cgroup_can_attach g (p # ps) s =
     (if \<not> sched_rt_can_attach g p s then - EINVAL else cpu_cgroup_can_attach g ps s)"

definition cpu_cgroup_attach :: "kservices \<Rightarrow> tg \<Rightarrow> task list \<Rightarrow> sched_state \<Rightarrow> sched_state" where
  "cpu_cgroup_attach K g ps s = fold (\<lambda>p. sched_move_task K p g) ps s"

definition PF_EXITING :: u32 where "PF_EXITING = 4"

definition cpu_cgroup_exit :: "kservices \<Rightarrow> tg \<Rightarrow> task \<Rightarrow> sched_state \<Rightarrow> sched_state" where
  "cpu_cgroup_exit K g p s = (if \<not> flag_set (tflags (tasks s p)) PF_EXITING then s else sched_move_task K p g s)"

text \<open>The files of a group; a 64-bit number is passed on as a \<open>long\<close>.\<close>

definition cpu_rt_runtime_write :: "task list \<Rightarrow> tg \<Rightarrow> 64 word \<Rightarrow> sched_state \<Rightarrow> (int \<times> sched_state) option" where
  "cpu_rt_runtime_write threads g v s = sched_group_set_rt_runtime threads g (ucast v) s"

definition cpu_rt_runtime_read :: "tg \<Rightarrow> sched_state \<Rightarrow> 64 word" where
  "cpu_rt_runtime_read g s = scast (sched_group_rt_runtime g s)"

definition cpu_rt_period_write_uint :: "task list \<Rightarrow> tg \<Rightarrow> 64 word \<Rightarrow> sched_state \<Rightarrow> (int \<times> sched_state) option" where
  "cpu_rt_period_write_uint threads g v s = sched_group_set_rt_period threads g (ucast v) s"

definition cpu_rt_period_read_uint :: "tg \<Rightarrow> sched_state \<Rightarrow> 64 word" where
  "cpu_rt_period_read_uint g s = scast (sched_group_rt_period g s)"

end
