(* ===== verification/Rt_Bandwidth_Proofs.thy ===== *)
theory Rt_Bandwidth_Proofs
  imports Rt_Bandwidth Sched_Examples
begin

text \<open>
  The walk over the task groups, a loop with jumps, ends, visits every group once in the order of a recursive
  traversal and stops at the first error.
\<close>

section \<open>The tree of the groups\<close>

datatype tg_tree = Node tg "tg_tree list"

primrec tree_root :: "tg_tree \<Rightarrow> tg" where
  "tree_root (Node g ts) = g"

fun tree_nodes :: "tg_tree \<Rightarrow> tg list" where
  "tree_nodes (Node g ts) = g # concat (map tree_nodes ts)"

text \<open>The child and parent links below a group spell the tree.\<close>

fun tree_rep :: "sched_state \<Rightarrow> tg_tree \<Rightarrow> bool" where
  "tree_rep s (Node g ts) \<longleftrightarrow> tg_children (tgs s g) = map tree_root ts \<and> distinct (map tree_root ts) \<and>
     (\<forall>t \<in> set ts. tg_parent (tgs s (tree_root t)) = Some g \<and> g < tree_root t \<and> tree_rep s t)"

text \<open>The links of the groups in \<open>task_groups\<close>.\<close>

definition tg_tree_ok :: "sched_state \<Rightarrow> bool" where
  "tg_tree_ok s \<longleftrightarrow> distinct (task_groups s) \<and> root_task_group \<in> set (task_groups s) \<and>
     tg_parent (tgs s root_task_group) = None \<and>
     (\<forall>g \<in> set (task_groups s). distinct (tg_children (tgs s g)) \<and>
        (\<forall>c \<in> set (tg_children (tgs s g)). c \<in> set (task_groups s) \<and> tg_parent (tgs s c) = Some g \<and> g < c)) \<and>
     (\<forall>g \<in> set (task_groups s). g \<noteq> root_task_group \<longrightarrow>
        (\<exists>p \<in> set (task_groups s). g \<in> set (tg_children (tgs s p))))"

lemma tree_root_node [simp]: "tree_root t \<in> set (tree_nodes t)"
  by (cases t) simp

lemma tree_nodes_ge: "tree_rep s t \<Longrightarrow> x \<in> set (tree_nodes t) \<Longrightarrow> tree_root t \<le> x"
  by (induction t rule: tree_nodes.induct) (fastforce dest: less_imp_le order_trans)

lemma tree_child_node:
  "tree_rep s t \<Longrightarrow> x \<in> set (tree_nodes t) \<Longrightarrow> c \<in> set (tg_children (tgs s x)) \<Longrightarrow> c \<in> set (tree_nodes t)"
  by (induction t rule: tree_nodes.induct) force

lemma tree_parent_node:
  "tree_rep s t \<Longrightarrow> x \<in> set (tree_nodes t) \<Longrightarrow> x \<noteq> tree_root t \<Longrightarrow>
   \<exists>p. tg_parent (tgs s x) = Some p \<and> p \<in> set (tree_nodes t) \<and> p < x"
proof (induction t rule: tree_nodes.induct)
  case (1 g ts)
  then obtain u where u: "u \<in> set ts" "x \<in> set (tree_nodes u)" by auto
  show ?case
  proof (cases "x = tree_root u")
    case True
    then show ?thesis using 1(2) u by auto
  next
    case False
    then show ?thesis using 1 u by force
  qed
qed

text \<open>Trees below two different children of one group share no group.\<close>

lemma tree_siblings_disjoint:
  assumes "tree_rep s t" "tree_rep s u" "tree_root t \<noteq> tree_root u"
    and "tg_parent (tgs s (tree_root t)) = Some g" "tg_parent (tgs s (tree_root u)) = Some g"
    and "g < tree_root t" "g < tree_root u"
  shows "x \<in> set (tree_nodes t) \<Longrightarrow> x \<in> set (tree_nodes u) \<Longrightarrow> False"
proof (induction x rule: less_induct)
  case (less x)
  consider "x = tree_root t" | "x = tree_root u" | "x \<noteq> tree_root t" "x \<noteq> tree_root u" by blast
  then show ?case
  proof cases
    case 1
    then have "g \<in> set (tree_nodes u)" using tree_parent_node [OF assms(2) less(3)] assms(3,4) by auto
    then show ?thesis using tree_nodes_ge [OF assms(2)] assms(7) by fastforce
  next
    case 2
    then have "g \<in> set (tree_nodes t)" using tree_parent_node [OF assms(1) less(2)] assms(3,5) by auto
    then show ?thesis using tree_nodes_ge [OF assms(1)] assms(6) by fastforce
  next
    case 3
    then show ?thesis
      using tree_parent_node [OF assms(1) less(2)] tree_parent_node [OF assms(2) less(3)] less(1) by auto
  qed
qed

lemma tree_nodes_distinct: "tree_rep s t \<Longrightarrow> distinct (tree_nodes t)"
proof (induction t rule: tree_nodes.induct)
  case (1 g ts)
  have g: "g \<notin> set (tree_nodes u)" if "u \<in> set ts" for u
    using tree_nodes_ge [of s u g] 1(2) that by fastforce
  have "distinct (concat (map tree_nodes us))" if "set us \<subseteq> set ts" "distinct (map tree_root us)" for us
    using that
  proof (induction us)
    case (Cons u us)
    have "x \<notin> set (tree_nodes v)" if "v \<in> set us" "x \<in> set (tree_nodes u)" for v x
    proof
      assume "x \<in> set (tree_nodes v)"
      moreover have "tree_root u \<noteq> tree_root v" using Cons(3) that(1) by force
      ultimately show False
        using tree_siblings_disjoint [of s u v g x] 1(2) Cons(2) that by auto
    qed
    then show ?case using Cons 1 by auto
  qed simp
  then show ?case using g 1(2) by auto
qed

text \<open>The links of all groups are those of one tree, which has every group.\<close>

lemma tree_exists:
  assumes ok: "tg_tree_ok s"
  shows "g \<in> set (task_groups s) \<Longrightarrow> \<exists>t. tree_root t = g \<and> tree_rep s t \<and> set (tree_nodes t) \<subseteq> set (task_groups s)"
proof (induction "Max (set (task_groups s)) - g" arbitrary: g rule: less_induct)
  case less
  let ?cs = "tg_children (tgs s g)"
  have c: "distinct ?cs" "\<And>c. c \<in> set ?cs \<Longrightarrow> c \<in> set (task_groups s) \<and> tg_parent (tgs s c) = Some g \<and> g < c"
    using ok less(2) by (auto simp: tg_tree_ok_def)
  have "\<exists>t. tree_root t = c \<and> tree_rep s t \<and> set (tree_nodes t) \<subseteq> set (task_groups s)" if "c \<in> set ?cs" for c
  proof (rule less(1))
    have "c \<le> Max (set (task_groups s))" using c(2) [OF that] by simp
    then show "Max (set (task_groups s)) - c < Max (set (task_groups s)) - g" using c(2) [OF that] by linarith
    show "c \<in> set (task_groups s)" using c(2) [OF that] by simp
  qed
  then obtain f where f: "\<And>c. c \<in> set ?cs \<Longrightarrow>
      tree_root (f c) = c \<and> tree_rep s (f c) \<and> set (tree_nodes (f c)) \<subseteq> set (task_groups s)"
    by metis
  have m: "map tree_root (map f ?cs) = ?cs" using f by (simp add: map_idI)
  have "tree_rep s (Node g (map f ?cs))" using m c f by (auto simp: comp_def)
  moreover have "set (tree_nodes (Node g (map f ?cs))) \<subseteq> set (task_groups s)" using f less(2) by auto
  moreover have "tree_root (Node g (map f ?cs)) = g" by simp
  ultimately show ?case by blast
qed

lemma tree_all_nodes:
  assumes ok: "tg_tree_ok s" and t: "tree_rep s t" "tree_root t = root_task_group"
  shows "g \<in> set (task_groups s) \<Longrightarrow> g \<in> set (tree_nodes t)"
proof (induction g rule: less_induct)
  case (less g)
  show ?case
  proof (cases "g = root_task_group")
    case True
    then show ?thesis using t(2) tree_root_node [of t] by simp
  next
    case False
    then obtain p where p: "p \<in> set (task_groups s)" "g \<in> set (tg_children (tgs s p))"
      using ok less(2) by (auto simp: tg_tree_ok_def)
    then have "p < g" using ok by (auto simp: tg_tree_ok_def)
    then show ?thesis using less(1) p tree_child_node [OF t(1)] by blast
  qed
qed

lemma group_tree:
  assumes "tg_tree_ok s"
  obtains t where "tree_root t = root_task_group" "tree_rep s t" "set (tree_nodes t) = set (task_groups s)"
    "distinct (tree_nodes t)"
  using tree_exists [OF assms, of root_task_group] tree_all_nodes [OF assms] tree_nodes_distinct assms
  by (metis subset_antisym subsetI tg_tree_ok_def)

section \<open>The walk\<close>

text \<open>The recursive traversal: \<open>down\<close> on entering, \<open>up\<close> on leaving, the first error ends it.\<close>

fun tree_walk :: "'d tg_visitor \<Rightarrow> 'd tg_visitor \<Rightarrow> tg_tree \<Rightarrow> 'd \<Rightarrow> int \<times> 'd"
  and forest_walk :: "'d tg_visitor \<Rightarrow> 'd tg_visitor \<Rightarrow> tg_tree list \<Rightarrow> 'd \<Rightarrow> int \<times> 'd" where
  "tree_walk down up (Node g ts) d =
     (case down g d of (r, d1) \<Rightarrow> if r \<noteq> 0 then (r, d1) else
        case forest_walk down up ts d1 of (r, d2) \<Rightarrow> if r \<noteq> 0 then (r, d2) else up g d2)"
| "forest_walk down up [] d = (0, d)"
| "forest_walk down up (t # ts) d =
     (case tree_walk down up t d of (r, d1) \<Rightarrow> if r \<noteq> 0 then (r, d1) else forest_walk down up ts d1)"

lemma sibling_after_split:
  "distinct (pre @ c # xs) \<Longrightarrow> sibling_after c (pre @ c # xs) = (case xs of [] \<Rightarrow> None | y # _ \<Rightarrow> Some y)"
  unfolding sibling_after_def by (subst dropWhile_append2) (auto split: list.split)

lemma walk_down:
  "walk_loop s from down up (Down g) d =
     (case down g d of (r, d1) \<Rightarrow> if r \<noteq> 0 then Some (r, d1) else
        case tg_children (tgs s g) of
          [] \<Rightarrow> walk_loop s from down up (Leave g) d1
        | c # _ \<Rightarrow> walk_loop s from down up (Down c) d1)"
  by (subst walk_loop.simps) simp

lemma walk_leave:
  "walk_loop s from down up (Leave g) d =
     (case up g d of (r, d1) \<Rightarrow> if r \<noteq> 0 \<or> g = from then Some (r, d1) else
        case tg_parent (tgs s g) of
          None \<Rightarrow> Some (r, d1)
        | Some p \<Rightarrow> (case sibling_after g (tg_children (tgs s p)) of
            Some c \<Rightarrow> walk_loop s from down up (Down c) d1
          | None \<Rightarrow> walk_loop s from down up (Leave p) d1))"
  by (subst walk_loop.simps) simp

text \<open>What the loop does from entering a sub-tree to leaving it, and from one sibling to the end of the siblings.\<close>

lemma walk_loop_tree:
  "\<lbrakk>tree_rep s t; from \<notin> set (tl (tree_nodes t))\<rbrakk> \<Longrightarrow>
   walk_loop s from down up (Down (tree_root t)) d =
     (case t of Node g ts \<Rightarrow> case down g d of (r, d1) \<Rightarrow> if r \<noteq> 0 then Some (r, d1) else
        case forest_walk down up ts d1 of (r, d2) \<Rightarrow> if r \<noteq> 0 then Some (r, d2)
          else walk_loop s from down up (Leave g) d2)"
  "\<lbrakk>tg_children (tgs s g) = map tree_root (pre @ ts); distinct (map tree_root (pre @ ts));
    \<forall>t \<in> set ts. tg_parent (tgs s (tree_root t)) = Some g \<and> tree_rep s t \<and> from \<notin> set (tree_nodes t)\<rbrakk> \<Longrightarrow>
   (case ts of [] \<Rightarrow> walk_loop s from down up (Leave g) d | t # _ \<Rightarrow> walk_loop s from down up (Down (tree_root t)) d) =
     (case forest_walk down up ts d of (r, d2) \<Rightarrow> if r \<noteq> 0 then Some (r, d2) else walk_loop s from down up (Leave g) d2)"
proof (induction down up t d and down up ts d arbitrary: and g pre rule: tree_walk_forest_walk.induct)
  case (1 down up g ts d)
  obtain r d1 where r: "down g d = (r, d1)" by fastforce
  have "tg_children (tgs s g) = map tree_root ([] @ ts)" "distinct (map tree_root ([] @ ts))"
    "\<forall>t \<in> set ts. tg_parent (tgs s (tree_root t)) = Some g \<and> tree_rep s t \<and> from \<notin> set (tree_nodes t)"
    using 1(2,3) by auto
  note kids = 1(1) [OF r [symmetric] _ this]
  show ?case
  proof (cases "r = 0")
    case True
    with kids 1(2) show ?thesis by (auto simp: walk_down r split: list.splits)
  next
    case False
    then show ?thesis by (simp add: walk_down r)
  qed
next
  case (2 down up d)
  then show ?case by simp
next
  case (3 down up t ts d)
  obtain g' us where t: "t = Node g' us" by (cases t)
  have rep: "tree_rep s t" "from \<notin> set (tl (tree_nodes t))" "g' \<noteq> from" "tg_parent (tgs s g') = Some g"
    using 3(5) t by (auto dest: list.set_sel(2))
  have ch: "tg_children (tgs s g) = map tree_root ((pre @ [t]) @ ts)" "distinct (map tree_root ((pre @ [t]) @ ts))"
    "\<forall>t \<in> set ts. tg_parent (tgs s (tree_root t)) = Some g \<and> tree_rep s t \<and> from \<notin> set (tree_nodes t)"
    using 3(3,4,5) by auto
  have nx: "sibling_after g' (tg_children (tgs s g)) = (case ts of [] \<Rightarrow> None | u # _ \<Rightarrow> Some (tree_root u))"
    using sibling_after_split [of "map tree_root pre" g' "map tree_root ts"] ch(1,2) t by (simp split: list.split)
  show ?case
  proof (cases "tree_walk down up t d")
    case (Pair r d1)
    have "walk_loop s from down up (Down (tree_root t)) d =
        (if r \<noteq> 0 then Some (r, d1)
         else case ts of [] \<Rightarrow> walk_loop s from down up (Leave g) d1
              | u # _ \<Rightarrow> walk_loop s from down up (Down (tree_root u)) d1)"
      using Pair rep(3,4) nx unfolding 3(1) [OF rep(1,2)]
      by (auto simp: t walk_leave split: prod.splits if_splits list.splits)
    then show ?thesis using 3(2) [OF Pair [symmetric] _ ch] Pair by (cases "r = 0") simp_all
  qed
qed

lemma walk_tree:
  assumes "tree_rep s t"
  shows "walk_tg_tree_from s (tree_root t) down up d = Some (tree_walk down up t d)"
proof -
  obtain g ts where t: "t = Node g ts" by (cases t)
  have "g \<notin> set (tl (tree_nodes t))" using tree_nodes_distinct [OF assms] t by simp
  then show ?thesis
    using walk_loop_tree(1) [OF assms, of g down up d] t
    by (auto simp: walk_tg_tree_from_def walk_leave split: prod.split)
qed

text \<open>C13: the walk over the task groups, a loop with two jump labels that follows the child and parent links, ends and
  does exactly what the recursive traversal of the tree of groups does: each group is entered once and left after its
  children, and the first non-zero code ends the walk.\<close>

theorem walk_tg_tree_visits:
  assumes "tg_tree_ok s"
  shows "\<exists>t. tree_root t = root_task_group \<and> tree_rep s t \<and> distinct (tree_nodes t) \<and>
    set (tree_nodes t) = set (task_groups s) \<and> walk_tg_tree s down up d = Some (tree_walk down up t d)"
proof -
  obtain t where "tree_root t = root_task_group" "tree_rep s t" "set (tree_nodes t) = set (task_groups s)"
    "distinct (tree_nodes t)" using group_tree [OF assms] by blast
  then show ?thesis using walk_tree [of s t down up d] by (auto simp: walk_tg_tree_def)
qed

theorem walk_tg_tree_visits_witness:
  "\<exists>t. tree_root t = root_task_group \<and> tree_rep state0 t \<and> distinct (tree_nodes t) \<and> set (tree_nodes t) = {0} \<and>
     walk_tg_tree state0 (\<lambda>g d. (0, g # d)) tg_nop [] = Some (tree_walk (\<lambda>g d. (0, g # d)) tg_nop t [])"
proof -
  have "tg_tree_ok state0" by (simp add: tg_tree_ok_def state0_def root_task_group_def)
  from walk_tg_tree_visits [OF this, of "\<lambda>g d. (0, g # d)" tg_nop "[]"] show ?thesis by (simp add: state0_def)
qed

end
