(* ===== verification/Rt_Admission.thy ===== *)
theory Rt_Admission
  imports Rt_Bandwidth_Proofs
begin

text \<open>
  The admission control keeps the real-time shares of the children of every group within the group's own share, in
  every sequence of creating and destroying groups, setting their limits and changing the global limit; a call that
  fails changes nothing; and the test that protects groups with real-time tasks only ever looks at the root group.
\<close>

section \<open>Shares\<close>

definition tg_ratio :: "sched_state \<Rightarrow> tg \<Rightarrow> ulong" where
  "tg_ratio s g = to_ratio (rt_period (tg_rt_bandwidth (tgs s g))) (rt_b_runtime (tg_rt_bandwidth (tgs s g)))"

definition global_ratio :: "sched_state \<Rightarrow> ulong" where
  "global_ratio s = to_ratio (global_rt_period s) (global_rt_runtime s)"

text \<open>What the check establishes for a group.\<close>

definition group_admitted :: "sched_state \<Rightarrow> tg \<Rightarrow> bool" where
  "group_admitted s g \<longleftrightarrow>
     (let b = tg_rt_bandwidth (tgs s g) in rt_b_runtime b \<le> rt_period b \<or> rt_b_runtime b = RUNTIME_INF) \<and>
     rt_period (tg_rt_bandwidth (tgs s g)) \<noteq> 0 \<and> tg_ratio s g \<le> global_ratio s \<and>
     length (tg_children (tgs s g)) < 4096 \<and>
     (\<Sum>c\<leftarrow>tg_children (tgs s g). unat (tg_ratio s c)) \<le> unat (tg_ratio s g)"

text \<open>The global limits fit their \<open>int\<close> settings and leave a ratio of at most one.\<close>

definition global_ok :: "sched_state \<Rightarrow> bool" where
  "global_ok s \<longleftrightarrow> 0 < sysctl_sched_rt_period s \<and> sysctl_sched_rt_period s < 2 ^ 31 \<and>
     sysctl_sched_rt_runtime s < 2 ^ 31 \<and> rt_period (def_rt_bandwidth s) \<noteq> 0 \<and>
     (global_rt_runtime s \<le> global_rt_period s \<or> global_rt_runtime s = RUNTIME_INF)"

definition bw_inv :: "sched_state \<Rightarrow> bool" where
  "bw_inv s \<longleftrightarrow> tg_tree_ok s \<and> global_ok s \<and> (\<forall>g \<in> set (task_groups s). group_admitted s g)"

lemma unat_usecs:
  assumes "0 \<le> x" "x < 2 ^ 31"
  shows "unat (word_of_int x * 1000 :: u64) = nat x * 1000"
proof -
  have "unat (word_of_int x :: u64) = nat x"
    using assms by (simp add: unat_eq_nat_uint uint_word_of_int_eq take_bit_int_eq_self)
  moreover have "nat x * 1000 < 2 ^ 64" using assms by auto
  ultimately show ?thesis by (simp add: unat_word_ariths)
qed

lemma global_period_nonzero: "\<lbrakk>0 < sysctl_sched_rt_period s; sysctl_sched_rt_period s < 2 ^ 31\<rbrakk> \<Longrightarrow> global_rt_period s \<noteq> 0"
  using unat_usecs [of "sysctl_sched_rt_period s"] by (auto simp: global_rt_period_def NSEC_PER_USEC_def)

lemma to_ratio_le:
  assumes "r \<le> p" "unat r < 2 ^ 44"
  shows "unat (to_ratio p r) \<le> 2 ^ 20"
proof -
  have "unat (push_bit 20 r) = unat r * 2 ^ 20"
    using assms(2) by (simp add: push_bit_eq_mult unat_word_ariths)
  then have "unat (push_bit 20 r div p) = unat r * 2 ^ 20 div unat p" by (simp add: unat_div)
  also have "\<dots> \<le> 2 ^ 20"
  proof -
    have "unat r * 2 ^ 20 div unat p \<le> unat p * 2 ^ 20 div unat p"
      using assms(1) by (intro div_le_mono) (simp add: word_le_nat_alt)
    also have "\<dots> \<le> 2 ^ 20" by (cases "unat p = 0") simp_all
    finally show ?thesis .
  qed
  finally have "unat (push_bit 20 r div p) \<le> 2 ^ 20" .
  then have "unat (ucast (push_bit 20 r div p) :: ulong) \<le> 2 ^ 20"
    unfolding unsigned_ucast_eq by (rule take_bit_nat_less_eq_self [THEN order_trans])
  then show ?thesis by (simp add: to_ratio_def push_bit_eq_mult)
qed

lemma global_ratio_le: "global_ok s \<Longrightarrow> unat (global_ratio s) \<le> 2 ^ 20"
proof (cases "global_rt_runtime s = RUNTIME_INF")
  case True
  then show ?thesis by (simp add: global_ratio_def to_ratio_def push_bit_eq_mult)
next
  case False
  assume ok: "global_ok s"
  have "unat (global_rt_runtime s) < 2 ^ 44"
    using False ok unat_usecs [of "sysctl_sched_rt_runtime s"]
    by (auto simp: global_rt_runtime_def NSEC_PER_USEC_def global_ok_def split: if_splits)
  then show ?thesis unfolding global_ratio_def using ok False by (intro to_ratio_le) (auto simp: global_ok_def)
qed

text \<open>A sum of fewer than 4096 shares does not wrap.\<close>

lemma unat_sum_list:
  fixes f :: "'a \<Rightarrow> 32 word"
  assumes "\<And>x. x \<in> set xs \<Longrightarrow> unat (f x) \<le> 2 ^ 20" "length xs < 4096"
  shows "unat (\<Sum>x\<leftarrow>xs. f x) = (\<Sum>x\<leftarrow>xs. unat (f x)) \<and> (\<Sum>x\<leftarrow>xs. unat (f x)) \<le> length xs * 2 ^ 20"
  using assms
proof (induction xs)
  case (Cons x xs)
  then have h: "unat (\<Sum>x\<leftarrow>xs. f x) = (\<Sum>x\<leftarrow>xs. unat (f x))" "(\<Sum>x\<leftarrow>xs. unat (f x)) \<le> length xs * 2 ^ 20"
    "unat (f x) \<le> 2 ^ 20" by auto
  then have "unat (f x) + (\<Sum>x\<leftarrow>xs. unat (f x)) \<le> length (x # xs) * 2 ^ 20" by simp
  moreover from this have "unat (f x) + (\<Sum>x\<leftarrow>xs. unat (f x)) < 2 ^ 32" using Cons(3) by simp
  ultimately show ?case using h(1) by (simp add: unat_word_ariths)
qed simp

section \<open>The check\<close>

lemma const_walk:
  "snd (tree_walk (\<lambda>g d. (k g d, d)) tg_nop t d) = d \<and>
   (fst (tree_walk (\<lambda>g d. (k g d, d)) tg_nop t d) = 0 \<longleftrightarrow> (\<forall>g \<in> set (tree_nodes t). k g d = 0))"
proof (induction t)
  case (Node g ts)
  let ?W = "\<lambda>us. forest_walk (\<lambda>g d. (k g d, d)) tg_nop us d"
  have "snd (?W us) = d \<and> (fst (?W us) = 0 \<longleftrightarrow> (\<forall>t \<in> set us. \<forall>g \<in> set (tree_nodes t). k g d = 0))"
    if "set us \<subseteq> set ts" for us
    using that
  proof (induction us)
    case (Cons a us)
    define r where "r = fst (tree_walk (\<lambda>g d. (k g d, d)) tg_nop a d)"
    have "tree_walk (\<lambda>g d. (k g d, d)) tg_nop a d = (r, d)" "r = 0 \<longleftrightarrow> (\<forall>g \<in> set (tree_nodes a). k g d = 0)"
      using Node [of a] Cons(2) by (simp_all add: r_def prod_eq_iff)
    with Cons show ?case by (cases "r = 0") auto
  qed simp
  then have "snd (?W ts) = d \<and> (fst (?W ts) = 0 \<longleftrightarrow> (\<forall>t \<in> set ts. \<forall>g \<in> set (tree_nodes t). k g d = 0))" by simp
  moreover have "tg_nop g d = (0, d)" by (simp add: tg_nop_def)
  ultimately show ?case by (cases "?W ts") (auto split: prod.split)
qed

lemma tg_rt_schedulable_data [simp]: "snd (tg_rt_schedulable threads s g d) = d"
  by (simp add: tg_rt_schedulable_def Let_def)

lemma visitor_eta: "(\<lambda>g d. (fst (tg_rt_schedulable threads s g d), d)) = tg_rt_schedulable threads s"
  by (simp add: fun_eq_iff prod_eq_iff)

text \<open>The check always answers, and accepts exactly when it accepts every group.\<close>

lemma rt_schedulable_total:
  assumes "tg_tree_ok s"
  obtains r where "rt_schedulable threads h p q s = Some r"
    "r = 0 \<longleftrightarrow> (\<forall>g \<in> set (task_groups s).
       fst (tg_rt_schedulable threads s g \<lparr>rsd_tg = h, rsd_period = p, rsd_runtime = q\<rparr>) = 0)"
proof -
  let ?d = "\<lparr>rsd_tg = h, rsd_period = p, rsd_runtime = q\<rparr>"
  from group_tree [OF assms] obtain t where t: "tree_root t = root_task_group" "tree_rep s t"
    "set (tree_nodes t) = set (task_groups s)" by blast
  have "walk_tg_tree s (tg_rt_schedulable threads s) tg_nop ?d = Some (tree_walk (tg_rt_schedulable threads s) tg_nop t ?d)"
    using walk_tree [OF t(2)] t(1) by (simp add: walk_tg_tree_def)
  then show thesis
    using that const_walk [of "\<lambda>g d. fst (tg_rt_schedulable threads s g d)" t ?d] t(3)
    by (simp add: rt_schedulable_def visitor_eta)
qed

section \<open>Setting a limit\<close>

lemma tg_ratio_le:
  "\<lbrakk>bw_inv s; g \<in> set (task_groups s)\<rbrakk> \<Longrightarrow> unat (tg_ratio s g) \<le> 2 ^ 20"
  using global_ratio_le [of s] by (fastforce simp: bw_inv_def group_admitted_def word_le_nat_alt)

text \<open>
  If the check accepts the plan in \<open>s\<close> and \<open>s'\<close> carries the plan out, every group of \<open>s'\<close> is admitted.
\<close>

lemma plan_admitted:
  assumes ok: "tg_tree_ok s" "global_ok s'" "\<forall>g \<in> set (task_groups s). length (tg_children (tgs s g)) < 4096"
    and acc: "\<forall>g \<in> set (task_groups s). fst (tg_rt_schedulable threads s g d) = 0"
    and same: "task_groups s' = task_groups s" "\<And>g. tg_children (tgs s' g) = tg_children (tgs s g)"
      "\<And>g. rt_period (tg_rt_bandwidth (tgs s' g)) = planned_period s d g"
      "\<And>g. rt_b_runtime (tg_rt_bandwidth (tgs s' g)) = planned_runtime s d g"
      "global_ratio s = global_ratio s'"
    and pos: "\<And>g. g \<in> set (task_groups s) \<Longrightarrow> planned_period s d g \<noteq> 0"
  shows "\<forall>g \<in> set (task_groups s'). group_admitted s' g"
proof
  fix g assume "g \<in> set (task_groups s')"
  then have g: "g \<in> set (task_groups s)" by (simp add: same)
  have r: "tg_ratio s' c = to_ratio (planned_period s d c) (planned_runtime s d c)" for c
    by (simp add: tg_ratio_def same)
  have ch: "tg_rt_schedulable threads s c d = (0, d)" if "c \<in> set (task_groups s)" for c
    using acc that by (simp add: prod_eq_iff)
  have a: "\<not> (planned_runtime s d c > planned_period s d c \<and> planned_runtime s d c \<noteq> RUNTIME_INF)"
    "tg_ratio s' c \<le> global_ratio s'" "(\<Sum>x\<leftarrow>tg_children (tgs s c). tg_ratio s' x) \<le> tg_ratio s' c"
    if "c \<in> set (task_groups s)" for c
    using ch [OF that] same(5) by (auto simp: tg_rt_schedulable_def Let_def r global_ratio_def not_less split: if_splits)
  have "unat (tg_ratio s' c) \<le> 2 ^ 20" if "c \<in> set (tg_children (tgs s g))" for c
  proof -
    have "c \<in> set (task_groups s)" using ok(1) g that by (auto simp: tg_tree_ok_def)
    then show ?thesis using a(2) global_ratio_le [OF ok(2)] by (fastforce simp: word_le_nat_alt)
  qed
  then have "unat (\<Sum>x\<leftarrow>tg_children (tgs s g). tg_ratio s' x) = (\<Sum>x\<leftarrow>tg_children (tgs s g). unat (tg_ratio s' x))"
    using unat_sum_list ok(3) g by blast
  then show "group_admitted s' g"
    using a [OF g] pos [OF g] ok(3) g by (auto simp: group_admitted_def same Let_def word_le_nat_alt not_less)
qed

text \<open>A call that sets a limit answers; it changes nothing when it fails, and the groups are admitted after it.\<close>

lemma tg_set_rt_bandwidth_cases:
  assumes inv: "bw_inv s" and p: "p \<noteq> 0"
  obtains r where "r \<noteq> 0" "tg_set_rt_bandwidth threads h p q s = Some (r, s)"
  | s' where "tg_set_rt_bandwidth threads h p q s = Some (0, s')" "bw_inv s'"
      "tg_rt_bandwidth (tgs s' h) = (tg_rt_bandwidth (tgs s h))\<lparr>rt_period := p, rt_b_runtime := q\<rparr>"
      "rt_runtime (rt_rqs s' h) = q" "\<And>g. g \<noteq> h \<Longrightarrow> tgs s' g = tgs s g \<and> rt_rqs s' g = rt_rqs s g"
proof -
  have tr: "tg_tree_ok s" using inv by (simp add: bw_inv_def)
  let ?d = "\<lparr>rsd_tg = Some h, rsd_period = p, rsd_runtime = q\<rparr>"
  obtain r where r: "rt_schedulable threads (Some h) p q s = Some r"
    "r = 0 \<longleftrightarrow> (\<forall>g \<in> set (task_groups s). fst (tg_rt_schedulable threads s g ?d) = 0)"
    by (rule rt_schedulable_total [OF tr])
  show thesis
  proof (cases "r = 0")
    case False
    then show thesis using that(1) r(1) by (simp add: tg_set_rt_bandwidth_def)
  next
    case True
    define s' where "s' = upd_rt_rq h (\<lambda>r. r\<lparr>rt_runtime := q\<rparr>)
      (upd_tg h (\<lambda>x. x\<lparr>tg_rt_bandwidth := (tg_rt_bandwidth x)\<lparr>rt_period := p, rt_b_runtime := q\<rparr>\<rparr>) s)"
    have f: "task_groups s' = task_groups s" "\<And>g. tg_children (tgs s' g) = tg_children (tgs s g)"
      "\<And>g. tg_parent (tgs s' g) = tg_parent (tgs s g)" "sysctl_sched_rt_period s' = sysctl_sched_rt_period s"
      "sysctl_sched_rt_runtime s' = sysctl_sched_rt_runtime s" "def_rt_bandwidth s' = def_rt_bandwidth s"
      by (simp_all add: s'_def upd_rt_rq_def upd_tg_def)
    have gl: "global_rt_period s' = global_rt_period s" "global_rt_runtime s' = global_rt_runtime s"
      by (simp_all add: global_rt_period_def global_rt_runtime_def f)
    have "tg_tree_ok s'" using tr by (simp add: tg_tree_ok_def f)
    moreover have g: "global_ok s'" using inv by (simp add: bw_inv_def global_ok_def f gl)
    moreover have "\<forall>g \<in> set (task_groups s'). group_admitted s' g"
    proof (rule plan_admitted [OF tr g, where d = ?d])
      show "\<forall>g \<in> set (task_groups s). fst (tg_rt_schedulable threads s g ?d) = 0" using r(2) True by simp
      show "global_ratio s = global_ratio s'" by (simp add: global_ratio_def gl)
      show "\<forall>g \<in> set (task_groups s). length (tg_children (tgs s g)) < 4096" using inv by (simp add: bw_inv_def group_admitted_def)
      show "planned_period s ?d g \<noteq> 0" if "g \<in> set (task_groups s)" for g
        using that inv p by (auto simp: planned_period_def bw_inv_def group_admitted_def)
    qed (auto simp: f planned_period_def planned_runtime_def s'_def upd_rt_rq_def upd_tg_def)
    ultimately have "bw_inv s'" by (simp add: bw_inv_def)
    then show thesis
      using that(2) [of s'] r(1) True by (simp add: tg_set_rt_bandwidth_def s'_def upd_rt_rq_def upd_tg_def)
  qed
qed

text \<open>The two settings of a group keep the invariant, and a failing one keeps the state.\<close>

lemma group_settings_inv:
  assumes "bw_inv s" "h \<in> set (task_groups s)"
  shows "sched_group_set_rt_runtime threads h us s = Some (r, s') \<Longrightarrow> bw_inv s' \<and> (r \<noteq> 0 \<longrightarrow> s' = s)"
    and "sched_group_set_rt_period threads h us s = Some (r, s') \<Longrightarrow> bw_inv s' \<and> (r \<noteq> 0 \<longrightarrow> s' = s)"
proof -
  have set: "bw_inv s' \<and> (r \<noteq> 0 \<longrightarrow> s' = s)"
    if "tg_set_rt_bandwidth threads h p q s = Some (r, s')" "p \<noteq> 0" for p q
    using tg_set_rt_bandwidth_cases [OF assms(1) that(2), of threads h q] that(1) assms(1) by fastforce
  have "rt_period (tg_rt_bandwidth (tgs s h)) \<noteq> 0" using assms by (simp add: bw_inv_def group_admitted_def)
  then show "sched_group_set_rt_runtime threads h us s = Some (r, s') \<Longrightarrow> bw_inv s' \<and> (r \<noteq> 0 \<longrightarrow> s' = s)"
    using set by (simp add: sched_group_set_rt_runtime_def)
  show "sched_group_set_rt_period threads h us s = Some (r, s') \<Longrightarrow> bw_inv s' \<and> (r \<noteq> 0 \<longrightarrow> s' = s)"
    using set assms(1) by (auto simp: sched_group_set_rt_period_def Let_def split: if_splits)
qed

section \<open>The global limit\<close>

lemma rt_handler_inv:
  assumes inv: "bw_inv s" and rng: "p < 2 ^ 31" "q < 2 ^ 31" "\<not> (ret0 = 0 \<and> write) \<Longrightarrow> p = sysctl_sched_rt_period s \<and> q = sysctl_sched_rt_runtime s"
    and h: "sched_rt_handler threads write ret0 p q s = Some (r, s')"
  shows "bw_inv s' \<and> (r \<noteq> 0 \<longrightarrow> s' = s)"
proof (cases "ret0 = 0 \<and> write")
  case False
  then have "s' = s" using h rng(3) by (auto simp: sched_rt_handler_def Let_def)
  then show ?thesis using inv by simp
next
  case True
  define s1 where "s1 = s\<lparr>sysctl_sched_rt_period := p, sysctl_sched_rt_runtime := q\<rparr>"
  have tr: "tg_tree_ok s1" using inv by (simp add: s1_def bw_inv_def tg_tree_ok_def)
  obtain c where c: "sched_rt_global_constraints threads s1 = Some c"
    using rt_schedulable_total [OF tr, of threads None 0 0] by (metis sched_rt_global_constraints_def)
  show ?thesis
  proof (cases "c = 0")
    case False
    then have "s' = s" "r = c" using True h c by (auto simp: sched_rt_handler_def Let_def s1_def)
    then show ?thesis using inv by simp
  next
    case True
    then have k: "\<not> p \<le> 0" "\<not> (global_rt_runtime s1 > global_rt_period s1 \<and> global_rt_runtime s1 \<noteq> RUNTIME_INF)"
      "rt_schedulable threads None 0 0 s1 = Some 0"
      using c by (auto simp: sched_rt_global_constraints_def s1_def split: if_splits)
    have s': "s' = s1\<lparr>def_rt_bandwidth := (def_rt_bandwidth s1)\<lparr>rt_b_runtime := global_rt_runtime s1, rt_period := global_rt_period s1\<rparr>\<rparr>"
      "r = 0"
      using True \<open>ret0 = 0 \<and> write\<close> h c by (auto simp: sched_rt_handler_def Let_def s1_def)
    have gl: "global_rt_period s' = global_rt_period s1" "global_rt_runtime s' = global_rt_runtime s1"
      by (simp_all add: s'(1) global_rt_period_def global_rt_runtime_def)
    have "global_rt_period s1 \<noteq> 0" using global_period_nonzero [of s1] k(1) rng(1) by (simp add: s1_def)
    then have g: "global_ok s'"
      using k(1,2) rng by (auto simp: global_ok_def gl) (auto simp: s' s1_def)
    have "\<forall>g \<in> set (task_groups s'). group_admitted s' g"
    proof (rule plan_admitted [OF tr g, where d = "\<lparr>rsd_tg = None, rsd_period = 0, rsd_runtime = 0\<rparr>"])
      let ?d = "\<lparr>rsd_tg = None, rsd_period = 0, rsd_runtime = 0\<rparr>"
      show "\<forall>g \<in> set (task_groups s1). fst (tg_rt_schedulable threads s1 g ?d) = 0"
        using rt_schedulable_total [OF tr, of threads None 0 0] k(3) by (metis option.inject)
      show "global_ratio s1 = global_ratio s'" by (simp add: global_ratio_def gl)
      show "\<forall>g \<in> set (task_groups s1). length (tg_children (tgs s1 g)) < 4096"
        using inv by (simp add: s1_def bw_inv_def group_admitted_def)
      show "planned_period s1 ?d g \<noteq> 0" if "g \<in> set (task_groups s1)" for g
        using that inv by (auto simp: s1_def planned_period_def bw_inv_def group_admitted_def)
    qed (simp_all add: s'(1) planned_period_def planned_runtime_def)
    moreover have "tg_tree_ok s'" using tr by (simp add: s'(1) tg_tree_ok_def)
    ultimately show ?thesis using g s'(2) by (simp add: bw_inv_def)
  qed
qed

section \<open>Creating and destroying groups\<close>

definition bw_settings_same :: "sched_state \<Rightarrow> sched_state \<Rightarrow> bool" where
  "bw_settings_same s s' \<longleftrightarrow> sysctl_sched_rt_period s' = sysctl_sched_rt_period s \<and>
     sysctl_sched_rt_runtime s' = sysctl_sched_rt_runtime s \<and>
     rt_period (def_rt_bandwidth s') = rt_period (def_rt_bandwidth s)"

definition group_same :: "sched_state \<Rightarrow> sched_state \<Rightarrow> tg \<Rightarrow> bool" where
  "group_same s s' g \<longleftrightarrow> tg_children (tgs s' g) = tg_children (tgs s g) \<and> tg_parent (tgs s' g) = tg_parent (tgs s g) \<and>
     rt_period (tg_rt_bandwidth (tgs s' g)) = rt_period (tg_rt_bandwidth (tgs s g)) \<and>
     rt_b_runtime (tg_rt_bandwidth (tgs s' g)) = rt_b_runtime (tg_rt_bandwidth (tgs s g))"

lemma settings_same_global:
  assumes "bw_settings_same s s'"
  shows "global_rt_period s' = global_rt_period s" "global_rt_runtime s' = global_rt_runtime s"
    "global_ratio s' = global_ratio s" "global_ok s' = global_ok s"
proof -
  show g: "global_rt_period s' = global_rt_period s" "global_rt_runtime s' = global_rt_runtime s"
    using assms by (simp_all add: bw_settings_same_def global_rt_period_def global_rt_runtime_def)
  show "global_ratio s' = global_ratio s" "global_ok s' = global_ok s"
    using assms g by (simp_all add: global_ratio_def global_ok_def bw_settings_same_def)
qed

text \<open>The invariant looks only at the settings and the listed groups.\<close>

lemma bw_inv_frame:
  assumes "bw_inv s" "bw_settings_same s s'" "task_groups s' = task_groups s"
    and same: "\<And>g. g \<in> set (task_groups s) \<Longrightarrow> group_same s s' g"
  shows "bw_inv s'"
proof -
  have ch: "tg_ratio s' c = tg_ratio s c" if "c \<in> set (task_groups s)" for c
    using same [OF that] by (simp add: tg_ratio_def group_same_def)
  have kids: "c \<in> set (task_groups s)" if "g \<in> set (task_groups s)" "c \<in> set (tg_children (tgs s g))" for g c
    using assms(1) that by (auto simp: bw_inv_def tg_tree_ok_def)
  have "group_admitted s' g" if g: "g \<in> set (task_groups s)" for g
  proof -
    have "(\<Sum>c\<leftarrow>tg_children (tgs s g). unat (tg_ratio s' c)) = (\<Sum>c\<leftarrow>tg_children (tgs s g). unat (tg_ratio s c))"
      using kids [OF g] ch by (metis (mono_tags, lifting) map_eq_conv)
    then show ?thesis
      using assms(1) same [OF g] ch [OF g] g settings_same_global [OF assms(2)]
      by (simp add: bw_inv_def group_admitted_def group_same_def Let_def)
  qed
  moreover have "tg_tree_ok s'"
  proof -
    have k: "tg_children (tgs s' g) = tg_children (tgs s g)" "tg_parent (tgs s' g) = tg_parent (tgs s g)"
      if "g \<in> set (task_groups s)" for g using same [OF that] by (simp_all add: group_same_def)
    have t: "tg_tree_ok s" using assms(1) by (simp add: bw_inv_def)
    show ?thesis
      using t unfolding tg_tree_ok_def assms(3)
      by (intro conjI) (simp_all add: k)
  qed
  ultimately show ?thesis
    using assms(1,3) settings_same_global(4) [OF assms(2)] by (simp add: bw_inv_def)
qed

lemma tg_tree_okD:
  assumes "tg_tree_ok s"
  shows "distinct (task_groups s)" "root_task_group \<in> set (task_groups s)" "tg_parent (tgs s root_task_group) = None"
    "\<And>g. g \<in> set (task_groups s) \<Longrightarrow> distinct (tg_children (tgs s g))"
    "\<And>g c. \<lbrakk>g \<in> set (task_groups s); c \<in> set (tg_children (tgs s g))\<rbrakk> \<Longrightarrow>
      c \<in> set (task_groups s) \<and> tg_parent (tgs s c) = Some g \<and> g < c"
    "\<And>g. \<lbrakk>g \<in> set (task_groups s); g \<noteq> root_task_group\<rbrakk> \<Longrightarrow> \<exists>p \<in> set (task_groups s). g \<in> set (tg_children (tgs s p))"
  using assms unfolding tg_tree_ok_def by blast+

text \<open>A new group without runtime below a group of the tree.\<close>

lemma add_group_inv:
  assumes inv: "bw_inv s" and g: "g \<notin> set (task_groups s)" "par \<in> set (task_groups s)" "par < g"
    and room: "length (tg_children (tgs s par)) < 4095"
    and s': "bw_settings_same s s'" "task_groups s' = g # task_groups s"
      "tg_children (tgs s' par) = g # tg_children (tgs s par)" "tg_parent (tgs s' par) = tg_parent (tgs s par)"
      "tg_rt_bandwidth (tgs s' par) = tg_rt_bandwidth (tgs s par)"
      "\<And>h. h \<noteq> g \<Longrightarrow> h \<noteq> par \<Longrightarrow> tgs s' h = tgs s h"
      "tg_children (tgs s' g) = []" "tg_parent (tgs s' g) = Some par"
      "rt_b_runtime (tg_rt_bandwidth (tgs s' g)) = 0" "rt_period (tg_rt_bandwidth (tgs s' g)) \<noteq> 0"
  shows "bw_inv s'"
proof -
  have tr: "tg_tree_ok s" using inv by (simp add: bw_inv_def)
  then have "g \<noteq> root_task_group" "g \<noteq> par" using g by (auto simp: tg_tree_ok_def)
  have new: "g \<notin> set (tg_children (tgs s h))" if "h \<in> set (task_groups s)" for h
    using tr g that by (auto simp: tg_tree_ok_def)
  have par: "tg_parent (tgs s' h) = (if h = g then Some par else tg_parent (tgs s h))"
    and kids: "tg_children (tgs s' h) = (if h = g then [] else if h = par then g # tg_children (tgs s h) else tg_children (tgs s h))"
    and bw: "h \<noteq> g \<Longrightarrow> tg_rt_bandwidth (tgs s' h) = tg_rt_bandwidth (tgs s h)" for h
    using s' \<open>g \<noteq> par\<close> by (cases "h = g"; cases "h = par"; simp)+
  note links = tg_tree_okD [OF tr]
  have "tg_tree_ok s'"
    unfolding tg_tree_ok_def s'(2) par kids
  proof (intro conjI ballI impI)
    fix h c assume h: "h \<in> set (g # task_groups s)"
      and c: "c \<in> set (if h = g then [] else if h = par then g # tg_children (tgs s h) else tg_children (tgs s h))"
    have "(c = g \<and> h = par) \<or> (h \<in> set (task_groups s) \<and> c \<in> set (tg_children (tgs s h)))"
      using h c by (auto split: if_splits)
    then have "c \<in> set (g # task_groups s) \<and> (if c = g then Some par else tg_parent (tgs s c)) = Some h \<and> h < c"
      using links(5) [of h c] g(1,3) by auto
    then show "c \<in> set (g # task_groups s)" "(if c = g then Some par else tg_parent (tgs s c)) = Some h" "h < c"
      by blast+
  next
    fix h assume h: "h \<in> set (g # task_groups s)"
    show "distinct (if h = g then [] else if h = par then g # tg_children (tgs s h) else tg_children (tgs s h))"
      using h links(4) new by auto
  next
    fix h assume h: "h \<in> set (g # task_groups s)" "h \<noteq> root_task_group"
    show "\<exists>p \<in> set (g # task_groups s). h \<in> set (if p = g then [] else if p = par then g # tg_children (tgs s p) else tg_children (tgs s p))"
    proof (cases "h = g")
      case True
      then show ?thesis using g(2) \<open>g \<noteq> par\<close> by (intro bexI [of _ par]) auto
    next
      case False
      then obtain q where "q \<in> set (task_groups s)" "h \<in> set (tg_children (tgs s q))" using links(6) h by auto
      then show ?thesis using g(1) by (intro bexI [of _ q]) auto
    qed
  qed (use links(1-3) g(1) \<open>g \<noteq> root_task_group\<close> in auto)
  moreover have "group_admitted s' h" if "h \<in> set (task_groups s')" for h
  proof (cases "h = g")
    case True
    have "tg_ratio s' g = 0" using s'(9) by (simp add: tg_ratio_def to_ratio_def RUNTIME_INF_def)
    then show ?thesis using True s' by (simp add: group_admitted_def Let_def)
  next
    case False
    then have h: "h \<in> set (task_groups s)" using that s'(2) by simp
    then have a: "group_admitted s h" using inv by (simp add: bw_inv_def)
    have r: "tg_ratio s' c = (if c = g then 0 else tg_ratio s c)" for c
      using bw s'(9) by (simp add: tg_ratio_def to_ratio_def RUNTIME_INF_def)
    have "(\<Sum>c\<leftarrow>tg_children (tgs s h). unat (tg_ratio s' c)) = (\<Sum>c\<leftarrow>tg_children (tgs s h). unat (tg_ratio s c))"
      using new [OF h] r by (intro arg_cong [where f = sum_list] map_cong) auto
    then show ?thesis
      using a False room settings_same_global(3) [OF s'(1)] r
      by (auto simp: group_admitted_def Let_def bw kids)
  qed
  ultimately show ?thesis using inv settings_same_global(4) [OF s'(1)] by (simp add: bw_inv_def)
qed

lemma alloc_rt_groups:
  "tgs (snd (alloc_rt_sched_group m g par s)) = (if m then (tgs s)(g := (tgs s g)\<lparr>
      tg_rt_bandwidth := init_rt_bandwidth (rt_period (def_rt_bandwidth s)) 0, tg_rt_se := Some (GroupSE g)\<rparr>) else tgs s)"
  "task_groups (snd (alloc_rt_sched_group m g par s)) = task_groups s"
  "sysctl_sched_rt_period (snd (alloc_rt_sched_group m g par s)) = sysctl_sched_rt_period s"
  "sysctl_sched_rt_runtime (snd (alloc_rt_sched_group m g par s)) = sysctl_sched_rt_runtime s"
  "def_rt_bandwidth (snd (alloc_rt_sched_group m g par s)) = def_rt_bandwidth s"
  "fst (alloc_rt_sched_group m g par s) = (if m then 1 else 0)"
  by (simp_all add: alloc_rt_sched_group_def init_tg_rt_entry_def upd_rt_rq_def upd_rt_se_def Let_def)

lemma create_group_inv:
  assumes inv: "bw_inv s" and g: "g \<notin> set (task_groups s)" "par \<in> set (task_groups s)" "par < g"
    and room: "length (tg_children (tgs s par)) < 4095"
  shows "bw_inv (snd (sched_create_group mem fair_mem rt_mem g par s))"
proof -
  let ?s' = "snd (sched_create_group mem fair_mem rt_mem g par s)"
  obtain r s2 where a: "alloc_rt_sched_group rt_mem g par (s\<lparr>tgs := (tgs s)(g := zero_tg)\<rparr>) = (r, s2)" by fastforce
  note al = alloc_rt_groups [of rt_mem g par "s\<lparr>tgs := (tgs s)(g := zero_tg)\<rparr>", unfolded a fst_conv snd_conv]
  define s3 where "s3 = upd_tg par (\<lambda>x. x\<lparr>tg_children := list_add g (tg_children x)\<rparr>)
    (upd_tg g (\<lambda>x. x\<lparr>tg_parent := Some par, tg_children := []\<rparr>) (s2\<lparr>task_groups := list_add g (task_groups s2)\<rparr>))"
  have s': "?s' = (if \<not> mem then s else if \<not> fair_mem then s\<lparr>tgs := (tgs s)(g := zero_tg)\<rparr> else if \<not> rt_mem then s2 else s3)"
    using al(6) by (simp add: sched_create_group_def Let_def upd_tg_def a s3_def)
  have set: "bw_settings_same s ?s'"
    unfolding s' using al by (simp add: bw_settings_same_def s3_def upd_tg_def)
  show ?thesis
  proof (cases "mem \<and> fair_mem \<and> rt_mem")
    case False
    then have "group_same s ?s' h" if "h \<in> set (task_groups s)" for h
      unfolding s' using al(1) g(1) that by (auto simp: group_same_def)
    moreover have "task_groups ?s' = task_groups s"
      unfolding s' using False al(2) by simp
    ultimately show ?thesis using bw_inv_frame [OF inv set] by blast
  next
    case True
    then have s3: "?s' = s3" unfolding s' by simp
    have "rt_period (def_rt_bandwidth s) \<noteq> 0" using inv by (simp add: bw_inv_def global_ok_def)
    then show ?thesis
      unfolding s3 using True al g(3)
      by (intro add_group_inv [OF inv g room set [unfolded s3]])
        (simp_all add: s3_def upd_tg_def list_add_def zero_tg_def init_rt_bandwidth_def)
  qed
qed

lemma destroy_group_inv:
  assumes inv: "bw_inv s" and g: "g \<in> set (task_groups s)" "g \<noteq> root_task_group" "tg_children (tgs s g) = []"
  shows "bw_inv (sched_destroy_group g s)"
proof -
  let ?s' = "sched_destroy_group g s"
  have tr: "tg_tree_ok s" using inv by (simp add: bw_inv_def)
  then obtain p where p: "p \<in> set (task_groups s)" "g \<in> set (tg_children (tgs s p))" "tg_parent (tgs s g) = Some p" "p < g"
    using g by (force simp: tg_tree_ok_def)
  have only: "h = p" if "h \<in> set (task_groups s)" "g \<in> set (tg_children (tgs s h))" for h
    using tr that p(3) by (force simp: tg_tree_ok_def)
  have grp: "set (task_groups ?s') = set (task_groups s) - {g}" "distinct (task_groups ?s')"
    using tr p(3) by (auto simp: sched_destroy_group_def Let_def upd_tg_def list_del_init_def tg_tree_ok_def)
  have kids: "tg_children (tgs ?s' h) = (if h = p then remove1 g (tg_children (tgs s h)) else tg_children (tgs s h))"
    and rest: "tg_parent (tgs ?s' h) = tg_parent (tgs s h)" "tg_rt_bandwidth (tgs ?s' h) = tg_rt_bandwidth (tgs s h)" for h
    using p(3) by (auto simp: sched_destroy_group_def Let_def upd_tg_def list_del_init_def)
  have set: "bw_settings_same s ?s'"
    using p(3) by (simp add: bw_settings_same_def sched_destroy_group_def Let_def upd_tg_def)
  have sub: "set (tg_children (tgs ?s' h)) = set (tg_children (tgs s h)) - {g}" "distinct (tg_children (tgs ?s' h))"
    if h: "h \<in> set (task_groups s)" for h
  proof -
    have "distinct (tg_children (tgs s h))" using tr h by (simp add: tg_tree_ok_def)
    then show "set (tg_children (tgs ?s' h)) = set (tg_children (tgs s h)) - {g}" "distinct (tg_children (tgs ?s' h))"
      using only [OF h] by (auto simp: kids)
  qed
  have "\<exists>q \<in> set (task_groups ?s'). h \<in> set (tg_children (tgs ?s' q))"
    if h: "h \<in> set (task_groups s)" "h \<noteq> g" "h \<noteq> root_task_group" for h
  proof -
    obtain q where q: "q \<in> set (task_groups s)" "h \<in> set (tg_children (tgs s q))"
      using tr h by (auto simp: tg_tree_ok_def)
    then have "q \<noteq> g" using g(3) by auto
    then show ?thesis using q sub(1) grp(1) h(2) by auto
  qed
  then have "tg_tree_ok ?s'"
    using tr sub grp rest(1) g(2) by (auto simp: tg_tree_ok_def)
  moreover have "group_admitted ?s' h" if h: "h \<in> set (task_groups ?s')" for h
  proof -
    have a: "group_admitted s h" using inv h grp(1) by (simp add: bw_inv_def)
    have r: "tg_ratio ?s' c = tg_ratio s c" for c by (simp add: tg_ratio_def rest)
    have "(\<Sum>c\<leftarrow>remove1 x xs. unat (tg_ratio s c)) \<le> (\<Sum>c\<leftarrow>xs. unat (tg_ratio s c))" for x xs
      by (induction xs) auto
    moreover have "length (remove1 x xs) < n" if "length xs < n" for x :: tg and xs n
      using that by (auto simp: length_remove1)
    ultimately show ?thesis
      using a settings_same_global(3) [OF set]
      by (auto simp: group_admitted_def Let_def kids r rest intro: order_trans)
  qed
  ultimately show ?thesis using inv settings_same_global(4) [OF set] by (simp add: bw_inv_def)
qed

section \<open>Every sequence of operations\<close>

text \<open>
  Steps of the control group subsystem and of the administrator, and everything else the kernel does, which leaves the
  settings alone. A group has fewer than 4096 children, the numbers of groups grow, and only groups without children
  are removed; the control group code sees to the last.
\<close>

inductive bw_step :: "sched_state \<Rightarrow> sched_state \<Rightarrow> bool" where
  create: "\<lbrakk>g \<notin> set (task_groups s); par \<in> set (task_groups s); par < g; length (tg_children (tgs s par)) < 4095\<rbrakk> \<Longrightarrow>
    bw_step s (snd (sched_create_group mem fair_mem rt_mem g par s))"
| destroy: "\<lbrakk>g \<in> set (task_groups s); g \<noteq> root_task_group; tg_children (tgs s g) = []\<rbrakk> \<Longrightarrow>
    bw_step s (sched_destroy_group g s)"
| set_runtime: "\<lbrakk>g \<in> set (task_groups s); sched_group_set_rt_runtime threads g us s = Some (r, s')\<rbrakk> \<Longrightarrow> bw_step s s'"
| set_period: "\<lbrakk>g \<in> set (task_groups s); sched_group_set_rt_period threads g us s = Some (r, s')\<rbrakk> \<Longrightarrow> bw_step s s'"
| handler: "\<lbrakk>p < 2 ^ 31; q < 2 ^ 31;
    \<not> (ret0 = 0 \<and> write) \<Longrightarrow> p = sysctl_sched_rt_period s \<and> q = sysctl_sched_rt_runtime s;
    sched_rt_handler threads write ret0 p q s = Some (r, s')\<rbrakk> \<Longrightarrow> bw_step s s'"
| other: "\<lbrakk>bw_settings_same s s'; task_groups s' = task_groups s;
    \<forall>g \<in> set (task_groups s). group_same s s' g\<rbrakk> \<Longrightarrow> bw_step s s'"

inductive bw_reachable :: "sched_state \<Rightarrow> bool" where
  init: "\<lbrakk>0 < sysctl_sched_rt_period s; sysctl_sched_rt_period s < 2 ^ 31;
    sysctl_sched_rt_runtime s \<le> sysctl_sched_rt_period s; tg_parent (tgs s root_task_group) = None\<rbrakk> \<Longrightarrow>
    bw_reachable (init_root_group s)"
| step: "\<lbrakk>bw_reachable s; bw_step s s'\<rbrakk> \<Longrightarrow> bw_reachable s'"

lemma bw_step_inv: "\<lbrakk>bw_step s s'; bw_inv s\<rbrakk> \<Longrightarrow> bw_inv s'"
proof (induction rule: bw_step.induct)
  case (handler p q ret0 "write" s threads r s')
  then show ?case using rt_handler_inv by blast
next
  case (other s s')
  then show ?case using bw_inv_frame by blast
qed (auto simp: create_group_inv destroy_group_inv dest: group_settings_inv)

lemma bw_init_inv:
  assumes "0 < sysctl_sched_rt_period s" "sysctl_sched_rt_period s < 2 ^ 31"
    "sysctl_sched_rt_runtime s \<le> sysctl_sched_rt_period s" "tg_parent (tgs s root_task_group) = None"
  shows "bw_inv (init_root_group s)"
proof -
  let ?s = "init_root_group s"
  have gl: "global_rt_period ?s = global_rt_period s" "global_rt_runtime ?s = global_rt_runtime s"
    by (simp_all add: init_root_group_def Let_def upd_tg_def global_rt_period_def global_rt_runtime_def)
  have b: "tg_rt_bandwidth (tgs ?s root_task_group) = init_rt_bandwidth (global_rt_period s) (global_rt_runtime s)"
    "def_rt_bandwidth ?s = init_rt_bandwidth (global_rt_period s) (global_rt_runtime s)"
    by (simp_all add: init_root_group_def Let_def upd_tg_def)
  have "global_rt_runtime s \<le> global_rt_period s \<or> global_rt_runtime s = RUNTIME_INF"
    using unat_usecs [of "sysctl_sched_rt_period s"] unat_usecs [of "sysctl_sched_rt_runtime s"] assms(1-3) nat_mono [OF assms(3)]
    by (simp add: global_rt_period_def global_rt_runtime_def NSEC_PER_USEC_def word_le_nat_alt)
  then have "global_ok ?s"
    using assms global_period_nonzero [OF assms(1,2)]
    by (auto simp: global_ok_def gl b init_rt_bandwidth_def) (auto simp: init_root_group_def Let_def upd_tg_def)
  moreover have "tg_tree_ok ?s"
    using assms(4) by (simp add: tg_tree_ok_def init_root_group_def Let_def upd_tg_def list_add_def)
  moreover have "group_admitted ?s root_task_group"
    using \<open>global_ok ?s\<close> global_period_nonzero [OF assms(1,2)]
    by (auto simp: group_admitted_def tg_ratio_def global_ratio_def gl b init_rt_bandwidth_def global_ok_def Let_def)
      (simp_all add: init_root_group_def Let_def upd_tg_def)
  ultimately show ?thesis by (simp add: bw_inv_def init_root_group_def Let_def upd_tg_def list_add_def)
qed

lemma bw_reachable_inv: "bw_reachable s \<Longrightarrow> bw_inv s"
  by (induction rule: bw_reachable.induct) (auto intro: bw_init_inv bw_step_inv)

text \<open>C12: however groups are created and destroyed, their limits set and the global limit changed, the real-time shares
  of the children of a group add up to at most the group's own share, and no group has more than the global share: the
  processor time promised to real-time tasks is never more than the administrator allows.\<close>

theorem rt_shares_bounded:
  assumes "bw_reachable s" and "g \<in> set (task_groups s)"
  shows "(\<Sum>c\<leftarrow>tg_children (tgs s g). unat (tg_ratio s c)) \<le> unat (tg_ratio s g) \<and> tg_ratio s g \<le> global_ratio s"
  using bw_reachable_inv [OF assms(1)] assms(2) by (simp add: bw_inv_def group_admitted_def)

text \<open>A machine with one group below the root.\<close>

definition bw0 :: sched_state where
  "bw0 = snd (sched_create_group True True True 1 0 (init_root_group state0))"

lemma bw0_reachable: "bw_reachable bw0"
proof -
  have "bw_reachable (init_root_group state0)"
    by (rule bw_reachable.init) (simp_all add: state0_def)
  moreover have "bw_step (init_root_group state0) bw0"
    unfolding bw0_def
    by (rule bw_step.create) (simp_all add: init_root_group_def state0_def Let_def upd_tg_def list_add_def root_task_group_def)
  ultimately show ?thesis by (rule bw_reachable.step)
qed

text \<open>The group gets 300 ms of every second.\<close>

lemma bw1_exists:
  obtains s where "bw_reachable s" "tg_children (tgs s 0) = [1]" "set (task_groups s) = {0, 1}"
    "rt_b_runtime (tg_rt_bandwidth (tgs s 1)) = 300000000" "tg_ratio s 1 = 314572" "tg_ratio s 0 = 996147"
proof -
  let ?p = "rt_period (tg_rt_bandwidth (tgs bw0 1))" and ?q = "300000000 :: u64"
  have inv: "bw_inv bw0" by (rule bw_reachable_inv [OF bw0_reachable])
  then have tr: "tg_tree_ok bw0" by (simp add: bw_inv_def)
  have acc: "\<forall>g \<in> set (task_groups bw0).
      fst (tg_rt_schedulable [] bw0 g \<lparr>rsd_tg = Some 1, rsd_period = ?p, rsd_runtime = ?q\<rparr>) = 0"
    by code_simp
  have p: "?p = 1000000000" "tg_children (tgs bw0 0) = [1]" "set (task_groups bw0) = {0, 1}"
    "rt_period (tg_rt_bandwidth (tgs bw0 0)) = 1000000000" "rt_b_runtime (tg_rt_bandwidth (tgs bw0 0)) = 950000000"
    by (code_simp, code_simp, code_simp, code_simp, code_simp)
  have "rt_schedulable [] (Some 1) ?p ?q bw0 = Some 0"
    using rt_schedulable_total [OF tr, of "[]" "Some 1" ?p ?q] acc by metis
  then have s: "tg_set_rt_bandwidth [] 1 ?p ?q bw0 = Some (0, upd_rt_rq 1 (\<lambda>r. r\<lparr>rt_runtime := ?q\<rparr>)
      (upd_tg 1 (\<lambda>x. x\<lparr>tg_rt_bandwidth := (tg_rt_bandwidth x)\<lparr>rt_period := ?p, rt_b_runtime := ?q\<rparr>\<rparr>) bw0))"
    (is "_ = Some (0, ?s)") by (simp add: tg_set_rt_bandwidth_def)
  then have "sched_group_set_rt_runtime [] 1 300000 bw0 = Some (0, ?s)"
    by (simp add: sched_group_set_rt_runtime_def NSEC_PER_USEC_def)
  moreover have "1 \<in> set (task_groups bw0)" by (simp add: p)
  ultimately have "bw_reachable ?s" using bw_reachable.step [OF bw0_reachable] bw_step.set_runtime by blast
  moreover have "to_ratio 1000000000 300000000 = 314572" "to_ratio 1000000000 950000000 = 996147"
    by (code_simp, code_simp)
  ultimately show thesis
    using that [of ?s] p by (simp add: upd_rt_rq_def upd_tg_def tg_ratio_def)
qed

theorem rt_shares_bounded_witness:
  "\<exists>s. bw_reachable s \<and> tg_children (tgs s 0) = [1] \<and> tg_ratio s 1 = 314572 \<and> tg_ratio s 0 = 996147 \<and>
     (\<Sum>c\<leftarrow>tg_children (tgs s 0). unat (tg_ratio s c)) \<le> unat (tg_ratio s 0)"
proof -
  obtain s where s: "bw_reachable s" "tg_children (tgs s 0) = [1]" "set (task_groups s) = {0, 1}"
    "rt_b_runtime (tg_rt_bandwidth (tgs s 1)) = 300000000" "tg_ratio s 1 = 314572" "tg_ratio s 0 = 996147"
    by (rule bw1_exists)
  then have "0 \<in> set (task_groups s)" by simp
  from rt_shares_bounded [OF s(1) this] s show ?thesis by blast
qed

section \<open>Failures, and what the check misses\<close>

text \<open>Setting the runtime of a group always returns; when it fails the state is untouched, and when it succeeds
  the group and its run queue have the new runtime, the other groups are as before and all groups are admitted.\<close>

theorem rt_runtime_all_or_nothing:
  assumes "bw_reachable s" and "g \<in> set (task_groups s)"
  shows "\<exists>r s'. sched_group_set_rt_runtime threads g us s = Some (r, s') \<and> (r \<noteq> 0 \<longrightarrow> s' = s) \<and>
    (r = 0 \<longrightarrow> bw_inv s' \<and> (\<forall>h. h \<noteq> g \<longrightarrow> tgs s' h = tgs s h) \<and>
      rt_b_runtime (tg_rt_bandwidth (tgs s' g)) = (if sint us < 0 then RUNTIME_INF else scast us * NSEC_PER_USEC) \<and>
      rt_runtime (rt_rqs s' g) = rt_b_runtime (tg_rt_bandwidth (tgs s' g)))"
proof -
  let ?q = "if sint us < 0 then RUNTIME_INF else scast us * NSEC_PER_USEC :: u64"
  let ?p = "rt_period (tg_rt_bandwidth (tgs s g))"
  have inv: "bw_inv s" using assms(1) by (rule bw_reachable_inv)
  have p: "?p \<noteq> 0" using inv assms(2) by (simp add: bw_inv_def group_admitted_def)
  have "\<exists>r s'. tg_set_rt_bandwidth threads g ?p ?q s = Some (r, s') \<and> (r \<noteq> 0 \<longrightarrow> s' = s) \<and>
    (r = 0 \<longrightarrow> bw_inv s' \<and> (\<forall>h. h \<noteq> g \<longrightarrow> tgs s' h = tgs s h) \<and>
      rt_b_runtime (tg_rt_bandwidth (tgs s' g)) = ?q \<and> rt_runtime (rt_rqs s' g) = rt_b_runtime (tg_rt_bandwidth (tgs s' g)))"
    (is "\<exists>r s'. ?P r s'")
  proof (rule tg_set_rt_bandwidth_cases [OF inv p, of threads g ?q])
    fix r assume "r \<noteq> 0" "tg_set_rt_bandwidth threads g ?p ?q s = Some (r, s)"
    then show ?thesis by blast
  next
    fix s' assume a: "tg_set_rt_bandwidth threads g ?p ?q s = Some (0, s')" "bw_inv s'"
      "tg_rt_bandwidth (tgs s' g) = (tg_rt_bandwidth (tgs s g))\<lparr>rt_period := ?p, rt_b_runtime := ?q\<rparr>"
      "rt_runtime (rt_rqs s' g) = ?q" "\<And>h. h \<noteq> g \<Longrightarrow> tgs s' h = tgs s h \<and> rt_rqs s' h = rt_rqs s h"
    have "rt_b_runtime (b\<lparr>rt_period := x, rt_b_runtime := y\<rparr>) = y" for b :: rt_bandwidth and x y by simp
    then have "rt_b_runtime (tg_rt_bandwidth (tgs s' g)) = ?q" unfolding a(3) by blast
    then have "?P 0 s'" using a(1,2,4,5) by (simp only: simp_thms) blast
    then show ?thesis by blast
  qed
  then show ?thesis unfolding sched_group_set_rt_runtime_def .
qed

theorem rt_runtime_all_or_nothing_witness:
  "\<exists>r s'. sched_group_set_rt_runtime [] 1 990000 bw0 = Some (r, s') \<and> (r \<noteq> 0 \<longrightarrow> s' = bw0)"
proof -
  have "1 \<in> set (task_groups bw0)" by code_simp
  from rt_runtime_all_or_nothing [OF bw0_reachable this, of "[]" 990000] show ?thesis by blast
qed

text \<open>C14: the check that is to keep a group with real-time tasks from losing its runtime looks at the run queue of the
  processor, which belongs to the root group, in place of the group of the task. So in a state reached by the
  admission operations in which that run queue belongs to the root group and the root group has a non-zero runtime,
  the runtime of any other group whose own groups have none can be set to 0, whatever real-time tasks it holds: the
  call returns 0, and the assigned runtime and the limit of the group's queue are 0 afterwards.\<close>

theorem rt_tasks_lose_runtime:
  assumes "bw_reachable s" and "g \<in> set (task_groups s)" and "g \<noteq> root_task_group"
    and root: "rt_rq_tg (rt_rqs s root_task_group) = Some root_task_group"
      "rt_b_runtime (tg_rt_bandwidth (tgs s root_task_group)) \<noteq> 0"
    and kids: "\<forall>c \<in> set (tg_children (tgs s g)). rt_b_runtime (tg_rt_bandwidth (tgs s c)) = 0"
  shows "\<exists>s'. sched_group_set_rt_runtime threads g 0 s = Some (0, s') \<and>
    rt_b_runtime (tg_rt_bandwidth (tgs s' g)) = 0 \<and> rt_runtime (rt_rqs s' g) = 0"
proof -
  have inv: "bw_inv s" using assms(1) by (rule bw_reachable_inv)
  then have tr: "tg_tree_ok s" by (simp add: bw_inv_def)
  let ?p = "rt_period (tg_rt_bandwidth (tgs s g))"
  define d where "d = \<lparr>rsd_tg = Some g, rsd_period = ?p, rsd_runtime = 0\<rparr>"
  have plan: "planned_period s d h = rt_period (tg_rt_bandwidth (tgs s h))"
    "planned_runtime s d h = (if h = g then 0 else rt_b_runtime (tg_rt_bandwidth (tgs s h)))" for h
    by (auto simp: planned_period_def planned_runtime_def d_def)
  have zero: "to_ratio p 0 = 0" for p by (simp add: to_ratio_def RUNTIME_INF_def)
  have ratio: "to_ratio (planned_period s d h) (planned_runtime s d h) = (if h = g then 0 else tg_ratio s h)" for h
    by (simp add: plan zero tg_ratio_def)
  have "fst (tg_rt_schedulable threads s h d) = 0" if h: "h \<in> set (task_groups s)" for h
  proof -
    let ?f = "\<lambda>c. if c = g then 0 else tg_ratio s c"
    have a: "group_admitted s h" using inv h by (simp add: bw_inv_def)
    have k: "c \<in> set (task_groups s)" if "c \<in> set (tg_children (tgs s h))" for c
      using tr h that by (auto simp: tg_tree_ok_def)
    have n: "unat (\<Sum>c\<leftarrow>tg_children (tgs s h). ?f c) = (\<Sum>c\<leftarrow>tg_children (tgs s h). unat (?f c))"
      using unat_sum_list [of "tg_children (tgs s h)" ?f] tg_ratio_le [OF inv] k a by (simp add: group_admitted_def)
    have "(\<Sum>c\<leftarrow>tg_children (tgs s h). unat (?f c)) \<le> unat (?f h)"
    proof (cases "h = g")
      case True
      have "?f c = 0" if "c \<in> set (tg_children (tgs s g))" for c using kids that by (simp add: tg_ratio_def zero)
      then have "map (\<lambda>c. unat (?f c)) (tg_children (tgs s h)) = map (\<lambda>c. 0) (tg_children (tgs s h))"
        using True by (intro map_cong refl) (simp only: unat_0)
      then show ?thesis by (simp only: sum_list_0 le0)
    next
      case False
      have "(\<Sum>c\<leftarrow>xs. unat (?f c)) \<le> (\<Sum>c\<leftarrow>xs. unat (tg_ratio s c))" for xs by (intro sum_list_mono) simp
      then show ?thesis using a False by (auto simp: group_admitted_def intro: order_trans)
    qed
    then have sum: "\<not> (\<Sum>c\<leftarrow>tg_children (tgs s h). ?f c) > ?f h" using n by (simp add: word_le_nat_alt not_less)
    have le: "\<not> ?f h > global_ratio s" using a by (simp add: group_admitted_def not_less)
    have rt: "\<not> (planned_runtime s d h = 0 \<and> tg_has_rt_tasks threads h s)"
      using root assms(3) by (auto simp: plan tg_has_rt_tasks_def list_ex_iff)
    have pr: "\<not> (planned_runtime s d h > planned_period s d h \<and> planned_runtime s d h \<noteq> RUNTIME_INF)"
      using a by (auto simp: plan group_admitted_def Let_def not_less)
    show ?thesis
      unfolding tg_rt_schedulable_def Let_def ratio global_ratio_def [symmetric]
      using sum le rt pr by simp
  qed
  then have "rt_schedulable threads (Some g) ?p 0 s = Some 0"
    using rt_schedulable_total [OF tr, of threads "Some g" ?p 0] by (metis d_def)
  then show ?thesis
    by (simp add: sched_group_set_rt_runtime_def tg_set_rt_bandwidth_def upd_rt_rq_def upd_tg_def)
qed

text \<open>Group 1 with runtime, and task 3 a real-time task in it.\<close>

theorem rt_tasks_lose_runtime_witness:
  "\<exists>s s'. rt_task (tasks s 3) \<and> sched_task_group (tasks s 3) = 1 \<and>
     rt_b_runtime (tg_rt_bandwidth (tgs s 1)) = 300000000 \<and>
     sched_group_set_rt_runtime [3] 1 0 s = Some (0, s') \<and> rt_b_runtime (tg_rt_bandwidth (tgs s' 1)) = 0"
proof -
  obtain s where s: "bw_reachable s" "tg_children (tgs s 0) = [1]" "set (task_groups s) = {0, 1}"
    "rt_b_runtime (tg_rt_bandwidth (tgs s 1)) = 300000000" "tg_ratio s 1 = 314572" "tg_ratio s 0 = 996147"
    by (rule bw1_exists)
  define t where "t = upd_task 3 (\<lambda>x. x\<lparr>prio := 50, sched_task_group := 1\<rparr>) (upd_rt_rq 0 (\<lambda>r. r\<lparr>rt_rq_tg := Some 0\<rparr>) s)"
  have f: "tgs t = tgs s" "task_groups t = task_groups s" "rt_rq_tg (rt_rqs t 0) = Some 0"
    "rt_task (tasks t 3)" "sched_task_group (tasks t 3) = 1"
    by (simp_all add: t_def upd_task_def upd_rt_rq_def rt_task_def rt_prio_def prio_defs)
  have "bw_step s t"
    by (rule bw_step.other) (simp_all add: t_def bw_settings_same_def group_same_def upd_task_def upd_rt_rq_def)
  with s(1) have r: "bw_reachable t" by (rule bw_reachable.step)
  have "tg_ratio s 0 \<noteq> 0" using s(6) by simp
  then have z: "rt_b_runtime (tg_rt_bandwidth (tgs t root_task_group)) \<noteq> 0"
    by (auto simp: f tg_ratio_def to_ratio_def RUNTIME_INF_def root_task_group_def)
  have "c \<in> {0, 1} \<and> 1 < c" if "c \<in> set (tg_children (tgs t 1))" for c
    using tg_tree_okD(5) [of t 1 c] bw_reachable_inv [OF r] that s(3) by (auto simp: bw_inv_def f)
  then have "tg_children (tgs t 1) = []" by (cases "tg_children (tgs t 1)") auto
  then have "\<exists>s'. sched_group_set_rt_runtime [3] 1 0 t = Some (0, s') \<and>
      rt_b_runtime (tg_rt_bandwidth (tgs s' 1)) = 0 \<and> rt_runtime (rt_rqs s' 1) = 0"
    using r z by (intro rt_tasks_lose_runtime) (simp_all add: f s(3) root_task_group_def)
  then show ?thesis using f s(4) by auto
qed

text \<open>A period that does not fit a \<open>long\<close> is cut to its low half, not refused.\<close>

lemma ucast_high_half: "(ucast (2 ^ 32 + v :: 64 word) :: 32 word) = ucast v"
proof -
  have u: "uint (ucast x :: 32 word) = uint x mod 4294967296" for x :: "64 word"
    by (simp add: unsigned_ucast_eq take_bit_eq_mod)
  have w: "uint (v + 2 ^ 32) = (uint v + 4294967296) mod 18446744073709551616"
    by (simp add: uint_word_ariths)
  have "(x + 4294967296) mod 18446744073709551616 mod 4294967296 = (x + 4294967296) mod 4294967296" for x :: int
    by (rule mod_mod_cancel) simp
  then have "uint (ucast (v + 2 ^ 32) :: 32 word) = uint (ucast v :: 32 word)"
    unfolding u w by simp
  then show ?thesis by (simp only: word_uint_eq_iff add.commute)
qed

lemma cpu_rt_period_truncates:
  "cpu_rt_period_write_uint threads g (2 ^ 32 + v) s = cpu_rt_period_write_uint threads g v s"
  unfolding cpu_rt_period_write_uint_def ucast_high_half ..

end
