(* ===== verification/Core_Wait.thy ===== *)
theory Core_Wait
  imports Core_Prio
begin

text \<open>
  Wait queues and completions, \<open>kernel/sched/core.c\<close>: the functions that wake the tasks on a queue, the completion with
  its counter, and the functions that wait on either. A function that sleeps is split at its call of
  \<open>schedule_timeout\<close>, which is outside the repository: one definition takes the lock and runs up to the call, another goes on
  with the time the call returns. Each part runs with the lock of the queue held, so nothing comes in between.
\<close>

section \<open>Wait queues\<close>

text \<open>An entry of a queue: its address, its flags, its task and the function that wakes it.\<close>

type_synonym wake_func = "task \<Rightarrow> u32 \<Rightarrow> u32 \<Rightarrow> sched_state \<Rightarrow> bool \<times> sched_state"

record wait_queue_t =
  wq_node :: nat
  wq_flags :: u32
  wq_private :: task
  wq_func :: wake_func

definition WQ_FLAG_EXCLUSIVE :: u32 where "WQ_FLAG_EXCLUSIVE = 1"

definition default_wake_function :: "kservices \<Rightarrow> wake_func" where
  "default_wake_function K p mode wake_flags s = try_to_wake_up K p mode wake_flags s"

fun wake_up_common :: "u32 \<Rightarrow> int \<Rightarrow> u32 \<Rightarrow> wait_queue_t list \<Rightarrow> sched_state \<Rightarrow> sched_state" where
  "wake_up_common mode nr_exclusive wake_flags [] s = s"
| "wake_up_common mode nr_exclusive wake_flags (c # cs) s =
     (case wq_func c (wq_private c) mode wake_flags s of
        (woken, s1) \<Rightarrow>
          if woken \<and> flag_set (wq_flags c) WQ_FLAG_EXCLUSIVE
          then (if nr_exclusive - 1 = 0 then s1 else wake_up_common mode (nr_exclusive - 1) wake_flags cs s1)
          else wake_up_common mode nr_exclusive wake_flags cs s1)"

definition wake_up :: "u32 \<Rightarrow> int \<Rightarrow> wait_queue_t list \<Rightarrow> sched_state \<Rightarrow> sched_state" where
  "wake_up mode nr_exclusive q s = wake_up_common mode nr_exclusive 0 q s"

definition wake_up_locked :: "u32 \<Rightarrow> int \<Rightarrow> wait_queue_t list \<Rightarrow> sched_state \<Rightarrow> sched_state" where
  "wake_up_locked mode nr q s = wake_up_common mode nr 0 q s"

definition wake_up_locked_key :: "u32 \<Rightarrow> wait_queue_t list \<Rightarrow> sched_state \<Rightarrow> sched_state" where
  "wake_up_locked_key mode q s = wake_up_common mode 1 0 q s"

text \<open>\<open>None\<close> is the null queue.\<close>

definition wake_up_sync_key :: "u32 \<Rightarrow> int \<Rightarrow> wait_queue_t list option \<Rightarrow> sched_state \<Rightarrow> sched_state" where
  "wake_up_sync_key mode nr_exclusive q s =
     (case q of
        None \<Rightarrow> s
      | Some es \<Rightarrow> wake_up_common mode nr_exclusive (if nr_exclusive = 0 then 0 else WF_SYNC) es s)"

definition wake_up_sync :: "u32 \<Rightarrow> int \<Rightarrow> wait_queue_t list option \<Rightarrow> sched_state \<Rightarrow> sched_state" where
  "wake_up_sync mode nr_exclusive q s = wake_up_sync_key mode nr_exclusive q s"

definition set_task_state :: "task \<Rightarrow> u32 \<Rightarrow> sched_state \<Rightarrow> sched_state" where
  "set_task_state p st = upd_task p (\<lambda>t. t\<lparr>tstate := st\<rparr>)"

section \<open>Completions\<close>

definition ERESTARTSYS :: int where "ERESTARTSYS = 512"
definition MAX_SCHEDULE_TIMEOUT :: int where "MAX_SCHEDULE_TIMEOUT = 2147483647"

record completion =
  comp_done :: u32
  comp_wait :: "wait_queue_t list"

text \<open>The entry a waiting task puts on its stack; a task waits for one thing at a time and gives the entry its number.\<close>

definition declare_waitqueue :: "kservices \<Rightarrow> task \<Rightarrow> wait_queue_t" where
  "declare_waitqueue K p = \<lparr>wq_node = p, wq_flags = 0, wq_private = p, wq_func = default_wake_function K\<rparr>"

definition add_wait_queue_tail_exclusive :: "wait_queue_t \<Rightarrow> wait_queue_t list \<Rightarrow> wait_queue_t list" where
  "add_wait_queue_tail_exclusive w q = list_add_tail (w\<lparr>wq_flags := wq_flags w OR WQ_FLAG_EXCLUSIVE\<rparr>) q"

definition remove_wait_queue :: "nat \<Rightarrow> wait_queue_t list \<Rightarrow> wait_queue_t list" where
  "remove_wait_queue node q = filter (\<lambda>c. wq_node c \<noteq> node) q"

definition complete1 :: "completion \<times> sched_state \<Rightarrow> completion \<times> sched_state" where
  "complete1 xs =
     (case xs of (x, s) \<Rightarrow>
        (x\<lparr>comp_done := comp_done x + 1\<rparr>, wake_up_common TASK_NORMAL 1 0 (comp_wait x) s))"

definition complete_all :: "completion \<times> sched_state \<Rightarrow> completion \<times> sched_state" where
  "complete_all xs =
     (case xs of (x, s) \<Rightarrow>
        (x\<lparr>comp_done := comp_done x + 0xFFFFFFFF div 2\<rparr>, wake_up_common TASK_NORMAL 0 0 (comp_wait x) s))"

text \<open>A part of a wait either returns or sleeps, with the time it hands to \<open>schedule_timeout\<close>.\<close>

datatype wait_result = Returned int | Sleeps int

text \<open>Leaving the loop: unlink the entry, and take one completion if there is one.\<close>

definition wait_leave :: "task \<Rightarrow> int \<Rightarrow> completion \<times> sched_state \<Rightarrow> wait_result \<times> completion \<times> sched_state" where
  "wait_leave p timeout xs =
     (case xs of (x, s) \<Rightarrow>
        let x1 = x\<lparr>comp_wait := remove_wait_queue p (comp_wait x)\<rparr>
        in if comp_done x1 = 0 then (Returned timeout, x1, s)
           else (Returned (if timeout = 0 then 1 else timeout), x1\<lparr>comp_done := comp_done x1 - 1\<rparr>, s))"

text \<open>The body of the loop up to the call of \<open>schedule_timeout\<close>.\<close>

definition wait_body ::
    "task \<Rightarrow> u32 \<Rightarrow> int \<Rightarrow> completion \<times> sched_state \<Rightarrow> wait_result \<times> completion \<times> sched_state" where
  "wait_body p state timeout xs =
     (if signal_pending_state state (tasks (snd xs) p) then wait_leave p (- ERESTARTSYS) xs
      else (case xs of (x, s) \<Rightarrow> (Sleeps timeout, x, set_task_state p state s)))"

text \<open>\<open>do_wait_for_common\<close> for the task \<open>p\<close>: the start, and what follows when \<open>schedule_timeout\<close> returns \<open>timeout\<close>.\<close>

definition wait_start ::
    "kservices \<Rightarrow> task \<Rightarrow> u32 \<Rightarrow> int \<Rightarrow> completion \<times> sched_state \<Rightarrow> wait_result \<times> completion \<times> sched_state" where
  "wait_start K p state timeout xs =
     (case xs of (x, s) \<Rightarrow>
        if comp_done x = 0
        then wait_body p state timeout
               (x\<lparr>comp_wait := add_wait_queue_tail_exclusive (declare_waitqueue K p) (comp_wait x)\<rparr>, s)
        else (Returned (if timeout = 0 then 1 else timeout), x\<lparr>comp_done := comp_done x - 1\<rparr>, s))"

definition wait_resume ::
    "task \<Rightarrow> u32 \<Rightarrow> int \<Rightarrow> completion \<times> sched_state \<Rightarrow> wait_result \<times> completion \<times> sched_state" where
  "wait_resume p state timeout xs =
     (if comp_done (fst xs) = 0 \<and> timeout \<noteq> 0 then wait_body p state timeout xs else wait_leave p timeout xs)"

text \<open>The states, the first timeouts and the results of the functions around it.\<close>

definition wait_for_completion_args :: "u32 \<times> int" where
  "wait_for_completion_args = (TASK_UNINTERRUPTIBLE, MAX_SCHEDULE_TIMEOUT)"

definition wait_for_completion_timeout_args :: "ulong \<Rightarrow> u32 \<times> int" where
  "wait_for_completion_timeout_args timeout = (TASK_UNINTERRUPTIBLE, sint timeout)"

definition wait_for_completion_interruptible_args :: "u32 \<times> int" where
  "wait_for_completion_interruptible_args = (TASK_INTERRUPTIBLE, MAX_SCHEDULE_TIMEOUT)"

definition wait_for_completion_interruptible_timeout_args :: "ulong \<Rightarrow> u32 \<times> int" where
  "wait_for_completion_interruptible_timeout_args timeout = (TASK_INTERRUPTIBLE, sint timeout)"

definition wait_for_completion_killable_args :: "u32 \<times> int" where
  "wait_for_completion_killable_args = (TASK_KILLABLE, MAX_SCHEDULE_TIMEOUT)"

definition wait_for_completion_killable_timeout_args :: "ulong \<Rightarrow> u32 \<times> int" where
  "wait_for_completion_killable_timeout_args timeout = (TASK_KILLABLE, sint timeout)"

text \<open>What the two interruptible functions without a timeout make of the result.\<close>

definition interrupted_result :: "int \<Rightarrow> int" where
  "interrupted_result t = (if t = - ERESTARTSYS then t else 0)"

definition try_wait_for_completion :: "completion \<Rightarrow> bool \<times> completion" where
  "try_wait_for_completion x =
     (if comp_done x = 0 then (False, x) else (True, x\<lparr>comp_done := comp_done x - 1\<rparr>))"

definition completion_done :: "completion \<Rightarrow> bool" where
  "completion_done x = (if comp_done x = 0 then False else True)"

section \<open>Sleeping on a queue\<close>

text \<open>\<open>sleep_on_common\<close> before and after its call of \<open>schedule_timeout\<close>.\<close>

definition sleep_on_start :: "kservices \<Rightarrow> task \<Rightarrow> u32 \<Rightarrow> wait_queue_t list \<times> sched_state \<Rightarrow> wait_queue_t list \<times> sched_state" where
  "sleep_on_start K p state qs =
     (list_add (declare_waitqueue K p) (fst qs), set_task_state p state (snd qs))"

definition sleep_on_finish :: "task \<Rightarrow> int \<Rightarrow> wait_queue_t list \<times> sched_state \<Rightarrow> int \<times> wait_queue_t list \<times> sched_state" where
  "sleep_on_finish p timeout qs = (timeout, remove_wait_queue p (fst qs), snd qs)"

definition interruptible_sleep_on_args :: "u32 \<times> int" where
  "interruptible_sleep_on_args = (TASK_INTERRUPTIBLE, MAX_SCHEDULE_TIMEOUT)"

definition sleep_on_args :: "u32 \<times> int" where
  "sleep_on_args = (TASK_UNINTERRUPTIBLE, MAX_SCHEDULE_TIMEOUT)"

definition interruptible_sleep_on_timeout_args :: "int \<Rightarrow> u32 \<times> int" where
  "interruptible_sleep_on_timeout_args timeout = (TASK_INTERRUPTIBLE, timeout)"

definition sleep_on_timeout_args :: "int \<Rightarrow> u32 \<times> int" where
  "sleep_on_timeout_args timeout = (TASK_UNINTERRUPTIBLE, timeout)"

end
