(* ===== verification/Core_Frames.thy ===== *)
theory Core_Frames
  imports Core_Prio Rt_Class Ras_Proofs
begin

text \<open>
  What the operations of a scheduling class leave alone: the policy, the priorities, the class and
  the sleep state of every task, and which tasks are current, idle and stop. The core relies on
  this of every class; the locale states it once, and the two classes of the repository interpret
  it.
\<close>

definition sched_id :: "task_struct \<Rightarrow> (int \<times> int \<times> int \<times> int \<times> int) \<times> (sched_class_id \<times> bool \<times> u32 \<times> u32 \<times> bool \<times> bool)" where
  "sched_id t = ((policy t, static_prio t, normal_prio t, prio t, rt_priority t),
     (sched_class t, sched_reset_on_fork t, tstate t, tflags t, on_rq t, has_mm t))"

definition ids_same :: "sched_state \<Rightarrow> sched_state \<Rightarrow> bool" where
  "ids_same s s' \<longleftrightarrow> (\<forall>t. sched_id (tasks s' t) = sched_id (tasks s t)) \<and>
     curr (rq s') = curr (rq s) \<and> idle (rq s') = idle (rq s) \<and> stop (rq s') = stop (rq s)"

lemma ids_same_refl [simp]: "ids_same s s"
  by (simp add: ids_same_def)

lemma ids_same_trans [trans]: "\<lbrakk>ids_same s t; ids_same t u\<rbrakk> \<Longrightarrow> ids_same s u"
  by (simp add: ids_same_def)

lemma ids_same_fields:
  assumes "ids_same s s'"
  shows "policy (tasks s' t) = policy (tasks s t)" "static_prio (tasks s' t) = static_prio (tasks s t)"
    "normal_prio (tasks s' t) = normal_prio (tasks s t)" "prio (tasks s' t) = prio (tasks s t)"
    "rt_priority (tasks s' t) = rt_priority (tasks s t)" "sched_class (tasks s' t) = sched_class (tasks s t)"
    "tstate (tasks s' t) = tstate (tasks s t)" "on_rq (tasks s' t) = on_rq (tasks s t)" "curr (rq s') = curr (rq s)"
    "has_mm (tasks s' t) = has_mm (tasks s t)"
  using assms by (auto simp: ids_same_def sched_id_def)

lemma ids_same_upd:
  "(\<And>t. sched_id (f t) = sched_id t) \<Longrightarrow> ids_same s (upd_task p f s)"
  "(\<And>r. curr (g r) = curr r \<and> idle (g r) = idle r \<and> stop (g r) = stop r) \<Longrightarrow> ids_same s (upd_rq g s)"
  "ids_same s (upd_rt_rq h u s)" "ids_same s (upd_rt_se e v s)" "ids_same s (emit ev s)"
  by (simp_all add: ids_same_def upd_defs)

lemma ids_same_if: "\<lbrakk>ids_same s a; ids_same s b\<rbrakk> \<Longrightarrow> ids_same s (if c then a else b)"
  by simp

lemma ids_same_simple [simp]:
  "ids_same s (resched_task p s)" "ids_same s (set_tsk_need_resched p s)" "ids_same s (clear_tsk_need_resched p s)"
  "ids_same s (inc_nr_running s)" "ids_same s (dec_nr_running s)" "ids_same s (cpuacct_charge p d s)"
  "ids_same s (start_rt_bandwidth g s)" "ids_same s (upd_leaf_list lf s)"
  "ids_same s (upd_ras_list f s)" "ids_same s (upd_ras_nr n s)" "ids_same s (update_rq_clock K s)"
  by (simp_all add: ids_same_def sched_id_def resched_task_def set_tsk_need_resched_def clear_tsk_need_resched_def
      inc_nr_running_def dec_nr_running_def upd_leaf_list_def upd_ras_list_def upd_ras_nr_def update_rq_clock_def
      update_rq_clock_task_def Let_def upd_defs)

lemma ids_same_fold:
  "(\<And>x st. ids_same st (f x st)) \<Longrightarrow> ids_same s (fold f xs s)"
  by (induction xs arbitrary: s) (simp_all, metis ids_same_trans)

section \<open>The real-time class\<close>

lemma ids_same_entity1 [simp]:
  "ids_same s (enqueue_rt_entity1 head e s)" "ids_same s (dequeue_rt_entity1 e s)"
proof -
  have inc: "ids_same st (inc_rt_tasks e g st)" "ids_same st (dec_rt_tasks e g st)" for g st
    by (simp_all add: ids_same_def inc_rt_tasks_effect(3,4) dec_rt_tasks_effect(3,4))
  have a: "ids_same s (set_bitmap g p b (upd_queue g p f (if c then upd_leaf_list l s else s)))" for g p b f c l
    by (simp add: ids_same_def upd_leaf_list_def upd_queue_def set_bitmap_def upd_rt_rq_def upd_rq_def)
  show "ids_same s (enqueue_rt_entity1 head e s)"
    unfolding enqueue_rt_entity1_def Let_def by (intro ids_same_if ids_same_refl ids_same_trans [OF a inc(1)])
  have b: "ids_same s (if c then set_bitmap g p b (upd_rt_rq g u s) else upd_rt_rq g u s)" for c g p b u
    by (simp add: ids_same_def set_bitmap_def upd_rt_rq_def)
  show "ids_same s (dequeue_rt_entity1 e s)"
    unfolding dequeue_rt_entity1_def Let_def
    by (intro ids_same_if ids_same_trans [OF ids_same_trans [OF b inc(2)] ids_same_simple(8)] ids_same_trans [OF b inc(2)])
qed

lemma ids_same_entity [simp]:
  "ids_same s (dequeue_rt_stack e s)" "ids_same s (enqueue_rt_entity head e s)" "ids_same s (dequeue_rt_entity e s)"
proof -
  show st: "ids_same s (dequeue_rt_stack e s)"
    unfolding dequeue_rt_stack_def by (rule ids_same_fold) simp
  show "ids_same s (enqueue_rt_entity head e s)"
    unfolding enqueue_rt_entity_def by (rule ids_same_trans [OF st ids_same_fold]) simp
  show "ids_same s (dequeue_rt_entity e s)"
    unfolding dequeue_rt_entity_def by (rule ids_same_trans [OF st ids_same_fold]) (simp split: option.split)
qed

lemma ids_same_rq_dequeue [simp]: "ids_same s (sched_rt_rq_dequeue g s)"
  by (simp add: sched_rt_rq_dequeue_def split: option.split)

lemma ids_same_exceeded: "ids_same s (snd (sched_rt_runtime_exceeded g s))"
proof -
  have "ids_same s (sched_rt_rq_dequeue g (upd_rt_rq g u s))" for u
    by (rule ids_same_trans [OF ids_same_upd(3) ids_same_rq_dequeue])
  then show ?thesis by (simp add: sched_rt_runtime_exceeded_def Let_def ids_same_upd)
qed

lemma ids_same_charge [simp]: "ids_same s (charge_rt_entity d e s)"
proof -
  let ?g = "rt_rq_of (rt_ses s e)"
  let ?s1 = "upd_rt_rq ?g (\<lambda>r. r\<lparr>rt_time := rt_time r + d\<rparr>) s"
  obtain ex s2 where x: "sched_rt_runtime_exceeded ?g ?s1 = (ex, s2)" by fastforce
  have "ids_same s s2"
    using ids_same_trans [OF ids_same_upd(3) ids_same_exceeded [of ?s1 ?g]] x by simp
  then show ?thesis
    using ids_same_trans ids_same_simple(1) by (simp add: charge_rt_entity_def Let_def x)
qed

lemma ids_same_account:
  "ids_same s (cpuacct_charge p d (upd_task p (\<lambda>t. t\<lparr>se := f t\<rparr>) (emit ev (upd_task p (\<lambda>t. t\<lparr>se := h t\<rparr>) s))))"
  by (simp add: ids_same_def sched_id_def upd_defs)

lemma ids_same_update_curr_rt [simp]: "ids_same s (update_curr_rt s)"
proof -
  have f: "ids_same s (if c then s else if b st then st else fold (charge_rt_entity d) xs st)" if "ids_same s st" for c b d xs st
    using that ids_same_trans [OF that ids_same_fold [of "charge_rt_entity d"]] by simp
  show ?thesis unfolding update_curr_rt_def Let_def by (rule f, rule ids_same_account)
qed

lemma ids_same_watchdog_rt [simp]: "ids_same s (watchdog_rt env p s)"
  by (simp add: watchdog_rt_def Let_def ids_same_def sched_id_def upd_defs)

lemma ids_same_requeue [simp]: "ids_same s (requeue_task_rt head p s)"
  unfolding requeue_task_rt_def
  by (rule ids_same_fold) (simp add: requeue_rt_entity_def upd_queue_def ids_same_upd)

lemma ids_same_tick_rt: "ids_same s (task_tick_rt env p s)"
proof -
  let ?s1 = "watchdog_rt env p (update_curr_rt s)"
  have s1: "ids_same s ?s1" by (rule ids_same_trans [OF ids_same_update_curr_rt ids_same_watchdog_rt])
  have k: "ids_same s (f ?s1)" if "\<And>st. ids_same st (f st)" for f by (rule ids_same_trans [OF s1 that])
  have e: "ids_same st (upd_rt_se x v (if b then emit ev st else st))" "ids_same st (upd_rt_se x w (upd_rt_se x v (if b then emit ev st else st)))"
    "ids_same st (if b then emit ev st else st)" for st x v w b ev
    by (simp_all add: ids_same_def upd_defs)
  have r: "ids_same s (set_tsk_need_resched p (requeue_task_rt False p st))" if "ids_same s st" for st
    using that ids_same_trans ids_same_requeue ids_same_simple(2) by blast
  show ?thesis
    unfolding task_tick_rt_def Let_def
    by (intro ids_same_if r ids_same_trans [OF s1 e(1)] ids_same_trans [OF s1 e(2)] s1 ids_same_trans [OF s1 ids_same_upd(5)])
qed

section \<open>The race-averse class\<close>

lemma ids_same_update_curr_ras [simp]: "ids_same s (update_curr_ras s)"
  unfolding update_curr_ras_def Let_def by (intro ids_same_if ids_same_refl ids_same_account)

lemma ids_same_ras_refill [simp]: "ids_same s (ras_refill env p s)" "ids_same s (watchdog_ras env p s)"
  by (simp_all add: ras_refill_def watchdog_ras_def Let_def ids_same_def sched_id_def upd_defs)

lemma ids_same_ras_ops:
  "ids_same s (enqueue_task_ras env p flags s)" "ids_same s (dequeue_task_ras p flags s)"
  "ids_same s (put_prev_task_ras p s)" "ids_same s (task_tick_ras env p s)"
proof -
  have u: "ids_same st (upd_task q (\<lambda>t. t\<lparr>ras := f t\<rparr>) st)" for st q f
    by (simp add: ids_same_def sched_id_def upd_task_def)
  have t: "ids_same s (g st)" if "ids_same s st" "\<And>st. ids_same st (g st)" for g st
    using that ids_same_trans by blast
  note steps = t [OF _ ids_same_simple(4)] t [OF _ ids_same_simple(5)] t [OF _ ids_same_simple(9)] t [OF _ ids_same_simple(10)]
    t [OF _ ids_same_simple(2)] t [OF _ u] t [OF _ ids_same_upd(5)] ids_same_if
  note base = ids_same_ras_refill ids_same_update_curr_ras
  show "ids_same s (enqueue_task_ras env p flags s)"
    unfolding enqueue_task_ras_def Let_def by (intro steps base)
  show "ids_same s (dequeue_task_ras p flags s)"
    unfolding dequeue_task_ras_def Let_def by (intro steps base)
  show "ids_same s (put_prev_task_ras p s)"
    unfolding put_prev_task_ras_def Let_def by (intro steps base)
  have w: "ids_same s (watchdog_ras env p (update_curr_ras s))" by (rule ids_same_trans [OF base(3) base(2)])
  show "ids_same s (task_tick_ras env p s)"
    unfolding task_tick_ras_def Let_def by (intro steps t [OF _ base(1)] w)
qed

section \<open>The contract of a class\<close>

locale class_keeps =
  fixes ops :: class_ops
  assumes enqueue_ids: "ids_same s (enqueue_op ops p flags s)"
    and dequeue_ids: "ids_same s (dequeue_op ops p flags s)"
    and yield_ids: "ids_same s (yield_op ops s)"
    and check_preempt_ids: "ids_same s (check_preempt_op ops p flags s)"
    and pick_next_ids: "pick_next_op ops s = Some (r, s') \<Longrightarrow> ids_same s s'"
    and put_prev_ids: "ids_same s (put_prev_op ops p s)"
    and set_curr_ids: "ids_same s (set_curr_op ops s)"
    and task_tick_ids: "ids_same s (task_tick_op ops p s)"
    and switched_from_ids: "switched_from_op ops = Some f \<Longrightarrow> ids_same s (f p s)"
    and switched_to_ids: "ids_same s (switched_to_op ops p s)"
    and prio_changed_ids: "ids_same s (prio_changed_op ops p oldprio s)"
    and task_fork_ids: "task_fork_op ops = Some k \<Longrightarrow> ids_same s (k p s)"
    and task_move_ids: "task_move_group_op ops = Some m \<Longrightarrow> ids_same s (m p q s)"
begin

text \<open>Around a change of a queued or running task of one class nothing else changes.\<close>

lemma round_trip_ids:
  "ids_same s (enqueue_op ops p flags (set_curr_op ops (put_prev_op ops p (dequeue_op ops p flags' s))))"
  by (rule ids_same_trans [OF dequeue_ids], rule ids_same_trans [OF put_prev_ids], rule ids_same_trans [OF set_curr_ids],
      rule enqueue_ids)

lemma switch_ids: "pick_next_op ops (put_prev_op ops p s) = Some (r, s') \<Longrightarrow> ids_same s s'"
  using ids_same_trans [OF put_prev_ids pick_next_ids] by blast

end

lemma ids_same_se: "ids_same s (upd_task q (\<lambda>t. t\<lparr>se := f t\<rparr>) s)" "ids_same s (upd_task q (\<lambda>t. t\<lparr>ras := g t\<rparr>) s)"
  by (simp_all add: ids_same_def sched_id_def upd_task_def)

interpretation rt_class: class_keeps "rt_class_ops env" for env
proof (unfold_locales, goal_cases)
  case (1 s p flags)
  have "ids_same s (if c then upd_rt_se e v s else s)" for c e v by (simp add: ids_same_upd)
  from ids_same_trans [OF ids_same_trans [OF this ids_same_entity(2)] ids_same_simple(4)]
  show ?case by (simp add: rt_class_ops_def enqueue_task_rt_def Let_def)
next
  case (2 s p flags)
  show ?case
    using ids_same_trans [OF ids_same_trans [OF ids_same_update_curr_rt ids_same_entity(3)] ids_same_simple(5)]
    by (simp add: rt_class_ops_def dequeue_task_rt_def)
next
  case (5 s r s')
  then show ?case
    by (auto simp: rt_class_ops_def pick_next_task_rt_def Let_def Option.bind_eq_Some_conv ids_same_se split: if_splits)
qed (simp_all add: rt_class_ops_def yield_task_rt_def check_preempt_curr_rt_def put_prev_task_rt_def set_curr_task_rt_def
    ids_same_tick_rt switched_to_rt_def prio_changed_rt_def ids_same_se)

interpretation ras_class: class_keeps "ras_class_ops env" for env
proof (unfold_locales, goal_cases)
  case (4 s p flags)
  show ?case
    using ids_same_trans [OF ids_same_trans [OF ids_same_se(2) ids_same_se(2)] ids_same_simple(1)]
      ids_same_trans [OF ids_same_se(2) ids_same_se(2)]
    by (simp add: ras_class_ops_def check_preempt_curr_ras_def Let_def)
next
  case (5 s r s')
  then show ?case
    by (auto simp: ras_class_ops_def pick_next_task_ras_def ids_same_se split: if_splits list.splits)
qed (simp_all add: ras_class_ops_def ids_same_ras_ops yield_task_ras_def set_curr_task_ras_def ids_same_se
    switched_to_ras_def prio_changed_ras_def)

text \<open>The classes outside the repository keep the contract.\<close>

definition ext_ok :: "kservices \<Rightarrow> bool" where
  "ext_ok K \<longleftrightarrow> (\<forall>c. class_keeps (ext_class K c))"

lemma class_of_keeps: "ext_ok K \<Longrightarrow> class_keeps (class_of K c)"
  using rt_class.class_keeps_axioms ras_class.class_keeps_axioms
  by (cases c) (simp_all add: class_of_def ext_ok_def)

lemma task_class_keeps: "ext_ok K \<Longrightarrow> class_keeps (task_class K s p)"
  by (simp add: task_class_def class_of_keeps)

end
