(* ===== verification/Core_Proofs.thy ===== *)
theory Core_Proofs
  imports Core_Frames
begin

text \<open>
  Properties of the core of the scheduler: which task it picks, that its shortcut for fair tasks
  changes nothing, that every operation on priorities and policies keeps a task well typed, that a
  failing system call changes nothing, and what a fork does to the child of a race-averse task.
\<close>

section \<open>Frames of the core\<close>

lemma ids_same_enqueue [simp]: "ext_ok K \<Longrightarrow> ids_same s (enqueue_task K p flags s)"
  unfolding enqueue_task_def Let_def
  by (rule ids_same_trans [OF ids_same_simple(11) class_keeps.enqueue_ids [OF task_class_keeps]])

lemma ids_same_dequeue [simp]: "ext_ok K \<Longrightarrow> ids_same s (dequeue_task K p flags s)"
  unfolding dequeue_task_def Let_def
  by (rule ids_same_trans [OF ids_same_simple(11) class_keeps.dequeue_ids [OF task_class_keeps]])

lemma ids_same_suspend [simp]: "ext_ok K \<Longrightarrow> ids_same s (suspend_task K p queued running s)"
  unfolding suspend_task_def Let_def
  using ids_same_trans [OF ids_same_dequeue class_keeps.put_prev_ids [OF task_class_keeps]]
    class_keeps.put_prev_ids [OF task_class_keeps] by simp

lemma ids_same_resume [simp]: "ext_ok K \<Longrightarrow> ids_same s (resume_task K p flags queued running s)"
  unfolding resume_task_def Let_def
  using ids_same_trans [OF class_keeps.set_curr_ids [OF task_class_keeps] ids_same_enqueue]
    class_keeps.set_curr_ids [OF task_class_keeps] by simp

lemma ids_same_class_changed [simp]: "ext_ok K \<Longrightarrow> ids_same s (check_class_changed K p c oldprio s)"
proof -
  assume ok: "ext_ok K"
  have f: "ids_same s (case switched_from_op (class_of K c) of None \<Rightarrow> s | Some f \<Rightarrow> f p s)"
    using class_keeps.switched_from_ids [OF class_of_keeps [OF ok]] by (simp split: option.split)
  show ?thesis
    unfolding check_class_changed_def Let_def
    by (intro ids_same_if ids_same_refl ids_same_trans [OF f class_keeps.switched_to_ids [OF task_class_keeps [OF ok]]]
        class_keeps.prio_changed_ids [OF task_class_keeps [OF ok]])
qed

section \<open>Well-typed tasks\<close>

text \<open>
  The priorities of a task fit its policy, and its class is the one its policy and priority call
  for. A priority below the normal one is inherited.
\<close>

definition task_typed :: "task_struct \<Rightarrow> bool" where
  "task_typed t \<longleftrightarrow> valid_policy (policy t) \<and> 100 \<le> static_prio t \<and> static_prio t \<le> 139 \<and>
     (rt_policy (policy t) \<longleftrightarrow> rt_priority t \<noteq> 0) \<and> 0 \<le> rt_priority t \<and> rt_priority t \<le> 99 \<and>
     normal_prio t = normal_prio_of t \<and> 0 \<le> prio t \<and> prio t \<le> normal_prio t \<and>
     sched_class t = class_for (policy t) (prio t)"

lemma task_typed_cong: "sched_id t' = sched_id t \<Longrightarrow> task_typed t' = task_typed t"
  by (simp add: sched_id_def task_typed_def normal_prio_of_def task_has_rt_policy_def)

lemma ids_same_typed: "ids_same s s' \<Longrightarrow> task_typed (tasks s' p) = task_typed (tasks s p)"
  by (rule task_typed_cong) (simp add: ids_same_def)

lemma set_load_weight_ok:
  assumes "100 \<le> static_prio (tasks s p)" "static_prio (tasks s p) \<le> 139"
  obtains s' where "set_load_weight p s = Some s'" "ids_same s s'"
proof -
  have "ids_same s (upd_task p (\<lambda>t. t\<lparr>se := f t\<rparr>) s)" for f by (rule ids_same_se)
  then have "\<exists>s'. set_load_weight p s = Some s' \<and> ids_same s s'"
    using assms by (auto simp: set_load_weight_def Let_def prio_defs)
  then show thesis using that by blast
qed

lemma normal_prio_range:
  "\<lbrakk>100 \<le> static_prio t; static_prio t \<le> 139; 0 \<le> rt_priority t; rt_priority t \<le> 99\<rbrakk> \<Longrightarrow>
   0 \<le> normal_prio_of t \<and> normal_prio_of t \<le> 139"
  by (simp add: normal_prio_of_def prio_defs)

text \<open>Priority inheritance only raises priorities.\<close>

definition getprio_ok :: "kservices \<Rightarrow> bool" where
  "getprio_ok K \<longleftrightarrow> (\<forall>p s. 0 \<le> normal_prio (tasks s p) \<longrightarrow>
     0 \<le> rt_mutex_getprio K p s \<and> rt_mutex_getprio K p s \<le> normal_prio (tasks s p))"

lemma setscheduler_typed:
  assumes K: "getprio_ok K" and pol: "valid_policy pol" "rt_policy pol \<longleftrightarrow> pr \<noteq> 0" "0 \<le> pr" "pr \<le> 99"
    and st: "100 \<le> static_prio (tasks s p)" "static_prio (tasks s p) \<le> 139"
  obtains s' where "setscheduler K p pol pr s = Some s'" "task_typed (tasks s' p)" "policy (tasks s' p) = pol"
    "rt_priority (tasks s' p) = pr" "\<And>q. q \<noteq> p \<Longrightarrow> sched_id (tasks s' q) = sched_id (tasks s q)"
proof -
  define s2 where "s2 = upd_task p (\<lambda>t. t\<lparr>normal_prio := normal_prio_of t\<rparr>) (upd_task p (\<lambda>t. t\<lparr>policy := pol, rt_priority := pr\<rparr>) s)"
  define g where "g = rt_mutex_getprio K p s2"
  define s4 where "s4 = upd_task p (\<lambda>t. t\<lparr>sched_class := class_for pol (prio t)\<rparr>) (upd_task p (\<lambda>t. t\<lparr>prio := g\<rparr>) s2)"
  have n: "normal_prio (tasks s2 p) = normal_prio_of (tasks s2 p)" "policy (tasks s2 p) = pol" "rt_priority (tasks s2 p) = pr"
    "static_prio (tasks s2 p) = static_prio (tasks s p)"
    by (simp_all add: s2_def upd_task_def normal_prio_of_def task_has_rt_policy_def)
  have "0 \<le> normal_prio (tasks s2 p)" using normal_prio_range [of "tasks s2 p"] n pol st by simp
  then have g: "0 \<le> g" "g \<le> normal_prio (tasks s2 p)" using K unfolding getprio_ok_def g_def by blast+
  have t4: "task_typed (tasks s4 p)"
    using n g pol st by (simp add: s4_def upd_task_def task_typed_def normal_prio_of_def task_has_rt_policy_def)
  have f4: "static_prio (tasks s4 p) = static_prio (tasks s p)" "policy (tasks s4 p) = pol" "rt_priority (tasks s4 p) = pr"
    "\<And>q. q \<noteq> p \<Longrightarrow> tasks s4 q = tasks s q"
    using n by (simp_all add: s4_def s2_def upd_task_def)
  obtain s' where s': "set_load_weight p s4 = Some s'" "ids_same s4 s'"
    using set_load_weight_ok [of s4 p] f4(1) st by auto
  have "setscheduler K p pol pr s = Some s'"
    using s'(1) by (simp add: setscheduler_def Let_def s4_def s2_def g_def)
  moreover have "task_typed (tasks s' p)" using ids_same_typed [OF s'(2)] t4 by simp
  moreover have "sched_id (tasks s' q) = sched_id (tasks s q)" if "q \<noteq> p" for q
    using s'(2) f4(4) [OF that] by (simp add: ids_same_def)
  ultimately show thesis using that ids_same_fields(1,5) [OF s'(2), of p] f4(2,3) by simp
qed

lemma change_scheduler_typed:
  assumes ok: "ext_ok K" "getprio_ok K" and pol: "valid_policy pol" "rt_policy pol \<longleftrightarrow> pr \<noteq> 0" "0 \<le> pr" "pr \<le> 99"
    and st: "100 \<le> static_prio (tasks s p)" "static_prio (tasks s p) \<le> 139"
  obtains s' where "change_scheduler K p pol pr reset s = Some (0, s')" "task_typed (tasks s' p)"
    "policy (tasks s' p) = pol" "rt_priority (tasks s' p) = pr"
    "\<And>q. q \<noteq> p \<Longrightarrow> sched_id (tasks s' q) = sched_id (tasks s q)"
proof -
  define s1 where "s1 = suspend_task K p (on_rq (tasks s p)) (task_current s p) s"
  define s2 where "s2 = upd_task p (\<lambda>t. t\<lparr>sched_reset_on_fork := reset\<rparr>) s1"
  have i1: "ids_same s s1" using ok(1) by (simp add: s1_def)
  have "100 \<le> static_prio (tasks s2 p)" "static_prio (tasks s2 p) \<le> 139"
    using ids_same_fields(2) [OF i1, of p] st by (simp_all add: s2_def upd_task_def)
  from setscheduler_typed [OF ok(2) pol this] obtain s3 where
    s3: "setscheduler K p pol pr s2 = Some s3" "task_typed (tasks s3 p)" "policy (tasks s3 p) = pol"
      "rt_priority (tasks s3 p) = pr" "\<And>q. q \<noteq> p \<Longrightarrow> sched_id (tasks s3 q) = sched_id (tasks s2 q)"
    by metis
  define s4 where "s4 = emit (Rt_mutex_adjust_pi p) (check_class_changed K p (sched_class (tasks s2 p)) (prio (tasks s2 p))
    (resume_task K p 0 (on_rq (tasks s p)) (task_current s p) s3))"
  have i4: "ids_same s3 s4"
    unfolding s4_def using ok(1) ids_same_trans ids_same_upd(5) ids_same_class_changed ids_same_resume by blast
  have "change_scheduler K p pol pr reset s = Some (0, s4)"
    using s3(1) by (simp add: change_scheduler_def Let_def s1_def s2_def s4_def)
  moreover have "sched_id (tasks s4 q) = sched_id (tasks s q)" if "q \<noteq> p" for q
    using i4 i1 s3(5) [OF that] that by (simp add: ids_same_def s2_def upd_task_def)
  ultimately show thesis
    using that ids_same_typed [OF i4] s3(2-4) ids_same_fields(1,5) [OF i4, of p] by simp
qed

lemma typedD:
  assumes "task_typed t"
  shows "100 \<le> static_prio t" "static_prio t \<le> 139" "valid_policy (policy t)" "rt_policy (policy t) \<longleftrightarrow> rt_priority t \<noteq> 0"
    "0 \<le> rt_priority t" "rt_priority t \<le> 99"
  using assms by (simp_all add: task_typed_def)

lemma error_ladder:
  fixes X :: "(int \<times> sched_state) option"
  assumes "(if c1 then Some (- EINVAL, s) else if c2 then Some (- EINVAL, s) else if c3 then Some (- EINVAL, s)
     else if c4 then Some (- EPERM, s) else if c5 \<and> e \<noteq> 0 then Some (e, s) else if c6 then Some (- EINVAL, s)
     else if c7 then Some (0, s) else if c8 then Some (- EPERM, s) else X) = Some (r, s')"
  shows "(\<not> c1 \<and> \<not> c2 \<and> \<not> c3 \<and> X = Some (r, s')) \<or> (s' = s \<and> (r = 0 \<longrightarrow> c7))"
  using assms by (simp split: if_splits)

lemma sched_setscheduler1_cases:
  assumes "sched_setscheduler1 K p asked pr user s = Some (r, s')"
  shows "let pol = fst (requested_policy (tasks s p) asked); reset = snd (requested_policy (tasks s p) asked) in
    (s' = s \<and> (r = 0 \<longrightarrow> pol = policy (tasks s p) \<and> (\<not> rt_policy pol \<or> pr = rt_priority (tasks s p)))) \<or>
    (change_scheduler K p pol pr reset s = Some (r, s') \<and> (0 \<le> asked \<longrightarrow> valid_policy pol) \<and>
     (rt_policy pol \<longleftrightarrow> pr \<noteq> 0) \<and> 0 \<le> pr \<and> pr \<le> 99)"
proof -
  let ?t = "tasks s p"
  have r: "0 \<le> pr \<and> pr \<le> 99"
    if "\<not> (pr < 0 \<or> (has_mm ?t \<and> pr > MAX_USER_RT_PRIO - 1) \<or> (\<not> has_mm ?t \<and> pr > MAX_RT_PRIO - 1))"
    using that by (auto simp: prio_defs)
  show ?thesis
    using error_ladder [OF assms [unfolded sched_setscheduler1_def Let_def]] r unfolding Let_def by blast
qed

lemma sched_setscheduler1_total:
  assumes "ext_ok K" "getprio_ok K" "task_typed (tasks s p)"
  shows "\<exists>r s'. sched_setscheduler1 K p asked pr user s = Some (r, s')"
proof -
  let ?pol = "fst (requested_policy (tasks s p) asked)"
  have v: "valid_policy ?pol" if "\<not> (0 \<le> asked \<and> \<not> valid_policy ?pol)"
    using that typedD(3) [OF assms(3)] by (auto simp: requested_policy_def split: if_splits)
  have "\<exists>r s'. change_scheduler K p ?pol pr reset s = Some (r, s')"
    if "valid_policy ?pol" "rt_policy ?pol \<longleftrightarrow> pr \<noteq> 0" "0 \<le> pr" "pr \<le> 99" for reset
    using change_scheduler_typed [OF assms(1,2) that typedD(1,2) [OF assms(3)], of reset] by metis
  then show ?thesis
    unfolding sched_setscheduler1_def Let_def using v by (auto simp: prio_defs)
qed

lemma sched_setscheduler1_typed:
  assumes "ext_ok K" "getprio_ok K" "task_typed (tasks s p)" "sched_setscheduler1 K p asked pr user s = Some (r, s')"
  shows "task_typed (tasks s' p) \<and> (\<forall>q. q \<noteq> p \<longrightarrow> sched_id (tasks s' q) = sched_id (tasks s q))"
proof (cases "s' = s")
  case True
  then show ?thesis using assms(3) by simp
next
  case False
  define pol reset where "pol = fst (requested_policy (tasks s p) asked)" and "reset = snd (requested_policy (tasks s p) asked)"
  from False have c: "change_scheduler K p pol pr reset s = Some (r, s')" "0 \<le> asked \<longrightarrow> valid_policy pol"
    "rt_policy pol \<longleftrightarrow> pr \<noteq> 0" "0 \<le> pr" "pr \<le> 99"
    using sched_setscheduler1_cases [OF assms(4)] by (simp_all add: Let_def pol_def reset_def)
  have v: "valid_policy pol" using c(2) typedD(3) [OF assms(3)] by (cases "asked < 0") (auto simp: requested_policy_def pol_def)
  from change_scheduler_typed [OF assms(1,2) v c(3-5) typedD(1,2) [OF assms(3)], of reset]
  obtain s1 where "change_scheduler K p pol pr reset s = Some (0, s1)" "task_typed (tasks s1 p)"
    "\<And>q. q \<noteq> p \<Longrightarrow> sched_id (tasks s1 q) = sched_id (tasks s q)" by metis
  then show ?thesis using c(1) by simp
qed

text \<open>C18: changing the policy with any arguments, as a user or from the kernel, returns and keeps the task well
  typed: a valid policy, a real-time priority from 1 to 99 exactly for the real-time policies, a
  normal priority computed from them, an effective priority that inheritance may only raise, and
  the class that policy and priority call for. No other task changes its policy, its priorities,
  its class, its state, its flags or whether it is queued. The task is well typed before; the classes outside the
  repository are assumed to leave policies, priorities and the current task alone, and priority
  inheritance not to lower a priority.\<close>

theorem setscheduler_type_safe:
  assumes "ext_ok K" and "getprio_ok K" and "task_typed (tasks s p)"
  shows "\<exists>r s'. sched_setscheduler1 K p asked pr user s = Some (r, s') \<and> task_typed (tasks s' p) \<and>
    (\<forall>q. q \<noteq> p \<longrightarrow> sched_id (tasks s' q) = sched_id (tasks s q))"
proof -
  obtain r s' where "sched_setscheduler1 K p asked pr user s = Some (r, s')"
    using sched_setscheduler1_total [OF assms] by metis
  with sched_setscheduler1_typed [OF assms this] show ?thesis by blast
qed

section \<open>Failing calls\<close>

lemma do_sched_setscheduler_outcome:
  assumes "ext_ok K" and "getprio_ok K" and "\<forall>p. task_typed (tasks s p)"
    and "do_sched_setscheduler K n pol param s = Some (r, s')"
  shows "if r = 0
    then \<exists>p pr. param = Some (Some pr) \<and> find_process_by_pid K s n = Some p \<and>
      policy (tasks s' p) = fst (requested_policy (tasks s p) pol) \<and>
      (rt_policy (policy (tasks s' p)) \<longrightarrow> rt_priority (tasks s' p) = pr)
    else s' = s"
proof (cases "\<exists>p pr. 0 \<le> n \<and> param = Some (Some pr) \<and> find_process_by_pid K s n = Some p")
  case False
  then show ?thesis
    using assms(4) by (auto simp: do_sched_setscheduler_def split: if_splits option.splits)
next
  case True
  then obtain p pr where p: "0 \<le> n" "param = Some (Some pr)" "find_process_by_pid K s n = Some p" by blast
  then have c: "sched_setscheduler1 K p pol pr True s = Some (r, s')"
    using assms(4) by (simp add: do_sched_setscheduler_def sched_setscheduler_def)
  define po reset where "po = fst (requested_policy (tasks s p) pol)" and "reset = snd (requested_policy (tasks s p) pol)"
  have ty: "task_typed (tasks s p)" using assms(3) by blast
  have old: "valid_policy po" if "pol < 0"
    using that typedD(3) [OF ty] by (simp add: po_def requested_policy_def)
  from sched_setscheduler1_cases [OF c] consider
      "s' = s" "r = 0 \<longrightarrow> po = policy (tasks s p) \<and> (\<not> rt_policy po \<or> pr = rt_priority (tasks s p))"
    | "change_scheduler K p po pr reset s = Some (r, s')" "valid_policy po" "rt_policy po \<longleftrightarrow> pr \<noteq> 0" "0 \<le> pr" "pr \<le> 99"
    unfolding Let_def po_def [symmetric] reset_def [symmetric] using old by force
  then show ?thesis
  proof cases
    case 1
    then show ?thesis using p by (auto simp: po_def [symmetric])
  next
    case 2
    from change_scheduler_typed [OF assms(1,2) 2(2-5) typedD(1,2) [OF ty], of reset] obtain s1
      where "change_scheduler K p po pr reset s = Some (0, s1)" "policy (tasks s1 p) = po" "rt_priority (tasks s1 p) = pr" by metis
    then show ?thesis using 2(1) p by (simp add: po_def [symmetric])
  qed
qed

text \<open>C19: in a system of well-typed tasks, a call of \<open>sched_setscheduler\<close> or \<open>sched_setparam\<close> that returns an error
  leaves the whole state as it was. One that returns zero named an existing process and a readable parameter, and has
  set (or found set) the requested policy without its reset-on-fork flag, for \<open>sched_setparam\<close> the policy the process had, and for a real-time
  policy the requested priority. The classes outside the repository are assumed to leave policies, priorities and the current
  task alone, and priority inheritance not to lower a priority.\<close>

theorem setscheduler_errors:
  assumes "ext_ok K" and "getprio_ok K" and "\<forall>p. task_typed (tasks s p)"
  shows "(sys_sched_setscheduler K n pol param s = Some (r, s') \<longrightarrow>
     (if r = 0
      then \<exists>p pr. param = Some (Some pr) \<and> find_process_by_pid K s n = Some p \<and>
        policy (tasks s' p) = pol AND NOT SCHED_RESET_ON_FORK \<and> (rt_policy (policy (tasks s' p)) \<longrightarrow> rt_priority (tasks s' p) = pr)
      else s' = s)) \<and>
    (sys_sched_setparam K n param s = Some (r, s') \<longrightarrow>
     (if r = 0
      then \<exists>p pr. param = Some (Some pr) \<and> find_process_by_pid K s n = Some p \<and>
        policy (tasks s' p) = policy (tasks s p) \<and> (rt_policy (policy (tasks s' p)) \<longrightarrow> rt_priority (tasks s' p) = pr)
      else s' = s))"
proof (intro conjI impI)
  note out = do_sched_setscheduler_outcome [OF assms]
  assume c: "sys_sched_setscheduler K n pol param s = Some (r, s')"
  show "if r = 0
      then \<exists>p pr. param = Some (Some pr) \<and> find_process_by_pid K s n = Some p \<and>
        policy (tasks s' p) = pol AND NOT SCHED_RESET_ON_FORK \<and> (rt_policy (policy (tasks s' p)) \<longrightarrow> rt_priority (tasks s' p) = pr)
      else s' = s"
  proof (cases "pol < 0")
    case True
    with c show ?thesis by (simp add: sys_sched_setscheduler_def)
  next
    case False
    with c out [of n pol param r s'] show ?thesis by (auto simp: sys_sched_setscheduler_def requested_policy_def split: if_splits)
  qed
next
  assume "sys_sched_setparam K n param s = Some (r, s')"
  with do_sched_setscheduler_outcome [OF assms, of n "- 1" param r s']
  show "if r = 0
      then \<exists>p pr. param = Some (Some pr) \<and> find_process_by_pid K s n = Some p \<and>
        policy (tasks s' p) = policy (tasks s p) \<and> (rt_policy (policy (tasks s' p)) \<longrightarrow> rt_priority (tasks s' p) = pr)
      else s' = s"
    by (auto simp: sys_sched_setparam_def requested_policy_def split: if_splits)
qed

section \<open>Picking a task\<close>

text \<open>The run queue counts the tasks of the fair, the real-time and the race-averse class.\<close>

definition rq_counted :: "sched_state \<Rightarrow> bool" where
  "rq_counted s \<longleftrightarrow> unat (nr_running (rq s)) =
     unat (cfs_h_nr_running (rq s)) + card {p. rt_queued s (TaskSE p)} + length (ras_q s)"

lemma finite_rt_tasks: "rt_inv E s \<Longrightarrow> finite {p. rt_queued s (TaskSE p)}"
proof -
  assume inv: "rt_inv E s"
  have "TaskSE ` {p. rt_queued s (TaskSE p)} \<subseteq> E" using rt_invD(6) [OF inv] by (auto simp: rt_queued_def)
  then have "finite (TaskSE ` {p. rt_queued s (TaskSE p)})" using rt_invD(1) [OF inv] finite_subset by blast
  then show ?thesis by (rule finite_imageD) (simp add: inj_on_def)
qed

lemma pick_rt_ext [simp]:
  "pick_next_op (class_of K rt_sched_class) = pick_next_task_rt"
  "pick_next_op (class_of K ras_sched_class) = (\<lambda>s. Some (pick_next_task_ras s))"
  "class_of K stop_sched_class = ext_class K stop_sched_class"
  "class_of K fair_sched_class = ext_class K fair_sched_class"
  "class_of K idle_sched_class = ext_class K idle_sched_class"
  by (simp_all add: class_of_def rt_class_ops_def ras_class_ops_def)

text \<open>C17: the shortcut of \<open>pick_next_task\<close>, which asks the fair class first when \<open>nr_running\<close> equals the number of
  fair tasks, gives the same task and state as asking the classes in their order. The run queue
  counters are assumed consistent, the stop class empty, and the fair class not to change the
  state when it has no task.\<close>

theorem pick_fast_path:
  assumes "rt_inv E s" and "rq_counted s"
    and "pick_next_op (ext_class K stop_sched_class) s = Some (None, s)"
    and "\<forall>s'. pick_next_op (ext_class K fair_sched_class) s = Some (None, s') \<longrightarrow> s' = s"
  shows "pick_next_task K s = pick_from K all_classes s"
proof (cases "nr_running (rq s) = cfs_h_nr_running (rq s)")
  case True
  then have z: "card {p. rt_queued s (TaskSE p)} = 0" "ras_q s = []" using assms(2) by (auto simp: rq_counted_def)
  then have e: "\<not> rt_queued s (TaskSE p)" for p using finite_rt_tasks [OF assms(1)] by auto
  then have "rt_nr_running (rt_rqs s root_task_group) = 0" using pick_rt_loop_ok [OF assms(1)] by blast
  then have rt: "pick_next_task_rt s = Some (None, s)" by (simp add: pick_next_task_rt_def)
  have ras: "pick_next_task_ras s = (None, s)" using z(2) by (simp add: pick_next_task_ras_def)
  have all: "pick_from K all_classes s = pick_from K [fair_sched_class, idle_sched_class] s"
    using assms(3) rt ras by (simp add: all_classes_def)
  show ?thesis
  proof (cases "pick_next_op (ext_class K fair_sched_class) s")
    case None
    then show ?thesis using True all by (simp add: pick_next_task_def)
  next
    case (Some r)
    obtain q s1 where r: "r = (q, s1)" by fastforce
    show ?thesis
      using Some r assms(4) True all by (cases q) (auto simp: pick_next_task_def)
  qed
next
  case False
  then show ?thesis by (simp add: pick_next_task_def)
qed

lemma not_fast:
  assumes "rt_inv E s" "rq_counted s" "(\<exists>p. rt_queued s (TaskSE p)) \<or> ras_q s \<noteq> []"
  shows "pick_next_task K s = pick_from K all_classes s"
proof -
  have "card {p. rt_queued s (TaskSE p)} + length (ras_q s) \<noteq> 0"
    using assms(3) finite_rt_tasks [OF assms(1)] by auto
  then have "nr_running (rq s) \<noteq> cfs_h_nr_running (rq s)" using assms(2) by (auto simp: rq_counted_def)
  then show ?thesis by (simp add: pick_next_task_def)
qed

text \<open>C16: \<open>pick_next_task\<close> composes the classes in their order. In a state where the invariants of the real-time
  and the race-averse queues hold, the counters of running tasks agree with the queues (\<open>rq_counted\<close>) and the stop
  class has no task: while the real-time queue has an entity and is not throttled it returns a queued
  real-time task whose priority no runnable real-time task exceeds; otherwise, while a race-averse task is queued, it
  returns the first of the race-averse queue, and no fair task runs.\<close>

theorem pick_class_order:
  assumes "rt_inv E s" and "ras_inv (kernel K) s" and "rq_counted s"
    and "pick_next_op (ext_class K stop_sched_class) s = Some (None, s)"
  shows "if rt_nr_running (rt_rqs s root_task_group) \<noteq> 0 \<and> \<not> rt_rq_throttled (rt_rqs s root_task_group)
    then \<exists>p. map_option fst (pick_next_task K s) = Some p \<and> rt_queued s (TaskSE p) \<and>
      (\<forall>q. rt_runnable s q \<longrightarrow> prio (tasks s p) \<le> prio (tasks s q))
    else ras_q s \<noteq> [] \<longrightarrow> map_option fst (pick_next_task K s) = Some (hd (ras_q s))"
proof (cases "rt_nr_running (rt_rqs s root_task_group) \<noteq> 0 \<and> \<not> rt_rq_throttled (rt_rqs s root_task_group)")
  case True
  then obtain p where p: "pick_rt_loop s root_task_group = Some p" "rt_queued s (TaskSE p)"
    "prio (tasks s p) = highest_prio_curr (rt_rqs s root_task_group)"
    using pick_rt_loop_ok [OF assms(1)] by blast
  have le: "prio (tasks s p) \<le> prio (tasks s q)" if "rt_runnable s q" for q
    using chain_highest [OF assms(1), of "TaskSE q"] that p(3) hierD(3) [OF rt_invD(3) [OF assms(1)]]
    by (simp add: rt_runnable_def rt_se_prio_def rt_task_of_def)
  have nf: "pick_next_task K s = pick_from K all_classes s" using not_fast [OF assms(1,3)] p(2) by blast
  have "map_option fst (pick_next_task K s) = Some p"
    unfolding nf using p(1) True assms(4) by (simp add: all_classes_def pick_next_task_rt_def Let_def)
  then show ?thesis using True p(2) le by auto
next
  case False
  have "map_option fst (pick_next_task K s) = Some (hd (ras_q s))" if "ras_q s \<noteq> []"
  proof -
    have "ras_nr s \<noteq> 0" using ras_nr_zero [OF assms(2)] that by simp
    moreover have "pick_next_task_rt s = Some (None, s)" using False by (auto simp: pick_next_task_rt_def Let_def)
    ultimately show ?thesis
      using not_fast [OF assms(1,3), of K] that assms(4)
      by (simp add: all_classes_def pick_next_task_ras_def split: list.split)
  qed
  then show ?thesis unfolding if_not_P [OF False] by blast
qed

section \<open>Forking\<close>

lemma reset_on_fork_ras:
  assumes "100 \<le> static_prio (tasks s p)" "static_prio (tasks s p) \<le> 139" "policy (tasks s p) = SCHED_RAS" "100 \<le> prio (tasks s p)"
  shows "\<exists>s'. reset_on_fork p s = Some s' \<and> policy (tasks s' p) = SCHED_RAS \<and> 100 \<le> prio (tasks s' p) \<and> rq s' = rq s"
proof (cases "sched_reset_on_fork (tasks s p)")
  case False
  then show ?thesis using assms by (simp add: reset_on_fork_def)
next
  case True
  let ?s1 = "if PRIO_TO_NICE (static_prio (tasks s p)) < 0 then upd_task p (\<lambda>t. t\<lparr>static_prio := NICE_TO_PRIO 0\<rparr>) s else s"
  let ?s2 = "upd_task p (\<lambda>t. t\<lparr>prio := static_prio t, normal_prio := static_prio t\<rparr>) ?s1"
  have f: "100 \<le> static_prio (tasks ?s2 p)" "static_prio (tasks ?s2 p) \<le> 139" "policy (tasks ?s2 p) = SCHED_RAS"
    "prio (tasks ?s2 p) = static_prio (tasks ?s2 p)" "rq ?s2 = rq s"
    using assms by (simp_all add: upd_task_def NICE_TO_PRIO_def prio_defs)
  obtain s3 where s3: "set_load_weight p ?s2 = Some s3" "ids_same ?s2 s3" using set_load_weight_ok [OF f(1,2)] by blast
  have r3: "rq s3 = rq s" using s3(1) f(5) by (auto simp: set_load_weight_def Let_def upd_task_def split: if_splits)
  have "\<not> task_has_rt_policy (tasks s p)" using assms(3) by (simp add: task_has_rt_policy_def rt_policy_def policy_defs)
  then have "reset_on_fork p s = Some (upd_task p (\<lambda>t. t\<lparr>sched_reset_on_fork := False\<rparr>) s3)"
    using True s3(1) by (simp add: reset_on_fork_def Let_def)
  then show ?thesis using ids_same_fields(1,4) [OF s3(2), of p] f r3 by (simp add: upd_task_def)
qed

lemma sched_fork_ras:
  assumes "100 \<le> static_prio (tasks s p)" "static_prio (tasks s p) \<le> 139" "ext_ok K"
    "policy (tasks s p) = SCHED_RAS" "p \<noteq> curr (rq s)" "100 \<le> normal_prio (tasks s (curr (rq s)))"
  shows "\<exists>s'. sched_fork K p s = Some s' \<and> policy (tasks s' p) = SCHED_RAS \<and> sched_class (tasks s' p) = fair_sched_class \<and>
    stop (rq s') = stop (rq s)"
proof -
  define s2 where "s2 = upd_task p (\<lambda>t. t\<lparr>tstate := TASK_RUNNING, prio := normal_prio (tasks (sched_fork1 p s) (curr (rq (sched_fork1 p s))))\<rparr>)
    (sched_fork1 p s)"
  have f2: "100 \<le> static_prio (tasks s2 p)" "static_prio (tasks s2 p) \<le> 139" "policy (tasks s2 p) = SCHED_RAS" "100 \<le> prio (tasks s2 p)"
    "rq s2 = rq s"
    using assms by (simp_all add: s2_def sched_fork1_def upd_task_def)
  obtain s3 where s3: "reset_on_fork p s2 = Some s3" "policy (tasks s3 p) = SCHED_RAS" "100 \<le> prio (tasks s3 p)" "rq s3 = rq s"
    using reset_on_fork_ras [OF f2(1-4)] f2(5) by auto
  define s4 where "s4 = upd_task p (\<lambda>t. t\<lparr>sched_class := fair_sched_class\<rparr>) s3"
  define s5 where "s5 = (case task_fork_op (task_class K s4 p) of None \<Rightarrow> s4 | Some f \<Rightarrow> f p s4)"
  have "\<not> rt_prio (prio (tasks s3 p))" using s3(3) by (simp add: rt_prio_def prio_defs)
  then have "sched_fork K p s = Some s5"
    unfolding sched_fork_def Let_def s2_def [symmetric] s3(1) by (simp add: s4_def s5_def split: option.split)
  moreover have i: "ids_same s4 s5"
    using class_keeps.task_fork_ids [OF task_class_keeps [OF assms(3)]] by (simp add: s5_def split: option.split)
  moreover have "stop (rq s5) = stop (rq s)" using i s3(4) by (simp add: ids_same_def s4_def upd_task_def)
  ultimately show ?thesis
    using ids_same_fields(1,6) [OF i, of p] s3(2) by (simp add: s4_def upd_task_def)
qed

text \<open>C22: a child of a race-averse task is put into the fair class but keeps the policy \<open>SCHED_RAS\<close>, with or
  without the reset-on-fork flag, so it is not well typed; and asking for \<open>SCHED_RAS\<close> again returns zero
  without changing anything, because the policy already matches.\<close>

theorem fork_loses_ras:
  assumes "ext_ok K" and "task_typed (tasks s p)" and "policy (tasks s p) = SCHED_RAS"
    and "p \<noteq> curr (rq s)" and "task_typed (tasks s (curr (rq s)))" and "policy (tasks s (curr (rq s))) = SCHED_RAS"
    and "stop (rq s) \<noteq> Some p"
  shows "\<exists>s'. sched_fork K p s = Some s' \<and> policy (tasks s' p) = SCHED_RAS \<and> sched_class (tasks s' p) = fair_sched_class \<and>
    \<not> task_typed (tasks s' p) \<and> sched_setscheduler_nocheck K p SCHED_RAS 0 s' = Some (0, s')"
proof -
  have n: "100 \<le> normal_prio (tasks s (curr (rq s)))"
    using assms(5,6) by (simp add: task_typed_def normal_prio_of_def task_has_rt_policy_def rt_policy_def policy_defs)
  obtain s' where s': "sched_fork K p s = Some s'" "policy (tasks s' p) = SCHED_RAS" "sched_class (tasks s' p) = fair_sched_class"
    "stop (rq s') = stop (rq s)"
    using sched_fork_ras [OF typedD(1,2) [OF assms(2)] assms(1,3,4) n] by blast
  have "\<not> task_typed (tasks s' p)" using s'(2,3) by (simp add: task_typed_def class_for_def)
  moreover have "sched_setscheduler_nocheck K p SCHED_RAS 0 s' = Some (0, s')"
    using s'(2,4) assms(7)
    by (simp add: sched_setscheduler_nocheck_def sched_setscheduler1_def requested_policy_def valid_policy_def
        rt_policy_def policy_defs prio_defs)
  ultimately show ?thesis using s' by blast
qed

section \<open>A concrete kernel\<close>

text \<open>
  Services with one user who may do everything, no inherited priorities, and stop, fair and idle
  classes that leave the state alone and have no task, except that the idle class has its own.
\<close>

definition noop_ops :: "(sched_state \<Rightarrow> task option) \<Rightarrow> class_ops" where
  "noop_ops pick = \<lparr>enqueue_op = (\<lambda>p f s. s), dequeue_op = (\<lambda>p f s. s), yield_op = (\<lambda>s. s), check_preempt_op = (\<lambda>p f s. s),
     pick_next_op = (\<lambda>s. Some (pick s, s)), put_prev_op = (\<lambda>p s. s), set_curr_op = (\<lambda>s. s), task_tick_op = (\<lambda>p s. s),
     task_fork_op = None, task_move_group_op = None, switched_from_op = None, switched_to_op = (\<lambda>p s. s),
     prio_changed_op = (\<lambda>p o1 s. s), get_rr_interval_op = (\<lambda>p s. (0, s))\<rparr>"

definition kernel0 :: kservices where
  "kernel0 = \<lparr>kernel = env0, ext_class = (\<lambda>c. if c = idle_sched_class then noop_ops (\<lambda>s. Some (idle (rq s))) else noop_ops (\<lambda>s. None)),
     rq_load_weight = (\<lambda>s. 1024), capable_nice = True, cred_of = (\<lambda>_. \<lparr>user_ns = 0, euid = 0, uid = 0, suid = 0\<rparr>),
     security_setscheduler = (\<lambda>_. 0), security_getscheduler = (\<lambda>_. 0), security_setnice = (\<lambda>_ _. 0),
     rt_mutex_getprio = (\<lambda>p s. normal_prio (tasks s p)), find_task_by_vpid = (\<lambda>n. Some (nat n)), is_autogroup = (\<lambda>_. False),
     wq_worker_sleeping = (\<lambda>_ _. None)\<rparr>"

lemma ext_ok_kernel0: "ext_ok kernel0" "getprio_ok kernel0"
proof -
  have "class_keeps (noop_ops pick)" for pick by unfold_locales (auto simp: noop_ops_def)
  then show "ext_ok kernel0" by (simp add: ext_ok_def kernel0_def)
qed (simp add: getprio_ok_def kernel0_def)

lemma task0_typed: "task_typed (tasks state0 p)" "task_typed (tasks ras3 p)"
  by (simp_all add: state0_def ras3_def upd_rq_def task0_def task_typed_def valid_policy_def policy_defs rt_policy_def normal_prio_of_def
      task_has_rt_policy_def class_for_def)

theorem setscheduler_type_safe_witness:
  "\<exists>r s'. sched_setscheduler1 kernel0 2 SCHED_RR 10 True ras3 = Some (r, s') \<and> task_typed (tasks s' 2)"
  using setscheduler_type_safe [OF ext_ok_kernel0 task0_typed(2), of 2 SCHED_RR 10 True] by blast

text \<open>A policy that does not exist is refused; the change to round robin with priority 10 succeeds; setting the
  parameter of a race-averse task succeeds with 0 only.\<close>

theorem setscheduler_errors_witness:
  "sys_sched_setscheduler kernel0 2 4 (Some (Some 0)) ras3 = Some (- EINVAL, ras3) \<and>
   (\<exists>s'. sys_sched_setscheduler kernel0 2 SCHED_RR (Some (Some 10)) ras3 = Some (0, s') \<and>
     policy (tasks s' 2) = SCHED_RR \<and> rt_priority (tasks s' 2) = 10) \<and>
   sys_sched_setparam kernel0 2 (Some (Some 10)) ras3 = Some (- EINVAL, ras3)"
proof (intro conjI)
  note outcome = setscheduler_errors [OF ext_ok_kernel0, of ras3]
  have ty: "\<forall>p. task_typed (tasks ras3 p)" using task0_typed(2) by blast
  have c: "sys_sched_setscheduler kernel0 2 4 (Some (Some 0)) ras3 =
      Some (- EINVAL, snd (the (sys_sched_setscheduler kernel0 2 4 (Some (Some 0)) ras3)))"
    "sys_sched_setparam kernel0 2 (Some (Some 10)) ras3 =
      Some (- EINVAL, snd (the (sys_sched_setparam kernel0 2 (Some (Some 10)) ras3)))"
    by (simp_all add: sys_sched_setscheduler_def sys_sched_setparam_def do_sched_setscheduler_def find_process_by_pid_def
        kernel0_def sched_setscheduler_def sched_setscheduler1_def requested_policy_def valid_policy_def policy_defs prio_defs
        rt_policy_def ras3_def state0_def task0_def upd_rq_def)
  show "sys_sched_setscheduler kernel0 2 4 (Some (Some 0)) ras3 = Some (- EINVAL, ras3)"
    using outcome [OF ty, of 2 4 "Some (Some 0)" "- EINVAL"] c(1) by (metis neg_equal_0_iff_equal zero_neq_numeral)
  show "sys_sched_setparam kernel0 2 (Some (Some 10)) ras3 = Some (- EINVAL, ras3)"
    using outcome [OF ty, of 2 _ "Some (Some 10)" "- EINVAL"] c(2) by (metis neg_equal_0_iff_equal zero_neq_numeral)
  let ?r = "sys_sched_setscheduler kernel0 2 SCHED_RR (Some (Some 10)) ras3"
  have "?r \<noteq> None \<and> fst (the ?r) = 0" by code_simp
  then have r: "?r = Some (0, snd (the ?r))" by (metis option.collapse prod.collapse)
  have "find_process_by_pid kernel0 ras3 2 = Some 2" "SCHED_RR AND NOT SCHED_RESET_ON_FORK = SCHED_RR" "rt_policy SCHED_RR"
    by code_simp+
  with outcome [OF ty, of 2 SCHED_RR "Some (Some 10)" 0 "snd (the ?r)"] r
  have "policy (tasks (snd (the ?r)) 2) = SCHED_RR \<and> rt_priority (tasks (snd (the ?r)) 2) = 10" by auto
  with r show "\<exists>s'. ?r = Some (0, s') \<and> policy (tasks s' 2) = SCHED_RR \<and> rt_priority (tasks s' 2) = 10" by blast
qed

theorem fork_loses_ras_witness:
  "\<exists>s'. sched_fork kernel0 7 ras3 = Some s' \<and> policy (tasks s' 7) = SCHED_RAS \<and> sched_class (tasks s' 7) = fair_sched_class"
proof -
  have "policy (tasks ras3 p) = SCHED_RAS" "curr (rq ras3) = 1" "stop (rq ras3) = None" for p
    by (simp_all add: ras3_def state0_def upd_rq_def task0_def policy_defs)
  then show ?thesis
    using fork_loses_ras [OF ext_ok_kernel0(1) task0_typed(2), of 7] task0_typed(2) by auto
qed

lemma stop0: "pick_next_op (ext_class kernel0 stop_sched_class) s = Some (None, s)"
  "pick_next_op (ext_class kernel0 fair_sched_class) s = Some (None, s)"
  by (simp_all add: kernel0_def noop_ops_def)

lemma rt_init_state0: "rt_init {} state0"
  by (simp add: rt_init_def state0_def empty_rq_def rt_rq0_def)

lemma state0_counted: "rq_counted state0"
proof -
  have "\<not> rt_queued state0 (TaskSE p)" for p using rt_init_state0 by (auto simp: rt_init_def empty_rq_def rt_queued_def)
  then show ?thesis by (simp add: rq_counted_def state0_def)
qed

theorem pick_fast_path_witness:
  "pick_next_task kernel0 state0 = pick_from kernel0 all_classes state0 \<and> map_option fst (pick_next_task kernel0 state0) = Some 0"
proof -
  have eq: "pick_next_task kernel0 state0 = pick_from kernel0 all_classes state0"
    by (rule pick_fast_path [OF rt_init_inv [OF rt_init_state0] state0_counted stop0(1)]) (simp add: stop0)
  moreover have "pick_next_task_rt state0 = Some (None, state0)" "pick_next_task_ras state0 = (None, state0)"
    by (simp_all add: pick_next_task_rt_def pick_next_task_ras_def state0_def rt_rq0_def)
  ultimately show ?thesis by (simp add: all_classes_def kernel0_def noop_ops_def state0_def)
qed

text \<open>The real-time system of the last theory with the counters of its run queue.\<close>

definition rt_run1 :: sched_state where
  "rt_run1 = upd_rq (\<lambda>r. r\<lparr>nr_running := 3, curr := 1\<rparr>) rt_run0"

lemma rt_run1_inv: "rt_inv (insert (GroupSE 1) rt_tasks0) rt_run1"
  unfolding rt_run1_def by (rule rt_same_inv [OF rt_same_ops(2) rt_run0_inv])

lemma rt_run1_queued: "rt_queued rt_run1 (TaskSE p) \<longleftrightarrow> p \<in> {1, 2, 3}"
proof -
  have "p \<in> {1, 2, 3}" if "rt_queued rt_run1 (TaskSE p)"
    using that rt_invD(6) [OF rt_run1_inv] by (auto simp: rt_queued_def rt_tasks0_def)
  moreover have "TaskSE 1 \<in> set (queue (rt_rqs rt_run1 0) 50)" "TaskSE 2 \<in> set (queue (rt_rqs rt_run1 0) 40)"
    "TaskSE 3 \<in> set (queue (rt_rqs rt_run1 1) 50)"
    by (simp_all add: rt_run1_def rt_run0_def upd_rq_def)
  ultimately show ?thesis unfolding rt_queued_def by blast
qed

theorem pick_class_order_witness:
  "\<exists>p. map_option fst (pick_next_task kernel0 rt_run1) = Some p \<and> rt_queued rt_run1 (TaskSE p)"
proof -
  have c: "rq_counted rt_run1"
    unfolding rq_counted_def rt_run1_queued Collect_mem_eq by (simp add: rt_run1_def rt_run0_def rt_idle0_def state0_def upd_rq_def)
  have i: "ras_inv (kernel kernel0) rt_run1"
    by (rule ras_inv_init) (simp add: rt_run1_def rt_run0_def rt_idle0_def state0_def upd_rq_def init_ras_rq_def)
  have t: "rt_nr_running (rt_rqs rt_run1 root_task_group) \<noteq> 0 \<and> \<not> rt_rq_throttled (rt_rqs rt_run1 root_task_group)"
    by (simp add: rt_run1_def rt_run0_def upd_rq_def rt_rq0_def rt_rq_throttled_def root_task_group_def)
  show ?thesis
    using pick_class_order [OF rt_run1_inv i c stop0(1)] unfolding if_P [OF t] by blast
qed

end
