(* ===== verification/Core_Wait_Proofs.thy ===== *)
theory Core_Wait_Proofs
  imports Core_Wait Core_Proofs
begin

text \<open>
  What waking does to the states of the tasks on a queue, and the two properties of completions that their users rely
  on: a wait succeeds only for a completion that was signalled, and no signal is lost while somebody waits. The contract
  of a wake function is a locale, which \<open>try_to_wake_up\<close> fulfils for every choice of the classes outside the repository.
\<close>

section \<open>The contract of a wake function\<close>

abbreviation (input) tstate_of :: "sched_state \<Rightarrow> task \<Rightarrow> u32" where
  "tstate_of s p \<equiv> tstate (tasks s p)"

definition sleeps_in :: "sched_state \<Rightarrow> u32 \<Rightarrow> task \<Rightarrow> bool" where
  "sleeps_in s mode p \<longleftrightarrow> flag_set (tstate_of s p) mode"

lemma running_not_sleeping: "tstate_of s p = TASK_RUNNING \<Longrightarrow> \<not> sleeps_in s mode p"
  by (simp add: sleeps_in_def flag_set_def TASK_RUNNING_def)

text \<open>The tasks that a wake-up reaches, in the order of the queue.\<close>

fun wake_targets :: "u32 \<Rightarrow> int \<Rightarrow> wait_queue_t list \<Rightarrow> sched_state \<Rightarrow> task list" where
  "wake_targets mode n [] s = []"
| "wake_targets mode n (c # cs) s =
     (if sleeps_in s mode (wq_private c)
      then wq_private c # (if flag_set (wq_flags c) WQ_FLAG_EXCLUSIVE
             then (if n - 1 = 0 then [] else wake_targets mode (n - 1) cs s) else wake_targets mode n cs s)
      else wake_targets mode n cs s)"

lemma wake_targets_cong:
  "(\<And>c. c \<in> set cs \<Longrightarrow> tstate_of s' (wq_private c) = tstate_of s (wq_private c)) \<Longrightarrow>
   wake_targets mode n cs s' = wake_targets mode n cs s"
  by (induction cs arbitrary: n) (simp_all add: sleeps_in_def)

lemma wake_targets_sub: "set (wake_targets mode n cs s) \<subseteq> wq_private ` set cs"
  by (induction cs arbitrary: n) auto

locale waker =
  fixes wake :: wake_func
  assumes wake_result: "fst (wake p mode fl s) \<longleftrightarrow> sleeps_in s mode p"
    and wake_state: "tstate_of (snd (wake p mode fl s)) q =
      (if q = p \<and> sleeps_in s mode p then TASK_RUNNING else tstate_of s q)"
begin

text \<open>The loop over the queue wakes the targets and changes the state of no other task.\<close>

lemma wake_common_state:
  "\<lbrakk>\<forall>c \<in> set es. wq_func c = wake; distinct (map wq_private es)\<rbrakk> \<Longrightarrow>
   tstate_of (wake_up_common mode n fl es s) q =
     (if q \<in> set (wake_targets mode n es s) then TASK_RUNNING else tstate_of s q)"
proof (induction es arbitrary: n s q)
  case (Cons c cs)
  obtain w s1 where w: "wake (wq_private c) mode fl s = (w, s1)" by fastforce
  have r: "w \<longleftrightarrow> sleeps_in s mode (wq_private c)"
    and st: "tstate_of s1 p = (if p = wq_private c \<and> w then TASK_RUNNING else tstate_of s p)" for p
    using wake_result [of "wq_private c" mode fl s] wake_state [of "wq_private c" mode fl s p] w by simp_all
  have t: "wake_targets mode m cs s1 = wake_targets mode m cs s" for m
  proof (rule wake_targets_cong)
    fix d assume "d \<in> set cs"
    moreover have "wq_private c \<notin> wq_private ` set cs" using Cons(3) by simp
    ultimately have "wq_private d \<noteq> wq_private c" by (metis imageI)
    then show "tstate_of s1 (wq_private d) = tstate_of s (wq_private d)" by (simp add: st)
  qed
  have sub: "wq_private c \<notin> set (wake_targets mode m cs s)" for m
    using wake_targets_sub [of mode m cs s] Cons(3) by auto
  have IH: "tstate_of (wake_up_common mode m fl cs s1) r =
      (if r \<in> set (wake_targets mode m cs s) then TASK_RUNNING else tstate_of s1 r)" for m r
    using Cons(1) [of m s1 r] Cons(2,3) t by simp
  have "wq_func c = wake" using Cons(2) by simp
  then show ?case using IH st sub r by (simp add: w)
qed simp

end

section \<open>\<open>try_to_wake_up\<close>\<close>

locale core_machine =
  fixes K :: kservices
  assumes ext: "ext_ok K"
begin

lemma check_preempt_ids: "ids_same s (check_preempt_curr K p flags s)"
proof -
  let ?c = "curr (rq s)"
  have a: "ids_same s (if sched_class (tasks s p) = sched_class (tasks s ?c) then check_preempt_op (task_class K s ?c) p flags s
      else if b then resched_task ?c s else s)" for b
    using class_keeps.check_preempt_ids [OF task_class_keeps [OF ext]] by simp
  have b: "ids_same s (if d then upd_rq (\<lambda>r. r\<lparr>skip_clock_update := 1\<rparr>) t else t)" if "ids_same s t" for d t
    using ids_same_trans [OF that ids_same_upd(2) [of "\<lambda>r. r\<lparr>skip_clock_update := 1\<rparr>"]] that by simp
  show ?thesis unfolding check_preempt_curr_def Let_def by (rule b, rule a)
qed

lemma ttwu_states:
  "tstate_of (ttwu_do_wakeup K p fl s) q = (if q = p then TASK_RUNNING else tstate_of s q)"
  "tstate_of (ttwu_activate K p fl s) q = tstate_of s q"
proof -
  show "tstate_of (ttwu_do_wakeup K p fl s) q = (if q = p then TASK_RUNNING else tstate_of s q)"
    using ids_same_fields(7) [OF check_preempt_ids] by (simp add: ttwu_do_wakeup_def upd_task_def)
  have "ids_same s (activate_task K p fl s)"
    unfolding activate_task_def Let_def
    by (rule ids_same_trans [OF _ ids_same_enqueue [OF ext]]) (simp add: ids_same_upd)
  then show "tstate_of (ttwu_activate K p fl s) q = tstate_of s q"
    using ids_same_fields(7) by (simp add: ttwu_activate_def Let_def upd_task_def emit_def)
qed

end

sublocale core_machine \<subseteq> waker "default_wake_function K"
proof
  fix p mode fl s q
  show "fst (default_wake_function K p mode fl s) \<longleftrightarrow> sleeps_in s mode p"
    by (simp add: default_wake_function_def try_to_wake_up_def sleeps_in_def ttwu_remote_def)
  show "tstate_of (snd (default_wake_function K p mode fl s)) q =
      (if q = p \<and> sleeps_in s mode p then TASK_RUNNING else tstate_of s q)"
    by (simp add: default_wake_function_def try_to_wake_up_def sleeps_in_def ttwu_remote_def ttwu_queue_def
        ttwu_do_activate_def ttwu_states)
qed

context core_machine
begin

lemma default_wake_common:
  "\<lbrakk>\<forall>c \<in> set es. wq_func c = default_wake_function K; distinct (map wq_private es)\<rbrakk> \<Longrightarrow>
   tstate_of (wake_up_common mode n fl es s) q =
     (if q \<in> set (wake_targets mode n es s) then TASK_RUNNING else tstate_of s q)"
  by (rule wake_common_state)

end

lemmas ext_wake_common = core_machine.default_wake_common [OF core_machine.intro]

interpretation machine0: core_machine kernel0
  by unfold_locales (rule ext_ok_kernel0)

section \<open>Waking a queue\<close>

lemma targets_exclusive:
  "\<lbrakk>\<forall>c \<in> set xs. flag_set (wq_flags c) WQ_FLAG_EXCLUSIVE; 0 < n\<rbrakk> \<Longrightarrow>
   wake_targets mode n xs s = take (nat n) (filter (sleeps_in s mode) (map wq_private xs))"
  by (induction xs arbitrary: n) (simp_all add: take_Cons' nat_diff_distrib)

lemma targets_shared:
  "\<forall>c \<in> set ns. \<not> flag_set (wq_flags c) WQ_FLAG_EXCLUSIVE \<Longrightarrow>
   wake_targets mode n (ns @ xs) s = filter (sleeps_in s mode) (map wq_private ns) @ wake_targets mode n xs s"
  by (induction ns) simp_all

lemma targets_all:
  "n \<le> 0 \<Longrightarrow> wake_targets mode n xs s = filter (sleeps_in s mode) (map wq_private xs)"
  by (induction xs arbitrary: n) simp_all

text \<open>C27: a wake-up for \<open>n\<close> exclusive waiters on a queue with its non-exclusive entries in front makes every sleeping
  non-exclusive waiter and the first \<open>n\<close> sleeping exclusive waiters runnable and leaves the state of every other task
  alone; tasks that are already running do not use up the count.\<close>

theorem wake_up_reaches:
  assumes "ext_ok K" and "0 < n"
    and "\<forall>c \<in> set (ns @ xs). wq_func c = default_wake_function K" and "distinct (map wq_private (ns @ xs))"
    and "\<forall>c \<in> set ns. \<not> flag_set (wq_flags c) WQ_FLAG_EXCLUSIVE" and "\<forall>c \<in> set xs. flag_set (wq_flags c) WQ_FLAG_EXCLUSIVE"
  shows "tstate (tasks (wake_up mode n (ns @ xs) s) q) =
    (if q \<in> set (filter (sleeps_in s mode) (map wq_private ns)) \<union>
            set (take (nat n) (filter (sleeps_in s mode) (map wq_private xs)))
     then TASK_RUNNING else tstate (tasks s q))"
  unfolding wake_up_def ext_wake_common [OF assms(1,3,4)]
  by (simp add: targets_shared [OF assms(5)] targets_exclusive [OF assms(6,2)])

text \<open>Task 1 waits without, tasks 2 and 3 with the exclusive flag; one exclusive waiter is asked for.\<close>

definition sleepers0 :: sched_state where
  "sleepers0 = set_task_state 3 TASK_UNINTERRUPTIBLE (set_task_state 2 TASK_INTERRUPTIBLE
     (set_task_state 1 TASK_UNINTERRUPTIBLE state0))"

theorem wake_up_reaches_witness:
  "\<forall>p. tstate (tasks (wake_up TASK_NORMAL 1 [declare_waitqueue kernel0 1,
       (declare_waitqueue kernel0 2)\<lparr>wq_flags := 1\<rparr>, (declare_waitqueue kernel0 3)\<lparr>wq_flags := 1\<rparr>] sleepers0) p) =
     (if p \<in> {1, 2} then TASK_RUNNING else tstate (tasks sleepers0 p))"
proof
  fix p
  let ?xs = "[(declare_waitqueue kernel0 2)\<lparr>wq_flags := 1\<rparr>, (declare_waitqueue kernel0 3)\<lparr>wq_flags := 1\<rparr>]"
  have s: "sleeps_in sleepers0 TASK_NORMAL 1" "sleeps_in sleepers0 TASK_NORMAL 2" "sleeps_in sleepers0 TASK_NORMAL 3"
    by (simp_all add: sleeps_in_def sleepers0_def set_task_state_def upd_task_def flag_set_def task_state_defs)
  have "tstate (tasks (wake_up TASK_NORMAL 1 ([declare_waitqueue kernel0 1] @ ?xs) sleepers0) p) =
      (if p \<in> set (filter (sleeps_in sleepers0 TASK_NORMAL) (map wq_private [declare_waitqueue kernel0 1])) \<union>
          set (take (nat 1) (filter (sleeps_in sleepers0 TASK_NORMAL) (map wq_private ?xs)))
       then TASK_RUNNING else tstate (tasks sleepers0 p))"
    by (rule wake_up_reaches [OF ext_ok_kernel0(1)])
      (simp_all add: declare_waitqueue_def flag_set_def WQ_FLAG_EXCLUSIVE_def)
  then show "tstate (tasks (wake_up TASK_NORMAL 1 [declare_waitqueue kernel0 1,
       (declare_waitqueue kernel0 2)\<lparr>wq_flags := 1\<rparr>, (declare_waitqueue kernel0 3)\<lparr>wq_flags := 1\<rparr>] sleepers0) p) =
     (if p \<in> {1, 2} then TASK_RUNNING else tstate (tasks sleepers0 p))"
    using s by (simp add: declare_waitqueue_def)
qed

section \<open>Completions\<close>

text \<open>
  The completion, the scheduler, and two counters of what happened: the completions signalled and the waits that
  returned a positive number, which is how a wait reports success.
\<close>

record comp_sys =
  cs_comp :: completion
  cs_sched :: sched_state
  cs_signalled :: nat
  cs_succeeded :: nat

definition waiters :: "comp_sys \<Rightarrow> task list" where
  "waiters c = map wq_private (comp_wait (cs_comp c))"

lemma waiters_upd [simp]:
  "waiters (cs_sched_update f c) = waiters c" "waiters (cs_succeeded_update g c) = waiters c"
  "waiters (cs_signalled_update g c) = waiters c"
  by (simp_all add: waiters_def)

definition succeeded :: "wait_result \<Rightarrow> nat" where
  "succeeded r = (case r of Returned t \<Rightarrow> if t > 0 then 1 else 0 | Sleeps _ \<Rightarrow> 0)"

text \<open>
  The steps of all tasks together. A waiting task goes on when it runs again, with the time left; everything else may
  run tasks and wake waiting ones, but only the wait itself puts a waiting task to sleep. The counter does not wrap.
\<close>

inductive comp_step :: "kservices \<Rightarrow> comp_sys \<Rightarrow> comp_sys \<Rightarrow> bool" for K where
  signal: "\<lbrakk>complete1 (cs_comp c, cs_sched c) = (x, s); Suc (unat (comp_done (cs_comp c))) < 2 ^ 32\<rbrakk> \<Longrightarrow>
    comp_step K c (c\<lparr>cs_comp := x, cs_sched := s, cs_signalled := Suc (cs_signalled c)\<rparr>)"
| signal_all: "\<lbrakk>complete_all (cs_comp c, cs_sched c) = (x, s); unat (comp_done (cs_comp c)) + 0x7FFFFFFF < 2 ^ 32\<rbrakk> \<Longrightarrow>
    comp_step K c (c\<lparr>cs_comp := x, cs_sched := s, cs_signalled := cs_signalled c + 0x7FFFFFFF\<rparr>)"
| start: "\<lbrakk>wait_start K p st t (cs_comp c, cs_sched c) = (r, x, s); p \<notin> set (waiters c); flag_set st TASK_NORMAL; 0 \<le> t\<rbrakk> \<Longrightarrow>
    comp_step K c (c\<lparr>cs_comp := x, cs_sched := s, cs_succeeded := cs_succeeded c + succeeded r\<rparr>)"
| resume: "\<lbrakk>wait_resume p st t (cs_comp c, cs_sched c) = (r, x, s); p \<in> set (waiters c);
    tstate (tasks (cs_sched c) p) = TASK_RUNNING; flag_set st TASK_NORMAL; 0 \<le> t\<rbrakk> \<Longrightarrow>
    comp_step K c (c\<lparr>cs_comp := x, cs_sched := s, cs_succeeded := cs_succeeded c + succeeded r\<rparr>)"
| try_wait: "try_wait_for_completion (cs_comp c) = (b, x) \<Longrightarrow>
    comp_step K c (c\<lparr>cs_comp := x, cs_succeeded := cs_succeeded c + (if b then 1 else 0)\<rparr>)"
| other: "\<forall>p \<in> set (waiters c). tstate (tasks s p) = tstate (tasks (cs_sched c) p) \<or> tstate (tasks s p) = TASK_RUNNING \<Longrightarrow>
    comp_step K c (c\<lparr>cs_sched := s\<rparr>)"

inductive comp_reachable :: "kservices \<Rightarrow> comp_sys \<Rightarrow> bool" for K where
  init: "comp_reachable K \<lparr>cs_comp = \<lparr>comp_done = 0, comp_wait = []\<rparr>, cs_sched = s, cs_signalled = 0, cs_succeeded = 0\<rparr>"
| step: "\<lbrakk>comp_reachable K c; comp_step K c c'\<rbrakk> \<Longrightarrow> comp_reachable K c'"

definition running_waiters :: "comp_sys \<Rightarrow> nat" where
  "running_waiters c = length (filter (\<lambda>p. tstate (tasks (cs_sched c) p) = TASK_RUNNING) (waiters c))"

definition queue_ok :: "kservices \<Rightarrow> wait_queue_t list \<Rightarrow> bool" where
  "queue_ok K q \<longleftrightarrow> distinct (map wq_private q) \<and>
     (\<forall>e \<in> set q. wq_func e = default_wake_function K \<and> wq_node e = wq_private e \<and> flag_set (wq_flags e) WQ_FLAG_EXCLUSIVE)"

definition comp_inv :: "kservices \<Rightarrow> comp_sys \<Rightarrow> bool" where
  "comp_inv K c \<longleftrightarrow> queue_ok K (comp_wait (cs_comp c)) \<and>
     (\<forall>p \<in> set (waiters c). tstate (tasks (cs_sched c) p) = TASK_RUNNING \<or> sleeps_in (cs_sched c) TASK_NORMAL p) \<and>
     min (unat (comp_done (cs_comp c))) (length (waiters c)) \<le> running_waiters c \<and>
     unat (comp_done (cs_comp c)) + cs_succeeded c = cs_signalled c"

text \<open>Removing a waiter, and waking one.\<close>

lemma remove_waiter:
  "queue_ok K q \<Longrightarrow> map wq_private (remove_wait_queue p q) = filter (\<lambda>x. x \<noteq> p) (map wq_private q)"
  by (induction q) (auto simp: remove_wait_queue_def queue_ok_def)

lemma remove_waiter_ok: "queue_ok K q \<Longrightarrow> queue_ok K (remove_wait_queue p q)"
  using remove_waiter [of K q p] by (auto simp: queue_ok_def remove_wait_queue_def)

lemma filter_other:
  "\<lbrakk>distinct ws; p \<in> set ws; P p\<rbrakk> \<Longrightarrow> Suc (length (filter P (filter (\<lambda>x. x \<noteq> p) ws))) = length (filter P ws)"
proof (induction ws)
  case (Cons w ws)
  then show ?case
  proof (cases "w = p")
    case True
    then have "filter (\<lambda>x. x \<noteq> p) ws = ws" using Cons(2) by (intro filter_True) auto
    then show ?thesis using True Cons(4) by simp
  qed auto
qed simp

lemma filter_flip:
  "\<lbrakk>distinct ws; q \<in> set ws; \<not> P q\<rbrakk> \<Longrightarrow> length (filter (\<lambda>x. x = q \<or> P x) ws) = Suc (length (filter P ws))"
proof (induction ws)
  case (Cons w ws)
  show ?case
  proof (cases "w = q")
    case True
    then have "filter (\<lambda>x. x = q \<or> P x) ws = filter P ws" using Cons(2) by (intro filter_cong) auto
    then show ?thesis using True Cons(4) by simp
  qed (use Cons in auto)
qed simp

text \<open>The counter and the queue after a wait leaves.\<close>

lemma wait_leave_cases:
  assumes "wait_leave p t (x, s) = (r, x', s')"
  shows "s' = s \<and> comp_wait x' = remove_wait_queue p (comp_wait x) \<and>
    (if comp_done x = 0 then comp_done x' = 0 \<and> r = Returned t
     else comp_done x' = comp_done x - 1 \<and> r = Returned (if t = 0 then 1 else t))"
  using assms by (auto simp: wait_leave_def Let_def split: if_splits)

lemma comp_invD:
  assumes "comp_inv K c"
  shows "queue_ok K (comp_wait (cs_comp c))" "distinct (waiters c)"
    "\<And>p. p \<in> set (waiters c) \<Longrightarrow> tstate (tasks (cs_sched c) p) = TASK_RUNNING \<or> sleeps_in (cs_sched c) TASK_NORMAL p"
    "min (unat (comp_done (cs_comp c))) (length (waiters c)) \<le> running_waiters c"
    "unat (comp_done (cs_comp c)) + cs_succeeded c = cs_signalled c"
  using assms unfolding comp_inv_def queue_ok_def waiters_def by blast+

text \<open>Signalling: the state of the waiters after the wake-up.\<close>

lemma signal_states:
  assumes "ext_ok K" "comp_inv K c"
  shows "tstate_of (wake_up_common TASK_NORMAL 1 0 (comp_wait (cs_comp c)) (cs_sched c)) q =
      (if q \<in> set (take 1 (filter (sleeps_in (cs_sched c) TASK_NORMAL) (waiters c))) then TASK_RUNNING else tstate_of (cs_sched c) q)"
    and "tstate_of (wake_up_common TASK_NORMAL 0 0 (comp_wait (cs_comp c)) (cs_sched c)) q =
      (if q \<in> set (filter (sleeps_in (cs_sched c) TASK_NORMAL) (waiters c)) then TASK_RUNNING else tstate_of (cs_sched c) q)"
proof -
  have q: "\<forall>e \<in> set (comp_wait (cs_comp c)). wq_func e = default_wake_function K" "distinct (map wq_private (comp_wait (cs_comp c)))"
    "\<forall>e \<in> set (comp_wait (cs_comp c)). flag_set (wq_flags e) WQ_FLAG_EXCLUSIVE"
    using comp_invD(1) [OF assms(2)] by (auto simp: queue_ok_def)
  show "tstate_of (wake_up_common TASK_NORMAL 1 0 (comp_wait (cs_comp c)) (cs_sched c)) q =
      (if q \<in> set (take 1 (filter (sleeps_in (cs_sched c) TASK_NORMAL) (waiters c))) then TASK_RUNNING else tstate_of (cs_sched c) q)"
    unfolding ext_wake_common [OF assms(1) q(1,2)] by (simp add: targets_exclusive [OF q(3)] waiters_def)
  show "tstate_of (wake_up_common TASK_NORMAL 0 0 (comp_wait (cs_comp c)) (cs_sched c)) q =
      (if q \<in> set (filter (sleeps_in (cs_sched c) TASK_NORMAL) (waiters c)) then TASK_RUNNING else tstate_of (cs_sched c) q)"
    unfolding ext_wake_common [OF assms(1) q(1,2)] by (simp add: targets_all waiters_def)
qed

text \<open>A step that leaves the queue alone and only makes waiters run.\<close>

lemma wake_step_inv:
  assumes inv: "comp_inv K c"
    and c': "comp_wait (cs_comp c') = comp_wait (cs_comp c)"
    and st: "\<And>p. p \<in> set (waiters c) \<Longrightarrow> tstate_of (cs_sched c') p = tstate_of (cs_sched c) p \<or> tstate_of (cs_sched c') p = TASK_RUNNING"
    and run: "min (unat (comp_done (cs_comp c'))) (length (waiters c)) \<le> running_waiters c'"
    and cnt: "unat (comp_done (cs_comp c')) + cs_succeeded c' = cs_signalled c'"
  shows "comp_inv K c'"
proof -
  have w: "waiters c' = waiters c" by (simp add: waiters_def c')
  have "tstate_of (cs_sched c') p = TASK_RUNNING \<or> sleeps_in (cs_sched c') TASK_NORMAL p" if "p \<in> set (waiters c)" for p
    using st [OF that] comp_invD(3) [OF inv that] by (auto simp: sleeps_in_def)
  then show ?thesis
    using comp_invD(1) [OF inv] run cnt by (simp add: comp_inv_def c' w)
qed

lemma running_waiters_mono:
  assumes "\<And>p. p \<in> set (waiters c) \<Longrightarrow> tstate_of (cs_sched c') p = tstate_of (cs_sched c) p \<or> tstate_of (cs_sched c') p = TASK_RUNNING"
    and "waiters c' = waiters c"
  shows "running_waiters c \<le> running_waiters c'"
proof -
  have m: "length (filter P xs) \<le> length (filter Q xs)" if "\<And>x. x \<in> set xs \<Longrightarrow> P x \<Longrightarrow> Q x" for P Q and xs :: "task list"
    using that by (induction xs) (auto simp: le_SucI)
  show ?thesis unfolding running_waiters_def assms(2)
  proof (rule m)
    fix p assume "p \<in> set (waiters c)" "tstate_of (cs_sched c) p = TASK_RUNNING"
    then show "tstate_of (cs_sched c') p = TASK_RUNNING" using assms(1) [of p] by simp
  qed
qed

lemma signal_inv:
  assumes ok: "ext_ok K" and inv: "comp_inv K c"
    and sig: "complete1 (cs_comp c, cs_sched c) = (x, s)" and room: "Suc (unat (comp_done (cs_comp c))) < 2 ^ 32"
  shows "comp_inv K (c\<lparr>cs_comp := x, cs_sched := s, cs_signalled := Suc (cs_signalled c)\<rparr>)" (is "comp_inv K ?c'")
proof (rule wake_step_inv [OF inv])
  have x: "x = (cs_comp c)\<lparr>comp_done := comp_done (cs_comp c) + 1\<rparr>"
    "s = wake_up_common TASK_NORMAL 1 0 (comp_wait (cs_comp c)) (cs_sched c)"
    using sig by (auto simp: complete1_def)
  have n: "unat (comp_done (cs_comp c) + 1) = Suc (unat (comp_done (cs_comp c)))" using room by (simp add: unat_inc)
  show "comp_wait (cs_comp ?c') = comp_wait (cs_comp c)" by (simp add: x)
  show st: "tstate_of (cs_sched ?c') p = tstate_of (cs_sched c) p \<or> tstate_of (cs_sched ?c') p = TASK_RUNNING" for p
    using signal_states(1) [OF ok inv, of p] by (simp add: x)
  show "unat (comp_done (cs_comp ?c')) + cs_succeeded ?c' = cs_signalled ?c'" using comp_invD(5) [OF inv] by (simp add: x n)
  have w: "waiters ?c' = waiters c" by (simp add: waiters_def x)
  show "min (unat (comp_done (cs_comp ?c'))) (length (waiters c)) \<le> running_waiters ?c'"
  proof (cases "filter (sleeps_in (cs_sched c) TASK_NORMAL) (waiters c)")
    case Nil
    then have "tstate_of (cs_sched ?c') p = TASK_RUNNING" if "p \<in> set (waiters c)" for p
      using comp_invD(3) [OF inv that] signal_states(1) [OF ok inv, of p] that by (auto simp: x filter_empty_conv)
    then have "running_waiters ?c' = length (waiters c)" unfolding running_waiters_def w by (simp add: filter_True)
    then show ?thesis by simp
  next
    case (Cons q qs)
    then have "q \<in> set (filter (sleeps_in (cs_sched c) TASK_NORMAL) (waiters c))" by simp
    then have q: "q \<in> set (waiters c)" "sleeps_in (cs_sched c) TASK_NORMAL q" by simp_all
    have "tstate_of (cs_sched c) q \<noteq> TASK_RUNNING" using q(2) running_not_sleeping by blast
    moreover have "(tstate_of (cs_sched ?c') p = TASK_RUNNING) = (p = q \<or> tstate_of (cs_sched c) p = TASK_RUNNING)" for p
      using signal_states(1) [OF ok inv, of p] Cons by (simp add: x)
    ultimately have "running_waiters ?c' = Suc (running_waiters c)"
      unfolding running_waiters_def w using filter_flip [OF comp_invD(2) [OF inv] q(1)] by simp
    then show ?thesis using comp_invD(4) [OF inv] by (simp add: x n min_def split: if_splits)
  qed
qed

lemma signal_all_inv:
  assumes ok: "ext_ok K" and inv: "comp_inv K c"
    and sig: "complete_all (cs_comp c, cs_sched c) = (x, s)" and room: "unat (comp_done (cs_comp c)) + 0x7FFFFFFF < 2 ^ 32"
  shows "comp_inv K (c\<lparr>cs_comp := x, cs_sched := s, cs_signalled := cs_signalled c + 0x7FFFFFFF\<rparr>)" (is "comp_inv K ?c'")
proof (rule wake_step_inv [OF inv])
  have x: "x = (cs_comp c)\<lparr>comp_done := comp_done (cs_comp c) + 0x7FFFFFFF\<rparr>"
    "s = wake_up_common TASK_NORMAL 0 0 (comp_wait (cs_comp c)) (cs_sched c)"
    using sig by (auto simp: complete_all_def)
  have n: "unat (comp_done (cs_comp c) + 0x7FFFFFFF) = unat (comp_done (cs_comp c)) + 0x7FFFFFFF"
    using room by (simp add: unat_word_ariths)
  show "comp_wait (cs_comp ?c') = comp_wait (cs_comp c)" by (simp add: x)
  show "tstate_of (cs_sched ?c') p = tstate_of (cs_sched c) p \<or> tstate_of (cs_sched ?c') p = TASK_RUNNING" for p
    using signal_states(2) [OF ok inv, of p] by (simp add: x)
  show "unat (comp_done (cs_comp ?c')) + cs_succeeded ?c' = cs_signalled ?c'" using comp_invD(5) [OF inv] by (simp add: x n)
  have w: "waiters ?c' = waiters c" by (simp add: waiters_def x)
  have "tstate_of (cs_sched ?c') p = TASK_RUNNING" if "p \<in> set (waiters c)" for p
    using comp_invD(3) [OF inv that] signal_states(2) [OF ok inv, of p] that by (auto simp: x)
  then have "running_waiters ?c' = length (waiters c)" unfolding running_waiters_def w by (simp add: filter_True)
  then show "min (unat (comp_done (cs_comp ?c'))) (length (waiters c)) \<le> running_waiters ?c'" by simp
qed

text \<open>Waiting: leaving, starting and going on.\<close>

lemma leave_inv:
  assumes inv: "comp_inv K c" and p: "p \<in> set (waiters c)" "tstate_of (cs_sched c) p = TASK_RUNNING"
    and lv: "wait_leave p t (cs_comp c, cs_sched c) = (r, x, s)"
    and t: "comp_done (cs_comp c) = 0 \<Longrightarrow> t \<le> 0" "comp_done (cs_comp c) \<noteq> 0 \<Longrightarrow> 0 \<le> t"
  shows "comp_inv K (c\<lparr>cs_comp := x, cs_sched := s, cs_succeeded := cs_succeeded c + succeeded r\<rparr>)" (is "comp_inv K ?c'")
proof -
  let ?d = "comp_done (cs_comp c)"
  note x = wait_leave_cases [OF lv]
  have w: "waiters ?c' = filter (\<lambda>q. q \<noteq> p) (waiters c)"
    using x remove_waiter [OF comp_invD(1) [OF inv]] by (simp add: waiters_def)
  have st: "\<forall>q \<in> set (waiters ?c'). tstate_of s q = TASK_RUNNING \<or> sleeps_in s TASK_NORMAL q"
    unfolding w using comp_invD(3) [OF inv] x by simp
  have run: "Suc (running_waiters ?c') = running_waiters c"
    unfolding running_waiters_def w
    using filter_other [OF comp_invD(2) [OF inv] p(1), of "\<lambda>q. tstate_of (cs_sched c) q = TASK_RUNNING"] p(2) x by simp
  have len: "Suc (length (waiters ?c')) = length (waiters c)"
    unfolding w using filter_other [OF comp_invD(2) [OF inv] p(1), of "\<lambda>_. True"] by simp
  have q: "queue_ok K (comp_wait x)" using x remove_waiter_ok [OF comp_invD(1) [OF inv]] by simp
  show ?thesis
  proof (cases "?d = 0")
    case True
    then have "succeeded r = 0" "comp_done x = 0" using x t(1) by (auto simp: succeeded_def)
    then show ?thesis using q st comp_invD(5) [OF inv] True by (simp add: comp_inv_def)
  next
    case False
    then have d: "comp_done x = ?d - 1" "succeeded r = 1" using x t(2) by (auto simp: succeeded_def)
    have n: "Suc (unat (?d - 1)) = unat ?d" using False unat_dec [of ?d] unat_gt_0 [of ?d] by simp
    have "min (unat (comp_done x)) (length (waiters ?c')) \<le> running_waiters ?c'"
      using comp_invD(4) [OF inv] n run len unfolding d(1) by linarith
    moreover have "unat (comp_done x) + (cs_succeeded c + succeeded r) = cs_signalled c"
      using comp_invD(5) [OF inv] n by (simp add: d)
    ultimately show ?thesis using q st by (simp add: comp_inv_def)
  qed
qed

lemma start_inv:
  assumes inv: "comp_inv K c" and new: "p \<notin> set (waiters c)" and st: "flag_set st TASK_NORMAL" "0 \<le> t"
    and w: "wait_start K p st t (cs_comp c, cs_sched c) = (r, x, s)"
  shows "comp_inv K (c\<lparr>cs_comp := x, cs_sched := s, cs_succeeded := cs_succeeded c + succeeded r\<rparr>)" (is "comp_inv K ?c'")
proof (cases "comp_done (cs_comp c) = 0")
  case False
  let ?d = "comp_done (cs_comp c)"
  have r: "r = Returned (if t = 0 then 1 else t)" "x = (cs_comp c)\<lparr>comp_done := ?d - 1\<rparr>" "s = cs_sched c"
    using w False by (auto simp: wait_start_def)
  have n: "Suc (unat (?d - 1)) = unat ?d" using False unat_dec [of ?d] unat_gt_0 [of ?d] by simp
  have "min (unat (?d - 1)) (length (waiters c)) \<le> running_waiters c" using comp_invD(4) [OF inv] n by linarith
  moreover have "unat (?d - 1) + Suc (cs_succeeded c) = cs_signalled c" using comp_invD(5) [OF inv] n by simp
  moreover have "succeeded r = 1" using r st(2) by (simp add: succeeded_def)
  ultimately show ?thesis
    using inv by (simp add: comp_inv_def r(2,3) waiters_def running_waiters_def)
next
  case True
  define e where "e = (declare_waitqueue K p)\<lparr>wq_flags := wq_flags (declare_waitqueue K p) OR WQ_FLAG_EXCLUSIVE\<rparr>"
  define x1 where "x1 = (cs_comp c)\<lparr>comp_wait := comp_wait (cs_comp c) @ [e]\<rparr>"
  have b: "wait_body p st t (x1, cs_sched c) = (r, x, s)"
    using w True by (simp add: wait_start_def x1_def e_def add_wait_queue_tail_exclusive_def list_add_tail_def)
  have e: "wq_private e = p" "wq_node e = p" "wq_func e = default_wake_function K" "flag_set (wq_flags e) WQ_FLAG_EXCLUSIVE"
    by (simp_all add: e_def declare_waitqueue_def flag_set_def WQ_FLAG_EXCLUSIVE_def)
  have q1: "queue_ok K (comp_wait x1)"
    using comp_invD(1) [OF inv] new e by (auto simp: queue_ok_def x1_def waiters_def)
  show ?thesis
  proof (cases "signal_pending_state st (tasks (cs_sched c) p)")
    case True
    then have "wait_leave p (- ERESTARTSYS) (x1, cs_sched c) = (r, x, s)" using b by (simp add: wait_body_def)
    from wait_leave_cases [OF this] have x: "s = cs_sched c" "comp_wait x = remove_wait_queue p (comp_wait x1)"
      "comp_done x = 0" "r = Returned (- ERESTARTSYS)"
      using \<open>comp_done (cs_comp c) = 0\<close> by (simp_all add: x1_def)
    have "waiters ?c' = filter (\<lambda>q. q \<noteq> p) (waiters c @ [p])"
      using remove_waiter [OF q1, of p] by (simp add: waiters_def x x1_def e(1))
    also have "\<dots> = waiters c" using new by (auto simp: filter_id_conv)
    finally have "waiters ?c' = waiters c" .
    then show ?thesis
      unfolding comp_inv_def using remove_waiter_ok [OF q1] comp_invD(3,5) [OF inv] \<open>comp_done (cs_comp c) = 0\<close> x
      by (simp add: succeeded_def ERESTARTSYS_def)
  next
    case False
    then have x: "x = x1" "s = set_task_state p st (cs_sched c)" "r = Sleeps t" using b by (simp_all add: wait_body_def)
    have "waiters ?c' = waiters c @ [p]" by (simp add: waiters_def x x1_def e(1))
    moreover have "tstate_of s q = (if q = p then st else tstate_of (cs_sched c) q)" for q
      by (simp add: x set_task_state_def upd_task_def)
    ultimately show ?thesis
      using q1 comp_invD(3,5) [OF inv] \<open>comp_done (cs_comp c) = 0\<close> x(1,3) st(1)
      by (auto simp: comp_inv_def succeeded_def x1_def sleeps_in_def)
  qed
qed

lemma resume_inv:
  assumes inv: "comp_inv K c" and p: "p \<in> set (waiters c)" "tstate_of (cs_sched c) p = TASK_RUNNING"
    and st: "flag_set st TASK_NORMAL" "0 \<le> t"
    and w: "wait_resume p st t (cs_comp c, cs_sched c) = (r, x, s)"
  shows "comp_inv K (c\<lparr>cs_comp := x, cs_sched := s, cs_succeeded := cs_succeeded c + succeeded r\<rparr>)" (is "comp_inv K ?c'")
proof (cases "comp_done (cs_comp c) = 0 \<and> t \<noteq> 0")
  case False
  then have l: "wait_leave p t (cs_comp c, cs_sched c) = (r, x, s)"
    using w unfolding wait_resume_def fst_conv by (simp only: if_False)
  show ?thesis by (rule leave_inv [OF inv p l]) (use False st(2) in auto)
next
  case True
  then have b: "wait_body p st t (cs_comp c, cs_sched c) = (r, x, s)" using w by (simp add: wait_resume_def)
  show ?thesis
  proof (cases "signal_pending_state st (tasks (cs_sched c) p)")
    case True
    then have "wait_leave p (- ERESTARTSYS) (cs_comp c, cs_sched c) = (r, x, s)" using b by (simp add: wait_body_def)
    then show ?thesis
      using \<open>comp_done (cs_comp c) = 0 \<and> t \<noteq> 0\<close> by (intro leave_inv [OF inv p]) (auto simp: ERESTARTSYS_def)
  next
    case False
    then have x: "x = cs_comp c" "s = set_task_state p st (cs_sched c)" "r = Sleeps t" using b by (simp_all add: wait_body_def)
    have "tstate_of s q = (if q = p then st else tstate_of (cs_sched c) q)" for q
      by (simp add: x set_task_state_def upd_task_def)
    then show ?thesis
      using inv True x(1,3) st(1) by (auto simp: comp_inv_def succeeded_def waiters_def sleeps_in_def)
  qed
qed

lemma comp_step_inv: "\<lbrakk>comp_step K c c'; ext_ok K; comp_inv K c\<rbrakk> \<Longrightarrow> comp_inv K c'"
proof (induction rule: comp_step.induct)
  case (try_wait c b x)
  show ?case
  proof (cases "comp_done (cs_comp c) = 0")
    case True
    then show ?thesis using try_wait by (auto simp: try_wait_for_completion_def)
  next
    case False
    let ?d = "comp_done (cs_comp c)"
    have n: "Suc (unat (?d - 1)) = unat ?d" using False unat_dec [of ?d] unat_gt_0 [of ?d] by simp
    have x: "x = (cs_comp c)\<lparr>comp_done := ?d - 1\<rparr>" "b" using try_wait(1) False by (auto simp: try_wait_for_completion_def)
    have "min (unat (?d - 1)) (length (waiters c)) \<le> running_waiters c" using comp_invD(4) [OF try_wait(3)] n by linarith
    moreover have "unat (?d - 1) + Suc (cs_succeeded c) = cs_signalled c" using comp_invD(5) [OF try_wait(3)] n by simp
    ultimately show ?thesis using try_wait(3) by (simp add: comp_inv_def x waiters_def running_waiters_def)
  qed
next
  case (other c s)
  have st: "p \<in> set (waiters c) \<Longrightarrow> tstate_of (cs_sched (c\<lparr>cs_sched := s\<rparr>)) p = tstate_of (cs_sched c) p \<or>
      tstate_of (cs_sched (c\<lparr>cs_sched := s\<rparr>)) p = TASK_RUNNING" for p
    using other(1) by simp
  show ?case
  proof (rule wake_step_inv [OF other(3) _ st])
    have "running_waiters c \<le> running_waiters (c\<lparr>cs_sched := s\<rparr>)"
      by (rule running_waiters_mono [OF st]) (simp_all add: waiters_def)
    then show "min (unat (comp_done (cs_comp (c\<lparr>cs_sched := s\<rparr>)))) (length (waiters c)) \<le> running_waiters (c\<lparr>cs_sched := s\<rparr>)"
      using comp_invD(4) [OF other(3)] by simp
  qed (use comp_invD(5) [OF other(3)] in simp_all)
qed (auto intro: signal_inv signal_all_inv start_inv resume_inv)

lemma comp_reachable_inv: "\<lbrakk>comp_reachable K c; ext_ok K\<rbrakk> \<Longrightarrow> comp_inv K c"
proof (induction rule: comp_reachable.induct)
  case (init s)
  show ?case by (simp add: comp_inv_def queue_ok_def waiters_def)
qed (auto intro: comp_step_inv)

section \<open>What users of completions rely on\<close>

text \<open>C26: as long as the counter does not wrap, waits that succeed are matched one to one by signals: in every reachable
  state the completions still in the counter and the waits that returned success add up to the signals given.\<close>

theorem completion_counts:
  assumes "ext_ok K" and "comp_reachable K c"
  shows "unat (comp_done (cs_comp c)) + cs_succeeded c = cs_signalled c"
  using comp_reachable_inv [OF assms(2,1)] by (rule comp_invD(5))

text \<open>C25: no signal is lost: when the counter is not zero and tasks wait, one of them is runnable, and when it runs it
  takes a completion and returns success, whatever time it has left.\<close>

theorem completion_no_lost_wakeup:
  assumes "ext_ok K" and "comp_reachable K c" and "comp_done (cs_comp c) \<noteq> 0" and "waiters c \<noteq> []"
  shows "\<exists>p \<in> set (waiters c). tstate (tasks (cs_sched c) p) = TASK_RUNNING \<and>
    (\<forall>st t. 0 \<le> t \<longrightarrow> (\<exists>t' x. 0 < t' \<and> comp_done x = comp_done (cs_comp c) - 1 \<and>
       wait_resume p st t (cs_comp c, cs_sched c) = (Returned t', x, cs_sched c)))"
proof -
  have inv: "comp_inv K c" by (rule comp_reachable_inv [OF assms(2,1)])
  have "0 < min (unat (comp_done (cs_comp c))) (length (waiters c))"
    using assms(3,4) unat_gt_0 by auto
  then have "0 < running_waiters c" using comp_invD(4) [OF inv] by (rule less_le_trans)
  then obtain p where p: "p \<in> set (waiters c)" "tstate (tasks (cs_sched c) p) = TASK_RUNNING"
    unfolding running_waiters_def by (metis (mono_tags, lifting) filter_empty_conv length_greater_0_conv)
  have "\<exists>t' x. 0 < t' \<and> comp_done x = comp_done (cs_comp c) - 1 \<and>
      wait_resume p st t (cs_comp c, cs_sched c) = (Returned t', x, cs_sched c)" if "0 \<le> t" for st t
    using that assms(3) by (auto simp: wait_resume_def wait_leave_def Let_def)
  then show ?thesis using p by blast
qed

text \<open>Task 1 waits; then a signal comes.\<close>

definition comp_idle0 :: comp_sys where
  "comp_idle0 = \<lparr>cs_comp = \<lparr>comp_done = 0, comp_wait = []\<rparr>, cs_sched = state0, cs_signalled = 0, cs_succeeded = 0\<rparr>"

definition comp_wait0 :: comp_sys where
  "comp_wait0 = comp_idle0\<lparr>
     cs_comp := \<lparr>comp_done = 0, comp_wait = [(declare_waitqueue kernel0 1)\<lparr>wq_flags := 1\<rparr>]\<rparr>,
     cs_sched := set_task_state 1 TASK_UNINTERRUPTIBLE state0\<rparr>"

definition comp_woken0 :: comp_sys where
  "comp_woken0 = (case complete1 (cs_comp comp_wait0, cs_sched comp_wait0) of
     (x, s) \<Rightarrow> comp_wait0\<lparr>cs_comp := x, cs_sched := s, cs_signalled := 1\<rparr>)"

lemma state0_no_signal: "\<not> signal_pending_state st (tasks state0 p)"
  by (simp add: signal_pending_state_def signal_pending_def state0_def task0_def)

lemma comp_woken0_reachable: "comp_reachable kernel0 comp_woken0"
proof -
  have a: "comp_reachable kernel0 comp_idle0" unfolding comp_idle0_def by (rule comp_reachable.init)
  have "wait_start kernel0 1 TASK_UNINTERRUPTIBLE 5 (cs_comp comp_idle0, cs_sched comp_idle0) =
      (Sleeps 5, cs_comp comp_wait0, cs_sched comp_wait0)"
    by (simp add: wait_start_def wait_body_def state0_no_signal comp_idle0_def comp_wait0_def add_wait_queue_tail_exclusive_def
        list_add_tail_def declare_waitqueue_def WQ_FLAG_EXCLUSIVE_def)
  then have "comp_step kernel0 comp_idle0 (comp_idle0\<lparr>cs_comp := cs_comp comp_wait0, cs_sched := cs_sched comp_wait0,
      cs_succeeded := cs_succeeded comp_idle0 + succeeded (Sleeps 5)\<rparr>)"
    by (rule comp_step.start) (simp_all add: comp_idle0_def waiters_def flag_set_def task_state_defs)
  then have "comp_step kernel0 comp_idle0 comp_wait0"
    by (simp add: comp_idle0_def comp_wait0_def succeeded_def)
  with a have b: "comp_reachable kernel0 comp_wait0" by (rule comp_reachable.step)
  obtain x s where xs: "complete1 (cs_comp comp_wait0, cs_sched comp_wait0) = (x, s)" by fastforce
  then have "comp_step kernel0 comp_wait0 (comp_wait0\<lparr>cs_comp := x, cs_sched := s, cs_signalled := Suc (cs_signalled comp_wait0)\<rparr>)"
    by (rule comp_step.signal) (simp add: comp_wait0_def)
  with b have "comp_reachable kernel0 (comp_wait0\<lparr>cs_comp := x, cs_sched := s, cs_signalled := Suc (cs_signalled comp_wait0)\<rparr>)"
    by (rule comp_reachable.step)
  then show ?thesis by (simp add: comp_woken0_def xs) (simp add: comp_wait0_def comp_idle0_def)
qed

lemma comp_woken0_state: "comp_done (cs_comp comp_woken0) = 1" "waiters comp_woken0 = [1]" "cs_signalled comp_woken0 = 1"
  by (simp_all add: comp_woken0_def complete1_def comp_wait0_def waiters_def declare_waitqueue_def)

theorem completion_counts_witness:
  "comp_done (cs_comp comp_woken0) = 1 \<and> cs_succeeded comp_woken0 = 0"
  using completion_counts [OF ext_ok_kernel0(1) comp_woken0_reachable] by (simp add: comp_woken0_state)

theorem completion_no_lost_wakeup_witness:
  "waiters comp_woken0 = [1] \<and> tstate (tasks (cs_sched comp_woken0) 1) = TASK_RUNNING"
  using completion_no_lost_wakeup [OF ext_ok_kernel0(1) comp_woken0_reachable] by (simp add: comp_woken0_state)

text \<open>The counter wraps: after two calls of \<open>complete_all\<close> and two of \<open>complete\<close> nobody is done.\<close>

lemma complete_all_wraps:
  "completion_done (fst (complete1 (complete1 (complete_all (complete_all (\<lparr>comp_done = 0, comp_wait = []\<rparr>, s)))))) = False"
  by (simp add: complete1_def complete_all_def completion_done_def)

end
