(* ===== verification/Core_Acct.thy ===== *)
theory Core_Acct
  imports Core_Prio
begin

text \<open>
  Accounting of processor time, \<open>kernel/sched/core.c\<close>: the tick that charges one jiffy to a process and to a field of
  the statistics of the processor and of the accounting groups, the user and system times reported for a process, and
  the files of the accounting groups. The configuration counts ticks: no virtual, interrupt or paravirtual accounting. A
  \<open>cputime_t\<close> is a number of jiffies in an \<open>unsigned long\<close>. The interrupt counters, the conversion between time units
  and the accounting of thread groups are outside the repository.
\<close>

section \<open>State\<close>

text \<open>The fields of \<open>struct kernel_cpustat\<close>, from \<open>linux/kernel_stat.h\<close>.\<close>

datatype cpu_usage_stat =
    CPUTIME_USER | CPUTIME_NICE | CPUTIME_SYSTEM | CPUTIME_SOFTIRQ | CPUTIME_IRQ | CPUTIME_IDLE | CPUTIME_IOWAIT
  | CPUTIME_STEAL | CPUTIME_GUEST | CPUTIME_GUEST_NICE

text \<open>The times in \<open>struct task_struct\<close>.\<close>

record task_cputimes =
  utime :: ulong
  stime :: ulong
  utimescaled :: ulong
  stimescaled :: ulong
  gtime :: ulong
  prev_utime :: ulong
  prev_stime :: ulong

text \<open>What is told to the accounting code outside the repository.\<close>

datatype acct_event =
    Account_group_user_time task ulong
  | Account_group_system_time task ulong
  | Acct_update_integrals task

record acct_state =
  kcpustat :: "cpu_usage_stat \<Rightarrow> u64"
  ca_cpustat :: "ca \<Rightarrow> cpu_usage_stat \<Rightarrow> u64"
  cputimes :: "task \<Rightarrow> task_cputimes"
  nr_iowait :: int
  acct_events :: "acct_event list"

text \<open>The interrupt state in which the tick arrives.\<close>

record irq_state =
  irq_count :: u32
  hardirq_count :: u32
  in_serving_softirq :: bool
  HARDIRQ_OFFSET :: u32

definition root_cpuacct :: ca where "root_cpuacct = 0"
definition PF_VCPU :: u32 where "PF_VCPU = 0x10"

definition upd_times :: "task \<Rightarrow> (task_cputimes \<Rightarrow> task_cputimes) \<Rightarrow> acct_state \<Rightarrow> acct_state" where
  "upd_times p f a = a\<lparr>cputimes := (cputimes a)(p := f (cputimes a p))\<rparr>"

definition add_stat :: "cpu_usage_stat \<Rightarrow> u64 \<Rightarrow> acct_state \<Rightarrow> acct_state" where
  "add_stat i d a = a\<lparr>kcpustat := (kcpustat a)(i := kcpustat a i + d)\<rparr>"

definition add_ca_stat :: "cpu_usage_stat \<Rightarrow> u64 \<Rightarrow> ca \<Rightarrow> acct_state \<Rightarrow> acct_state" where
  "add_ca_stat i d c a = a\<lparr>ca_cpustat := (ca_cpustat a)(c := (ca_cpustat a c)(i := ca_cpustat a c i + d))\<rparr>"

definition acct_emit :: "acct_event \<Rightarrow> acct_state \<Rightarrow> acct_state" where
  "acct_emit e a = a\<lparr>acct_events := acct_events a @ [e]\<rparr>"

lemmas acct_upd_defs = upd_times_def add_stat_def add_ca_stat_def acct_emit_def

section \<open>Charging time\<close>

text \<open>The root group is counted first; the walk from the task's group stops before the root.\<close>

definition task_group_account_field :: "sched_state \<Rightarrow> task \<Rightarrow> cpu_usage_stat \<Rightarrow> u64 \<Rightarrow> acct_state \<Rightarrow> acct_state" where
  "task_group_account_field s p index tmp a =
     (let a1 = add_stat index tmp a
      in if \<not> cpuacct_active s then a1
         else fold (add_ca_stat index tmp) (takeWhile (\<lambda>c. c \<noteq> root_cpuacct) (ca_chain (ca_parent s) (task_ca (tasks s p)))) a1)"

definition account_user_time :: "sched_state \<Rightarrow> task \<Rightarrow> ulong \<Rightarrow> ulong \<Rightarrow> acct_state \<Rightarrow> acct_state" where
  "account_user_time s p cputime cputime_scaled a =
     (let a1 = upd_times p (\<lambda>t. t\<lparr>utime := utime t + cputime, utimescaled := utimescaled t + cputime_scaled\<rparr>) a;
          a2 = acct_emit (Account_group_user_time p cputime) a1;
          index = (if TASK_NICE (tasks s p) > 0 then CPUTIME_NICE else CPUTIME_USER);
          a3 = task_group_account_field s p index (ucast cputime) a2
      in acct_emit (Acct_update_integrals p) a3)"

definition account_guest_time :: "sched_state \<Rightarrow> task \<Rightarrow> ulong \<Rightarrow> ulong \<Rightarrow> acct_state \<Rightarrow> acct_state" where
  "account_guest_time s p cputime cputime_scaled a =
     (let a1 = upd_times p (\<lambda>t. t\<lparr>utime := utime t + cputime, utimescaled := utimescaled t + cputime_scaled\<rparr>) a;
          a2 = acct_emit (Account_group_user_time p cputime) a1;
          a3 = upd_times p (\<lambda>t. t\<lparr>gtime := gtime t + cputime\<rparr>) a2
      in if TASK_NICE (tasks s p) > 0
         then add_stat CPUTIME_GUEST_NICE (ucast cputime) (add_stat CPUTIME_NICE (ucast cputime) a3)
         else add_stat CPUTIME_GUEST (ucast cputime) (add_stat CPUTIME_USER (ucast cputime) a3))"

definition account_system_time1 :: "sched_state \<Rightarrow> task \<Rightarrow> ulong \<Rightarrow> ulong \<Rightarrow> cpu_usage_stat \<Rightarrow> acct_state \<Rightarrow> acct_state" where
  "account_system_time1 s p cputime cputime_scaled index a =
     (let a1 = upd_times p (\<lambda>t. t\<lparr>stime := stime t + cputime, stimescaled := stimescaled t + cputime_scaled\<rparr>) a;
          a2 = acct_emit (Account_group_system_time p cputime) a1;
          a3 = task_group_account_field s p index (ucast cputime) a2
      in acct_emit (Acct_update_integrals p) a3)"

definition account_system_time ::
    "irq_state \<Rightarrow> sched_state \<Rightarrow> task \<Rightarrow> u32 \<Rightarrow> ulong \<Rightarrow> ulong \<Rightarrow> acct_state \<Rightarrow> acct_state" where
  "account_system_time irq s p hardirq_offset cputime cputime_scaled a =
     (if flag_set (tflags (tasks s p)) PF_VCPU \<and> irq_count irq - hardirq_offset = 0
      then account_guest_time s p cputime cputime_scaled a
      else
        let index = (if hardirq_count irq - hardirq_offset \<noteq> 0 then CPUTIME_IRQ
                     else if in_serving_softirq irq then CPUTIME_SOFTIRQ else CPUTIME_SYSTEM)
        in account_system_time1 s p cputime cputime_scaled index a)"

definition account_steal_time :: "ulong \<Rightarrow> acct_state \<Rightarrow> acct_state" where
  "account_steal_time cputime = add_stat CPUTIME_STEAL (ucast cputime)"

definition account_idle_time :: "ulong \<Rightarrow> acct_state \<Rightarrow> acct_state" where
  "account_idle_time cputime a = add_stat (if nr_iowait a > 0 then CPUTIME_IOWAIT else CPUTIME_IDLE) (ucast cputime) a"

text \<open>\<open>one\<close> is \<open>cputime_one_jiffy\<close>, \<open>scaled\<close> its value scaled by the frequency.\<close>

definition account_process_tick ::
    "irq_state \<Rightarrow> ulong \<Rightarrow> ulong \<Rightarrow> sched_state \<Rightarrow> task \<Rightarrow> bool \<Rightarrow> acct_state \<Rightarrow> acct_state" where
  "account_process_tick irq one scaled s p user_tick a =
     (if user_tick then account_user_time s p one scaled a
      else if p \<noteq> idle (rq s) \<or> irq_count irq \<noteq> HARDIRQ_OFFSET irq
      then account_system_time irq s p (HARDIRQ_OFFSET irq) one scaled a
      else account_idle_time one a)"

text \<open>With ticks as the unit \<open>jiffies_to_cputime\<close> is the identity.\<close>

definition account_steal_ticks :: "ulong \<Rightarrow> acct_state \<Rightarrow> acct_state" where
  "account_steal_ticks ticks a = account_steal_time ticks a"

definition account_idle_ticks :: "ulong \<Rightarrow> acct_state \<Rightarrow> acct_state" where
  "account_idle_ticks ticks a = account_idle_time ticks a"

section \<open>Reported times\<close>

text \<open>\<open>None\<close> is a division by zero, which the callers exclude.\<close>

definition scale_utime :: "ulong \<Rightarrow> ulong \<Rightarrow> ulong \<Rightarrow> ulong option" where
  "scale_utime ut rtime tot =
     (if tot = 0 then None else Some (ucast ((ucast rtime * ucast ut :: u64) div ucast tot)))"

text \<open>
  The common part of \<open>task_times\<close> and \<open>thread_group_times\<close>: from the ticks counted and the precise run time in ticks to
  the two times, not smaller than those of the previous call.
\<close>

definition adjust_times :: "ulong \<Rightarrow> ulong \<Rightarrow> ulong \<Rightarrow> ulong \<times> ulong \<Rightarrow> ulong \<times> ulong" where
  "adjust_times ut st rtime prev =
     (let tot = ut + st;
          u = (if tot \<noteq> 0 then (case scale_utime ut rtime tot of Some x \<Rightarrow> x | None \<Rightarrow> rtime) else rtime);
          pu = max (fst prev) u;
          ps = max (snd prev) (rtime - pu)
      in (pu, ps))"

definition task_times :: "(u64 \<Rightarrow> ulong) \<Rightarrow> sched_state \<Rightarrow> task \<Rightarrow> acct_state \<Rightarrow> (ulong \<times> ulong) \<times> acct_state" where
  "task_times nsecs_to_cputime s p a =
     (let t = cputimes a p; rtime = nsecs_to_cputime (sum_exec_runtime (se (tasks s p)));
          r = adjust_times (utime t) (stime t) rtime (prev_utime t, prev_stime t)
      in (r, upd_times p (\<lambda>t. t\<lparr>prev_utime := fst r, prev_stime := snd r\<rparr>) a))"

text \<open>The sums over the threads of a group and the previous values in \<open>struct signal_struct\<close>.\<close>

record signal_times =
  sig_utime :: ulong
  sig_stime :: ulong
  sig_sum_exec_runtime :: u64
  sig_prev_utime :: ulong
  sig_prev_stime :: ulong

definition thread_group_times :: "(u64 \<Rightarrow> ulong) \<Rightarrow> signal_times \<Rightarrow> (ulong \<times> ulong) \<times> signal_times" where
  "thread_group_times nsecs_to_cputime g =
     (let r = adjust_times (sig_utime g) (sig_stime g) (nsecs_to_cputime (sig_sum_exec_runtime g))
                (sig_prev_utime g, sig_prev_stime g)
      in (r, g\<lparr>sig_prev_utime := fst r, sig_prev_stime := snd r\<rparr>))"

section \<open>The files of an accounting group\<close>

definition cpuacct_cpuusage_read :: "ca \<Rightarrow> sched_state \<Rightarrow> u64" where
  "cpuacct_cpuusage_read c s = cpuusage s c"

definition cpuacct_cpuusage_write :: "ca \<Rightarrow> u64 \<Rightarrow> sched_state \<Rightarrow> sched_state" where
  "cpuacct_cpuusage_write c v s = s\<lparr>cpuusage := (cpuusage s)(c := v)\<rparr>"

text \<open>The sum over the one processor.\<close>

definition cpuusage_read :: "ca \<Rightarrow> sched_state \<Rightarrow> u64" where
  "cpuusage_read c s = 0 + cpuacct_cpuusage_read c s"

definition cpuusage_write :: "ca \<Rightarrow> u64 \<Rightarrow> sched_state \<Rightarrow> int \<times> sched_state" where
  "cpuusage_write c reset s = (if reset \<noteq> 0 then (- EINVAL, s) else (0, cpuacct_cpuusage_write c 0 s))"

text \<open>The statistics of the root group are those of the processor.\<close>

definition ca_stats :: "acct_state \<Rightarrow> ca \<Rightarrow> cpu_usage_stat \<Rightarrow> u64" where
  "ca_stats a c = (if c = root_cpuacct then kcpustat a else ca_cpustat a c)"

text \<open>The two numbers of the file \<open>stat\<close>; \<open>clock_t\<close> converts to user ticks.\<close>

definition cpuacct_stats_show :: "(u64 \<Rightarrow> u64) \<Rightarrow> ca \<Rightarrow> acct_state \<Rightarrow> (string \<times> u64) list" where
  "cpuacct_stats_show clock_t c a =
     [(''user'', clock_t (ca_stats a c CPUTIME_USER + ca_stats a c CPUTIME_NICE)),
      (''system'', clock_t (ca_stats a c CPUTIME_SYSTEM + ca_stats a c CPUTIME_IRQ + ca_stats a c CPUTIME_SOFTIRQ))]"

text \<open>Creating the group \<open>c\<close> below \<open>parent\<close>; the flags say which allocations succeed.\<close>

definition cpuacct_create ::
    "bool \<Rightarrow> bool \<Rightarrow> bool \<Rightarrow> ca \<Rightarrow> ca option \<Rightarrow> sched_state \<times> acct_state \<Rightarrow> (errno + ca) \<times> sched_state \<times> acct_state" where
  "cpuacct_create mem usage_mem stat_mem c parent st =
     (case parent of
        None \<Rightarrow> (Inr root_cpuacct, st)
      | Some p \<Rightarrow>
          if \<not> mem \<or> \<not> usage_mem \<or> \<not> stat_mem then (Inl (- ENOMEM), st)
          else (Inr c, (fst st)\<lparr>cpuusage := (cpuusage (fst st))(c := 0), ca_parent := (ca_parent (fst st))(c := Some p)\<rparr>,
                (snd st)\<lparr>ca_cpustat := (ca_cpustat (snd st))(c := (\<lambda>_. 0))\<rparr>))"

end
