(* ===== verification/Core_Acct_Proofs.thy ===== *)
theory Core_Acct_Proofs
  imports Core_Acct Sched_Examples
begin

text \<open>
  Every tick is counted in exactly one field of the statistics and in those of the groups of the task; the times
  reported for a process never decrease and cover its run time, and can add up to more than it.
\<close>

section \<open>No tick is lost\<close>

text \<open>The fields that divide the time of the processor; guest time is also user time.\<close>

definition total_time :: "(cpu_usage_stat \<Rightarrow> u64) \<Rightarrow> u64" where
  "total_time f = f CPUTIME_USER + f CPUTIME_NICE + f CPUTIME_SYSTEM + f CPUTIME_SOFTIRQ + f CPUTIME_IRQ + f CPUTIME_IDLE +
     f CPUTIME_IOWAIT + f CPUTIME_STEAL"

definition divides_time :: "cpu_usage_stat \<Rightarrow> bool" where
  "divides_time i \<longleftrightarrow> i \<noteq> CPUTIME_GUEST \<and> i \<noteq> CPUTIME_GUEST_NICE"

lemma total_time_upd: "total_time (f(i := f i + d)) = total_time f + (if divides_time i then d else 0)"
  by (cases i) (simp_all add: total_time_def divides_time_def)

lemma total_time_guest:
  "total_time (f(i := x, CPUTIME_GUEST := y)) = total_time (f(i := x))"
  "total_time (f(i := x, CPUTIME_GUEST_NICE := y)) = total_time (f(i := x))"
  by (simp_all add: total_time_def)

lemma kcpustat_add_ca [simp]: "kcpustat (fold (add_ca_stat i d) cs a) = kcpustat a"
  by (induction cs arbitrary: a) (simp_all add: add_ca_stat_def)

lemma kcpustat_simps [simp]:
  "kcpustat (upd_times p f a) = kcpustat a" "kcpustat (acct_emit e a) = kcpustat a"
  "kcpustat (add_stat i d a) = (kcpustat a)(i := kcpustat a i + d)"
  "kcpustat (task_group_account_field s p i d a) = (kcpustat a)(i := kcpustat a i + d)"
  by (simp_all add: acct_upd_defs task_group_account_field_def Let_def)

text \<open>Whoever runs when the timer tick arrives, and in whatever context, exactly one jiffy is added to the fields
  that divide the time of the processor: no tick is lost and none is counted twice.\<close>

theorem account_process_tick_once:
  "total_time (kcpustat (account_process_tick irq one scaled s p user_tick a)) = total_time (kcpustat a) + ucast one"
  by (simp add: account_process_tick_def account_user_time_def account_system_time_def account_system_time1_def
      account_guest_time_def account_idle_time_def Let_def total_time_guest total_time_upd divides_time_def)

text \<open>The accounting groups below the root that a task belongs to get the time of the task once each.\<close>

lemma ca_chain_le: "c \<in> set (ca_chain par x) \<Longrightarrow> c \<le> x"
proof (induction x rule: less_induct)
  case (less x)
  then show ?case by (subst (asm) ca_chain.simps) (fastforce split: option.splits if_splits)
qed

lemma ca_chain_distinct: "distinct (ca_chain par x)"
proof (induction x rule: less_induct)
  case (less x)
  then show ?case using ca_chain_le by (subst ca_chain.simps) (fastforce split: option.split)
qed

lemma ca_stat_fold:
  "distinct cs \<Longrightarrow> ca_cpustat (fold (add_ca_stat i d) cs a) c j = ca_cpustat a c j + (if c \<in> set cs \<and> j = i then d else 0)"
  by (induction cs arbitrary: a) (auto simp: add_ca_stat_def)

lemma group_charge:
  "ca_cpustat (task_group_account_field s p i d a) c j = ca_cpustat a c j +
     (if cpuacct_active s \<and> c \<in> set (takeWhile (\<lambda>c. c \<noteq> root_cpuacct) (ca_chain (ca_parent s) (task_ca (tasks s p)))) \<and> j = i
      then d else 0)"
proof -
  have "ca_cpustat (add_stat i d a) = ca_cpustat a" by (simp add: add_stat_def)
  then show ?thesis
    by (simp add: task_group_account_field_def Let_def ca_stat_fold ca_chain_distinct distinct_takeWhile)
qed

section \<open>Reported times\<close>

lemma scale_utime_le:
  assumes "unat ut + unat st < 2 ^ 32" "ut + st \<noteq> 0"
  obtains u where "scale_utime ut rtime (ut + st) = Some u" "u \<le> rtime"
proof -
  let ?q = "(ucast rtime * ucast ut :: u64) div ucast (ut + st)"
  have n: "unat (ut + st) = unat ut + unat st" using assms(1) by (simp add: unat_word_ariths)
  have pos: "0 < unat (ut + st)" using assms(2) unat_gt_0 by blast
  have u: "unat (ucast x :: u64) = unat x" for x :: ulong
  proof -
    have "unat x < 2 ^ LENGTH(32)" by (rule unsigned_less)
    then show ?thesis by (simp add: unsigned_ucast_eq take_bit_nat_eq_self_iff)
  qed
  have m: "unat rtime * unat ut < 2 ^ 64"
  proof -
    have b: "unat x < 2 ^ 32" for x :: ulong using unsigned_less [of x] by simp
    have "unat rtime * unat ut < 2 ^ 32 * 2 ^ 32" by (rule mult_strict_mono' [OF b b]) simp_all
    then show ?thesis by simp
  qed
  have "unat ?q = unat rtime * unat ut div unat (ut + st)"
  proof -
    have "unat (ucast rtime * ucast ut :: u64) = unat rtime * unat ut"
      unfolding unat_word_ariths(2) u using m by simp
    then show ?thesis unfolding unat_div u by simp
  qed
  also have "\<dots> \<le> unat rtime * unat (ut + st) div unat (ut + st)"
    using n by (intro div_le_mono mult_le_mono2) simp
  also have "\<dots> = unat rtime" using pos by simp
  finally have "unat ?q \<le> unat rtime" .
  then have "unat (ucast ?q :: ulong) \<le> unat rtime"
    unfolding unsigned_ucast_eq by (rule take_bit_nat_less_eq_self [THEN order_trans])
  then show thesis using that assms(2) by (simp add: scale_utime_def word_le_nat_alt)
qed

lemma adjust_times_bounds:
  assumes "unat ut + unat st < 2 ^ 32" "fst prev \<le> rtime" "adjust_times ut st rtime prev = (u, s)"
  shows "fst prev \<le> u \<and> snd prev \<le> s \<and> u \<le> rtime \<and> unat rtime \<le> unat u + unat s"
proof -
  define x where "x = (if ut + st \<noteq> 0 then (case scale_utime ut rtime (ut + st) of Some x \<Rightarrow> x | None \<Rightarrow> rtime) else rtime)"
  have x: "x \<le> rtime" using scale_utime_le [OF assms(1), of rtime] by (fastforce simp: x_def)
  have us: "u = max (fst prev) x" "s = max (snd prev) (rtime - u)"
    using assms(3) by (auto simp: adjust_times_def Let_def x_def)
  have le: "u \<le> rtime" using us(1) x assms(2) by simp
  then have "unat (rtime - u) = unat rtime - unat u" by (simp add: unat_sub)
  moreover have "unat (rtime - u) \<le> unat s" using us(2) by (simp add: word_le_nat_alt [symmetric])
  ultimately have "unat rtime \<le> unat u + unat s" by simp
  then show ?thesis using us le by auto
qed

text \<open>C28: the user and system times reported for a process never go down, the user time is at most the precise run
  time, and both together cover it; the subtraction does not wrap. The hypotheses hold again at the next call, as the
  run time grows.\<close>

theorem task_times_monotone:
  assumes "unat (utime (cputimes a p)) + unat (stime (cputimes a p)) < 2 ^ 32"
    and "prev_utime (cputimes a p) \<le> conv (sum_exec_runtime (se (tasks s p)))"
    and "task_times conv s p a = ((u, st), a')"
  shows "prev_utime (cputimes a p) \<le> u \<and> prev_stime (cputimes a p) \<le> st \<and>
    u \<le> conv (sum_exec_runtime (se (tasks s p))) \<and>
    unat (conv (sum_exec_runtime (se (tasks s p)))) \<le> unat u + unat st \<and>
    prev_utime (cputimes a' p) = u \<and> prev_stime (cputimes a' p) = st"
  using adjust_times_bounds [OF assms(1), of "(prev_utime (cputimes a p), prev_stime (cputimes a p))"
      "conv (sum_exec_runtime (se (tasks s p)))" u st] assms(2,3)
  by (auto simp: task_times_def Let_def upd_times_def)

definition acct0 :: acct_state where
  "acct0 = \<lparr>kcpustat = (\<lambda>_. 0), ca_cpustat = (\<lambda>_ _. 0),
     cputimes = (\<lambda>_. \<lparr>utime = 1, stime = 1, utimescaled = 1, stimescaled = 1, gtime = 0, prev_utime = 0, prev_stime = 10\<rparr>),
     nr_iowait = 0, acct_events = []\<rparr>"

theorem task_times_monotone_witness:
  "fst (task_times (\<lambda>_. 12) state0 1 acct0) = (6, 10) \<and> prev_utime (cputimes acct0 1) \<le> 6"
proof -
  have t: "fst (task_times (\<lambda>_. 12) state0 1 acct0) = (6, 10)" by code_simp
  then have e: "task_times (\<lambda>_. 12) state0 1 acct0 = ((6, 10), snd (task_times (\<lambda>_. 12) state0 1 acct0))"
    by (simp add: prod_eq_iff)
  have "unat (utime (cputimes acct0 1)) + unat (stime (cputimes acct0 1)) < 2 ^ 32" by (simp add: acct0_def)
  moreover have "prev_utime (cputimes acct0 1) \<le> 12" by (simp add: acct0_def)
  ultimately show ?thesis using task_times_monotone [OF _ _ e] t by blast
qed

text \<open>A process that ran 12 ticks, reported with 6 of user and 10 of system time after an earlier report.\<close>

lemma task_times_exceed_runtime:
  "adjust_times 0 1 10 (0, 0) = (0, 10) \<and> adjust_times 1 1 12 (0, 10) = (6, 10)"
  by code_simp

end
