(* ===== verification/Core_Load_Proofs.thy ===== *)
theory Core_Load_Proofs
  imports Core_Load Complex_Main "HOL-Library.Log_Nat"
begin

text \<open>
  Properties of the load statistics: the fixed-point power is within half a unit per factor of
  the exact power, a sample of the load average lies between the old average and the new load,
  and the decayed load of the CPU reads its table in range and never overshoots.
\<close>

section \<open>Fixed-point arithmetic\<close>

declare of_nat_unat [simp del]

lemma abs_diff_triangle: "\<lbrakk>\<bar>p - q\<bar> \<le> a; \<bar>q - r\<bar> \<le> b\<rbrakk> \<Longrightarrow> \<bar>p - r\<bar> \<le> a + b" for p q r a b :: real
  by linarith

lemma round_div_error:
  assumes "0 < f"
  shows "\<bar>real ((m + 2 ^ (f - 1)) div 2 ^ f) * 2 ^ f - real m\<bar> \<le> 2 ^ f / 2"
proof -
  let ?F = "2 ^ f :: nat" and ?h = "2 ^ (f - 1) :: nat"
  have F: "?F = 2 * ?h" using assms by (cases f) auto
  let ?q = "(m + ?h) div ?F" and ?r = "(m + ?h) mod ?F"
  have "?q * ?F + ?r = m + ?h" by (rule div_mult_mod_eq)
  then have "real ?q * real ?F + real ?r = real m + real ?h"
    unfolding of_nat_mult [symmetric] of_nat_add [symmetric] by simp
  moreover have "real ?r < real ?F" by (simp only: of_nat_less_iff) simp
  moreover have "0 \<le> real ?r" by simp
  moreover have "real ?F = 2 * real ?h" using F by simp
  ultimately have "\<bar>real ?q * real ?F - real m\<bar> \<le> real ?F / 2" by linarith
  then show ?thesis by simp
qed

lemma unat_shift_right: "unat (drop_bit k w) = unat w div 2 ^ k" for w :: ulong
  unfolding unat_drop_bit_eq by (simp only: drop_bit_eq_div)

lemma unat_push_one: "n < 32 \<Longrightarrow> unat (push_bit n 1 :: ulong) = 2 ^ n"
  by (simp only: unsigned_push_bit_eq unsigned_1) (simp add: push_bit_eq_mult take_bit_nat_eq_self power_strict_increasing)

lemma fixed_mult_unat:
  assumes "0 < f" "f \<le> 15" "unat a \<le> 2 ^ f" "unat b \<le> 2 ^ f"
  shows "unat (fixed_mult f a b) = (unat a * unat b + 2 ^ (f - 1)) div 2 ^ f"
    "unat (fixed_mult f a b) \<le> 2 ^ f"
proof -
  have ab: "unat a * unat b \<le> 2 ^ f * 2 ^ f" using assms(3,4) by (intro mult_le_mono) auto
  have f2: "(2 ^ f * 2 ^ f :: nat) \<le> 2 ^ 30"
    using assms(2) by (simp add: power_add [symmetric] power_increasing del: power_numeral)
  have h: "(2 ^ (f - 1) :: nat) \<le> 2 ^ 14" using assms(2) by (intro power_increasing) auto
  have m: "unat (a * b) = unat a * unat b" using ab f2 by (intro unat_mult_lem [THEN iffD1]) simp
  have p: "unat (push_bit (f - 1) 1 :: ulong) = 2 ^ (f - 1)"
    using assms(2) by (intro unat_push_one) simp
  have s: "unat (a * b + push_bit (f - 1) 1) = unat a * unat b + 2 ^ (f - 1)"
    using ab f2 h m p by (subst unat_add_lem [THEN iffD1]) simp_all
  show *: "unat (fixed_mult f a b) = (unat a * unat b + 2 ^ (f - 1)) div 2 ^ f"
    unfolding fixed_mult_def unat_drop_bit_eq s by (simp only: drop_bit_eq_div)
  have "(2 ^ (f - 1) :: nat) < 2 ^ f" using assms(1) by simp
  then have "unat a * unat b + 2 ^ (f - 1) < Suc (2 ^ f) * 2 ^ f"
    unfolding mult_Suc using ab by linarith
  then have "(unat a * unat b + 2 ^ (f - 1)) div 2 ^ f < Suc (2 ^ f)"
    by (rule less_mult_imp_div_less)
  then show "unat (fixed_mult f a b) \<le> 2 ^ f" unfolding * by simp
qed

text \<open>A fixed-point product of approximations of two numbers in the unit interval.\<close>

lemma fixed_mult_error:
  assumes f: "0 < f" "f \<le> 15" and a: "unat a \<le> 2 ^ f" "0 \<le> A" "A \<le> 1" "\<bar>real (unat a) - 2 ^ f * A\<bar> \<le> d"
    and b: "unat b \<le> 2 ^ f" "0 \<le> B" "B \<le> 1" "\<bar>real (unat b) - 2 ^ f * B\<bar> \<le> e"
  shows "\<bar>real (unat (fixed_mult f a b)) - 2 ^ f * (A * B)\<bar> \<le> d + e + 1 / 2"
proof -
  define u v w where "u = real (unat a)" and "v = real (unat b)" and "w = real (unat (fixed_mult f a b))"
  let ?F = "2 ^ f :: real" and ?a = u and ?b = v and ?p = w
  note uvw = u_def [symmetric] v_def [symmetric] w_def [symmetric]
  have F: "0 < ?F" by simp
  have "\<bar>?p * ?F - ?a * ?b\<bar> \<le> ?F / 2"
    using round_div_error [OF f(1), of "unat a * unat b"]
    unfolding fixed_mult_unat(1) [OF f a(1) b(1), symmetric] of_nat_mult uvw .
  moreover have "\<bar>?a * ?b - ?F * ?F * (A * B)\<bar> \<le> ?F * (d + e)"
  proof -
    have eq: "?a * ?b - ?F * ?F * (A * B) = ?a * (?b - ?F * B) + (?F * B) * (?a - ?F * A)" by (simp add: algebra_simps)
    have a0: "0 \<le> ?a" by (simp add: u_def)
    have "?a \<le> ?F" unfolding u_def using a(1) by (metis of_nat_le_iff of_nat_numeral of_nat_power)
    then have "\<bar>?a * (?b - ?F * B)\<bar> \<le> ?F * e"
      unfolding abs_mult using b(4) [folded v_def] a0 by (intro mult_mono) auto
    moreover have "\<bar>(?F * B) * (?a - ?F * A)\<bar> \<le> ?F * d"
      unfolding abs_mult using a(4) [folded u_def] b(2,3) by (intro mult_mono) (auto simp: abs_mult)
    ultimately show ?thesis unfolding eq by (simp add: algebra_simps)
  qed
  ultimately have "\<bar>?p * ?F - ?F * ?F * (A * B)\<bar> \<le> ?F / 2 + ?F * (d + e)" by (rule abs_diff_triangle)
  then have "\<bar>?p * ?F - ?F * ?F * (A * B)\<bar> \<le> ?F * (d + e + 1 / 2)" by (simp add: algebra_simps)
  moreover have "?p * ?F - ?F * ?F * (A * B) = ?F * (?p - ?F * (A * B))" by (simp add: algebra_simps)
  ultimately have "?F * \<bar>?p - ?F * (A * B)\<bar> \<le> ?F * (d + e + 1 / 2)" using F by (simp add: abs_mult)
  then show ?thesis unfolding w_def [symmetric] using F by simp
qed

lemma fixed_power_loop_error:
  assumes "0 < f" "f \<le> 15" "n \<noteq> 0"
    and "unat x \<le> 2 ^ f" "0 \<le> X" "X \<le> 1" "\<bar>real (unat x) - 2 ^ f * X\<bar> \<le> e"
    and "unat r \<le> 2 ^ f" "0 \<le> R" "R \<le> 1" "\<bar>real (unat r) - 2 ^ f * R\<bar> \<le> d"
  shows "\<bar>real (unat (fixed_power_loop x f n r)) - 2 ^ f * (R * X ^ unat n)\<bar> \<le> d + real (unat n) * (e + 1 / 2)"
  using assms
proof (induction x f n r arbitrary: X e R d rule: fixed_power_loop.induct)
  case (1 x f n r)
  let ?r1 = "if n AND 1 \<noteq> 0 then fixed_mult f r x else r" and ?n1 = "drop_bit 1 n"
  define od where "od = odd (unat n)"
  let ?odd = od
  have odd: "n AND 1 \<noteq> 0 \<longleftrightarrow> ?odd" 
    by (simp add: od_def and_one_eq even_iff_mod_2_eq_zero unat_arith_simps)
  define R1 where "R1 = (if ?odd then R * X else R)"
  define d1 where "d1 = (if ?odd then d + e + 1 / 2 else d)"
  have n: "unat n = 2 * unat ?n1 + (if ?odd then 1 else 0)"
    using unat_half [of n] by (simp add: od_def)
  have r1: "unat ?r1 \<le> 2 ^ f" "0 \<le> R1" "R1 \<le> 1" "\<bar>real (unat ?r1) - 2 ^ f * R1\<bar> \<le> d1"
    using fixed_mult_unat(2) [of f r x] fixed_mult_error [of f r R d x X e] "1.prems" odd
    by (auto simp: R1_def d1_def mult_le_one)
  have e: "0 \<le> e" using "1.prems"(7) by linarith
  show ?case
  proof (cases "?n1 = 0")
    case True
    then have "unat n = 1" "?odd" using n "1.prems"(3) by (auto simp: unat_eq_zero split: if_splits)
    then show ?thesis using r1(4) True by (subst fixed_power_loop.simps) (simp add: R1_def d1_def)
  next
    case False
    let ?x1 = "fixed_mult f x x"
    have x1: "unat ?x1 \<le> 2 ^ f" "0 \<le> X * X" "X * X \<le> 1" "\<bar>real (unat ?x1) - 2 ^ f * (X * X)\<bar> \<le> e + e + 1 / 2"
      using fixed_mult_unat(2) [of f x x] fixed_mult_error [of f x X e x X e] "1.prems" by (auto simp: mult_le_one)
    have eq: "R1 * (X * X) ^ unat ?n1 = R * X ^ unat n"
      unfolding n by (simp add: R1_def power_mult power2_eq_square power_add power_mult_distrib mult.commute)
    have "d1 + real (unat ?n1) * (e + e + 1 / 2 + 1 / 2) = d + real (unat n) * (e + 1 / 2)"
      unfolding n by (simp add: d1_def algebra_simps)
    moreover have "fixed_power_loop x f n r = fixed_power_loop ?x1 f ?n1 ?r1"
      using False by (subst fixed_power_loop.simps) (simp add: Let_def)
    ultimately show ?thesis
      using "1.IH" [OF refl refl False "1.prems"(1,2) False x1 r1] eq by simp
  qed
qed

text \<open>The loop runs once for each binary digit of the exponent.\<close>

lemma floorlog_half: "0 < m \<Longrightarrow> floorlog 2 m = Suc (floorlog 2 (m div 2))"
  using compute_floorlog [of 2 m] by simp

lemma fixed_power_steps_loop:
  "n \<noteq> 0 \<Longrightarrow> fixed_power_steps k x f n r =
     (if k < floorlog 2 (unat n) then None else Some (fixed_power_loop x f n r))"
proof (induction k arbitrary: x n r)
  case 0
  then have "0 < unat n" by (simp add: unat_gt_0)
  then show ?case by (simp add: floorlog_half)
next
  case (Suc k)
  let ?n1 = "drop_bit (Suc 0) n"
  have "0 < unat n" using Suc.prems by (simp add: unat_gt_0)
  then have fl: "floorlog 2 (unat n) = Suc (floorlog 2 (unat ?n1))"
    unfolding unat_half by (rule floorlog_half)
  show ?case
  proof (cases "?n1 = 0")
    case True
    then have "floorlog 2 (unat n) = 1" using fl by (simp add: floorlog_def)
    then show ?thesis using True by (subst fixed_power_loop.simps) (simp add: Let_def)
  next
    case False
    then show ?thesis using Suc.IH [OF False] fl by (subst fixed_power_loop.simps) (simp add: Let_def)
  qed
qed

text \<open>C30: \<open>fixed_power_int\<close> computes \<open>x ^ n\<close> of a fixed-point number between 0 and 1 with an error of
  at most half a unit of the last place for each of the \<open>n\<close> factors, for every precision from 1 to 15
  fractional bits; for a non-zero exponent its loop ends after exactly as many iterations as \<open>n\<close> has binary
  digits, so logarithmically many.\<close>

theorem fixed_power_int_power:
  assumes "0 < f" and "f \<le> 15" and "unat x \<le> 2 ^ f"
  shows "\<bar>real (unat (fixed_power_int x f n)) - 2 ^ f * (real (unat x) / 2 ^ f) ^ unat n\<bar> \<le> real (unat n) / 2 \<and>
    (n \<noteq> 0 \<longrightarrow> fixed_power_steps k x f n (push_bit f 1) =
       (if k < floorlog 2 (unat n) then None else Some (fixed_power_int x f n)))"
proof (cases "n = 0")
  case True
  then show ?thesis using unat_push_one [of f] assms(2) by (simp add: fixed_power_int_def)
next
  case False
  have one: "unat (push_bit f 1 :: ulong) = 2 ^ f" using assms(2) by (intro unat_push_one) simp
  have x: "real (unat x) \<le> 2 ^ f" using assms(3) by (metis of_nat_le_iff of_nat_numeral of_nat_power)
  have "\<bar>real (unat (fixed_power_loop x f n (push_bit f 1))) - 2 ^ f * (1 * (real (unat x) / 2 ^ f) ^ unat n)\<bar>
      \<le> 0 + real (unat n) * (0 + 1 / 2)"
    by (rule fixed_power_loop_error [OF assms(1,2) False assms(3)]) (use x one in simp_all)
  then show ?thesis using False fixed_power_steps_loop [OF False, of k x f "push_bit f 1"] by (simp add: fixed_power_int_def)
qed

theorem fixed_power_int_power_witness:
  "\<bar>real (unat (fixed_power_int 1884 11 2)) - 2 ^ 11 * (1884 / 2 ^ 11) ^ 2\<bar> \<le> 1 \<and>
   fixed_power_steps 2 1884 11 2 (push_bit 11 1) = Some (fixed_power_int 1884 11 2)"
proof -
  have two: "floorlog 2 2 = 2" by (simp add: floorlog_half numeral_2_eq_2 floorlog_def)
  show ?thesis using fixed_power_int_power [of 11 1884 2 2] by (simp add: two)
qed

section \<open>Samples of the load average\<close>

lemma weighted_between:
  fixes l a e F :: nat
  assumes "e \<le> F" "0 < F"
  shows "min l a \<le> (l * e + a * (F - e) + F div 2) div F" "(l * e + a * (F - e) + F div 2) div F \<le> max l a"
proof -
  have F: "x * e + x * (F - e) = x * F" for x using assms(1) by (simp add: distrib_left [symmetric])
  have "min l a * F \<le> l * e + a * (F - e)"
    unfolding F [symmetric] by (intro add_mono mult_right_mono) auto
  then have "min l a * F \<le> l * e + a * (F - e) + F div 2" by simp
  then show "min l a \<le> (l * e + a * (F - e) + F div 2) div F"
    using assms(2) by (simp only: less_eq_div_iff_mult_less_eq)
  have "l * e + a * (F - e) \<le> max l a * F"
    unfolding F [symmetric] by (intro add_mono mult_right_mono) auto
  moreover have "F div 2 < F" using assms(2) by simp
  ultimately have "l * e + a * (F - e) + F div 2 < Suc (max l a) * F" unfolding mult_Suc by linarith
  then show "(l * e + a * (F - e) + F div 2) div F \<le> max l a"
    by (metis less_mult_imp_div_less less_Suc_eq_le)
qed

lemma calc_load_unat:
  assumes "unat ex \<le> 2048" "unat ld < 2 ^ 20" "unat active < 2 ^ 20"
  shows "unat (calc_load ld ex active) =
    (unat ld * unat ex + unat active * (2048 - unat ex) + 2048 div 2) div 2048"
proof -
  have F: "FIXED_1 = 2048" by (simp add: load_consts)
  have c: "unat (FIXED_1 - ex) = 2048 - unat ex"
    unfolding F using assms(1) by (subst unat_sub) (simp_all add: word_le_nat_alt)
  have b: "unat ld * unat ex \<le> 2 ^ 20 * 2048" "unat active * (2048 - unat ex) \<le> 2 ^ 20 * 2048"
    using assms by (intro mult_le_mono; simp)+
  have m: "unat (ld * ex) = unat ld * unat ex" "unat (active * (FIXED_1 - ex)) = unat active * (2048 - unat ex)"
    using b c by (simp_all add: unat_mult_lem [THEN iffD1])
  have b': "unat ld * unat ex + unat active * (2048 - unat ex) \<le> 2 ^ 20 * 2048"
  proof -
    have "unat ld * unat ex + unat active * (2048 - unat ex) \<le> 2 ^ 20 * unat ex + 2 ^ 20 * (2048 - unat ex)"
      using assms by (intro add_mono mult_le_mono) auto
    also have "\<dots> = 2 ^ 20 * 2048" using assms(1) by simp
    finally show ?thesis .
  qed
  have a: "unat (ld * ex + active * (FIXED_1 - ex)) = unat ld * unat ex + unat active * (2048 - unat ex)"
    using b' m by (subst unat_add_lem [THEN iffD1]) simp_all
  have "unat (ld * ex + active * (FIXED_1 - ex) + 1024) = unat ld * unat ex + unat active * (2048 - unat ex) + 1024"
    using b' a by (subst unat_add_lem [THEN iffD1]) simp_all
  moreover have "unat (drop_bit 11 w) = unat w div 2048" for w :: ulong
    using unat_shift_right [of 11 w] by simp
  ultimately show ?thesis by (simp add: calc_load_def FSHIFT_def Let_def)
qed

text \<open>A sample of the load average lies between the old average and the current load, whatever the
  decay factor: the average never overshoots and a steady load is a fixed point.\<close>

theorem calc_load_between:
  assumes "unat ex \<le> unat FIXED_1" and "unat ld < 2 ^ 20" and "unat active < 2 ^ 20"
  shows "min ld active \<le> calc_load ld ex active \<and> calc_load ld ex active \<le> max ld active"
proof -
  have e: "unat ex \<le> 2048" using assms(1) by (simp add: load_consts)
  show ?thesis
    using weighted_between [OF e, of "unat ld" "unat active"] calc_load_unat [OF e assms(2,3)]
    by (simp add: word_le_nat_alt min_def max_def split: if_splits)
qed

theorem calc_load_between_witness:
  "(0::ulong) \<le> calc_load 0 EXP_1 4096 \<and> calc_load 0 EXP_1 4096 \<le> 4096 \<and> calc_load 4096 EXP_15 4096 = 4096"
  using calc_load_between [of EXP_1 0 4096] calc_load_between [of EXP_15 4096 4096] by (simp add: load_consts order.antisym)

section \<open>Load of the CPU\<close>

lemma degrade_factor_le: "\<lbrakk>idx < 5; j < 8\<rbrakk> \<Longrightarrow> unat (degrade_factor ! idx ! j) \<le> 128"
proof -
  assume "idx < 5" "j < 8"
  then have "idx \<in> {0, 1, 2, 3, 4}" "j \<in> {0, 1, 2, 3, 4, 5, 6, 7}" by auto
  then show ?thesis by (auto simp: degrade_factor_def)
qed

lemma scale_le:
  assumes "unat a < 2 ^ 25" "unat k \<le> 128"
  shows "drop_bit DEGRADE_SHIFT (a * k) \<le> (a :: ulong)"
proof -
  have ak: "unat a * unat k \<le> unat a * 128" using assms(2) by simp
  moreover have "unat (a * k) = unat a * unat k"
    using le_less_trans [OF ak, of "2 ^ 32"] assms(1) by (intro unat_mult_lem [THEN iffD1]) simp
  ultimately have "unat (a * k) div 128 \<le> unat a * 128 div 128" by (simp only: div_le_mono)
  then have "unat (a * k) div 128 \<le> unat a" by simp
  moreover have "unat (drop_bit 7 w) = unat w div 128" for w :: ulong
    using unat_shift_right [of 7 w] by simp
  ultimately show ?thesis by (simp add: DEGRADE_SHIFT_def word_le_nat_alt)
qed

lemma decay_loop_le:
  "\<lbrakk>idx < 5; j \<le> 8; unat missed < 2 ^ (8 - j); unat ld < 2 ^ 25\<rbrakk> \<Longrightarrow>
   \<exists>r. decay_loop ld missed idx j = Some r \<and> r \<le> ld"
proof (induction ld missed idx j rule: decay_loop.induct)
  case (1 ld missed idx j)
  show ?case
  proof (cases "missed = 0")
    case True
    then show ?thesis by (subst decay_loop.simps) simp
  next
    case False
    then have j: "j < 8" using "1.prems"(2,3) by (cases "j = 8") (auto simp: unat_eq_zero)
    then have p: "2 ^ (8 - j) = (2 * 2 ^ (8 - Suc j) :: nat)"
      by (metis Suc_diff_Suc power_Suc)
    have m: "unat (drop_bit 1 missed) < 2 ^ (8 - Suc j)"
      using "1.prems"(3) unat_half [of missed] unfolding p by simp
    let ?ld = "drop_bit DEGRADE_SHIFT (ld * degrade_factor ! idx ! j)"
    have le: "?ld \<le> ld" by (rule scale_le [OF "1.prems"(4) degrade_factor_le [OF "1.prems"(1) j]])
    show ?thesis
    proof (cases "missed mod 2 = 0")
      case True
      then show ?thesis
        using "1.IH"(1) [OF False True "1.prems"(1) _ m "1.prems"(4)] False j by (subst decay_loop.simps) simp
    next
      case odd: False
      have g: "idx < CPU_LOAD_IDX_MAX \<and> j < DEGRADE_SHIFT + 1"
        using "1.prems"(1) j by (simp add: CPU_LOAD_IDX_MAX_def DEGRADE_SHIFT_def)
      have "unat ?ld < 2 ^ 25" using le "1.prems"(4) by (simp add: word_le_nat_alt)
      from "1.IH"(2) [OF False odd g "1.prems"(1) _ m this] j obtain r
        where "decay_loop ?ld (drop_bit 1 missed) idx (Suc j) = Some r" "r \<le> ?ld" by auto
      then show ?thesis using False odd g le by (subst decay_loop.simps) (auto intro: order_trans)
    qed
  qed
qed

lemma decay_load_missed_le:
  assumes "0 < idx" "idx < 5" "unat ld < 2 ^ 25"
  shows "\<exists>r. decay_load_missed ld missed idx = Some r \<and> r \<le> ld"
proof -
  have z: "unat (degrade_zero_ticks ! idx) \<le> 128"
  proof -
    have "idx \<in> {1, 2, 3, 4}" using assms(1,2) by auto
    then show ?thesis by (auto simp: degrade_zero_ticks_def)
  qed
  have d: "drop_bit k ld \<le> ld" for k
    by (simp add: word_le_nat_alt unat_drop_bit_eq) (simp add: drop_bit_eq_div)
  have "unat missed < 2 ^ (8 - 0)" if "\<not> degrade_zero_ticks ! idx \<le> missed"
    using that z by (simp add: word_le_nat_alt)
  then show ?thesis
    using decay_loop_le [OF assms(2), of 0 missed ld] assms(3) d by (auto simp: decay_load_missed_def)
qed

lemma average_le:
  fixes a b :: ulong
  assumes "i \<le> 4" "unat a < 2 ^ 25" "unat b < 2 ^ 25"
  shows "drop_bit i (a * (push_bit i 1 - 1) + (if b > a then b + (push_bit i 1 - 1) else b)) \<le> max a b"
proof -
  let ?s = "2 ^ i :: nat"
  have s: "1 \<le> ?s" "?s \<le> 16" using power_increasing [OF assms(1), of "2 :: nat"] by auto
  have p: "unat (push_bit i 1 - 1 :: ulong) = ?s - 1"
    using s unat_push_one [of i] assms(1) by (subst unat_sub) (simp_all add: word_le_nat_alt)
  have m: "unat a * (?s - 1) \<le> 2 ^ 25 * 15" using s assms(2) by (intro mult_le_mono) auto
  have ua: "unat (a * (push_bit i 1 - 1)) = unat a * (?s - 1)"
    using m p by (subst unat_mult_lem [THEN iffD1]) simp_all
  have ub: "unat (b + (push_bit i 1 - 1)) = unat b + (?s - 1)"
    using assms(3) s p by (subst unat_add_lem [THEN iffD1]) simp_all
  have sum: "unat (a * (push_bit i 1 - 1) + c) = unat a * (?s - 1) + unat c" if "unat c < 2 ^ 26" for c
    using that m ua by (subst unat_add_lem [THEN iffD1]) simp_all
  have sc: "x * (?s - 1) + x = x * ?s" for x using s(1) by (metis Suc_diff_1 add.commute less_le_trans mult_Suc_right zero_less_one)
  show ?thesis
  proof (cases "b > a")
    case True
    have "unat a * (?s - 1) + (unat b + (?s - 1)) < Suc (unat b) * ?s"
    proof -
      have "unat a * (?s - 1) \<le> unat b * (?s - 1)" using True by (intro mult_le_mono1) (simp add: word_less_nat_alt)
      then show ?thesis using sc [of "unat b"] s(1) unfolding mult_Suc by linarith
    qed
    then have "(unat a * (?s - 1) + (unat b + (?s - 1))) div ?s \<le> unat b"
      by (metis less_mult_imp_div_less less_Suc_eq_le)
    moreover have "unat (b + (push_bit i 1 - 1)) < 2 ^ 26" using ub s assms(3) by simp
    ultimately show ?thesis
      using True sum ub by (simp add: word_le_nat_alt unat_shift_right max_def)
  next
    case False
    then have "unat b \<le> unat a" by (simp add: word_less_nat_alt)
    then have "unat a * (?s - 1) + unat b \<le> unat a * ?s" using sc [of "unat a"] by linarith
    then have "(unat a * (?s - 1) + unat b) div ?s \<le> unat a"
      by (metis div_le_mono nonzero_mult_div_cancel_right power_not_zero zero_neq_numeral)
    then show ?thesis
      using False sum [of b] assms(3) by (simp add: word_le_nat_alt unat_shift_right max_def)
  qed
qed

lemma cpu_load_step_le:
  assumes "0 < i" "i < 5" "unat this < 2 ^ 25" "unat old < 2 ^ 25"
  shows "\<exists>v. cpu_load_step i this pending old = Some v \<and> v \<le> max this old"
proof -
  obtain r where r: "decay_load_missed old (pending - 1) i = Some r" "r \<le> old"
    using decay_load_missed_le [OF assms(1,2,4)] by blast
  have "unat r < 2 ^ 25" using r(2) assms(4) by (simp add: word_le_nat_alt)
  from average_le [OF _ this assms(3), of i] assms(2) r show ?thesis
    by (auto simp: cpu_load_step_def Let_def max_def intro: order_trans split: if_splits)
qed

text \<open>Whatever number of ticks was missed, \<open>update_cpu_load\<close> reads its degradation table in range and
  leaves in each slot at most the larger of the slot's old value and the current load, for loads
  below \<open>2 ^ 25\<close>, where no product wraps.\<close>

theorem update_cpu_load_bounds:
  assumes "unat this < 2 ^ 25" and "\<forall>i < 5. unat (cpu_load l i) < 2 ^ 25"
  shows "\<exists>l'. update_cpu_load this l = Some l' \<and> (\<forall>i < 5. cpu_load l' i \<le> max this (cpu_load l i))"
proof -
  let ?f = "\<lambda>pending i acc. case acc of None \<Rightarrow> None
    | Some st \<Rightarrow> map_option (\<lambda>v. st\<lparr>cpu_load := (cpu_load st)(i := v)\<rparr>) (cpu_load_step i this pending (cpu_load st i))"
  have step: "\<exists>l'. fold (?f pending) ks (Some st) = Some l' \<and> (\<forall>i < 5. cpu_load l' i \<le> max this (cpu_load l i))"
    if "\<forall>i \<in> set ks. 0 < i \<and> i < 5" "\<forall>i < 5. cpu_load st i \<le> max this (cpu_load l i)" for ks pending st
    using that
  proof (induction ks arbitrary: st)
    case (Cons i ks)
    have "unat (cpu_load st i) < 2 ^ 25"
      using Cons.prems assms by (auto simp: word_le_nat_alt max_def split: if_splits) (meson le_less_trans)+
    from cpu_load_step_le [OF _ _ assms(1) this, where i = i and pending = pending] obtain v
      where v: "cpu_load_step i this pending (cpu_load st i) = Some v" "v \<le> max this (cpu_load st i)"
      using Cons.prems(1) by auto
    have "max this (cpu_load st i) \<le> max this (cpu_load l i)" using Cons.prems by simp
    with v(2) have "v \<le> max this (cpu_load l i)" by (rule order_trans)
    then have "\<forall>k < 5. cpu_load (st\<lparr>cpu_load := (cpu_load st)(i := v)\<rparr>) k \<le> max this (cpu_load l k)"
      using Cons.prems(2) by simp
    from Cons.IH [OF _ this] Cons.prems(1) v(1) show ?case by simp
  qed simp
  have "\<forall>i \<in> set [1..<CPU_LOAD_IDX_MAX]. 0 < i \<and> i < 5" by (simp add: CPU_LOAD_IDX_MAX_def)
  note all = step [OF this, of "l\<lparr>nr_load_updates := nr_load_updates l + 1, last_load_update_tick := jiffies l,
    cpu_load := (cpu_load l)(0 := this)\<rparr>" "jiffies l - last_load_update_tick l"]
  show ?thesis
  proof (cases "jiffies l = last_load_update_tick l")
    case True
    then show ?thesis by (simp add: update_cpu_load_def Let_def)
  next
    case False
    have "update_cpu_load this l = fold (?f (jiffies l - last_load_update_tick l)) [1..<CPU_LOAD_IDX_MAX]
        (Some (l\<lparr>nr_load_updates := nr_load_updates l + 1, last_load_update_tick := jiffies l,
          cpu_load := (cpu_load l)(0 := this)\<rparr>))"
      using False by (simp add: update_cpu_load_def Let_def)
    then show ?thesis using all by simp
  qed
qed

definition load0 :: load_avg where
  "load0 = \<lparr>jiffies = 7, calc_load_tasks = 0, calc_load_update = 0, avenrun = (\<lambda>_. 0), calc_load_idle = (\<lambda>_. 0),
     calc_load_idx = 0, calc_load_active = 0, rq_load_update = 0, cpu_load = (\<lambda>_. 1024), nr_load_updates = 0,
     last_load_update_tick = 0\<rparr>"

theorem update_cpu_load_bounds_witness:
  "\<exists>l'. update_cpu_load 512 load0 = Some l' \<and> (\<forall>i < 5. cpu_load l' i \<le> 1024)"
  using update_cpu_load_bounds [of 512 load0] by (simp add: load0_def)

section \<open>No active task is lost\<close>

text \<open>The deltas folded so far, in the global counter and in the two idle counters.\<close>

definition load_counted :: "load_avg \<Rightarrow> ulong" where
  "load_counted l = calc_load_tasks l + calc_load_idle l 0 + calc_load_idle l 1"

inductive load_step :: "int \<Rightarrow> load_avg \<Rightarrow> load_avg \<Rightarrow> bool" for hz where
  tick: "load_step hz l (l\<lparr>jiffies := jiffies l + n\<rparr>)"
| enter_idle: "load_step hz l (calc_load_enter_idle running uninterruptible l)"
| exit_idle: "load_step hz l (calc_load_exit_idle hz l)"
| global_load: "load_step hz l (calc_global_load hz l)"
| account: "update_cpu_load_active hz this running uninterruptible l = Some l' \<Longrightarrow> load_step hz l l'"

inductive load_reachable :: "int \<Rightarrow> load_avg \<Rightarrow> bool" for hz where
  init: "\<lbrakk>calc_load_tasks l = 0; calc_load_idle l = (\<lambda>_. 0); calc_load_active l = 0\<rbrakk> \<Longrightarrow> load_reachable hz l"
| step: "\<lbrakk>load_reachable hz l; load_step hz l l'\<rbrakk> \<Longrightarrow> load_reachable hz l'"

lemma idx_cases: "unat (w AND 1 :: u32) = 0 \<or> unat (w AND 1) = 1"
  by (simp add: and_one_eq mod_2_eq_odd)

lemma fold_active_counted:
  "calc_load_fold_active running uninterruptible l = (delta, l1) \<Longrightarrow>
   load_counted l = calc_load_active l \<Longrightarrow> load_counted l1 + delta = calc_load_active l1"
  by (auto simp: calc_load_fold_active_def load_counted_def Let_def split: if_splits)

lemma update_cpu_load_frame:
  assumes "update_cpu_load this l = Some l'"
  shows "load_counted l' = load_counted l" "calc_load_active l' = calc_load_active l"
proof -
  have "load_counted l' = load_counted l \<and> calc_load_active l' = calc_load_active l"
    if "fold (\<lambda>i acc. case acc of None \<Rightarrow> None
      | Some st \<Rightarrow> map_option (\<lambda>v. st\<lparr>cpu_load := (cpu_load st)(i := v)\<rparr>) (cpu_load_step i this p (cpu_load st i)))
        ks a = Some l'" "\<And>st. a = Some st \<Longrightarrow> load_counted st = load_counted l \<and> calc_load_active st = calc_load_active l"
    for p ks a
    using that
  proof (induction ks arbitrary: a)
    case (Cons k ks)
    show ?case
      by (rule Cons.IH [OF Cons.prems(1) [simplified]])
        (use Cons.prems(2) in \<open>auto simp: load_counted_def split: option.splits\<close>)
  qed auto
  from this [of _ "[1..<CPU_LOAD_IDX_MAX]" "Some (l\<lparr>nr_load_updates := nr_load_updates l + 1, last_load_update_tick := jiffies l,
      cpu_load := (cpu_load l)(0 := this)\<rparr>)"] assms
  show "load_counted l' = load_counted l" "calc_load_active l' = calc_load_active l"
    by (auto simp: update_cpu_load_def Let_def load_counted_def split: if_splits)
qed

lemma fold_idle_counted:
  assumes "calc_load_fold_idle l = (d, l1)"
  shows "load_counted l1 + d = load_counted l" "calc_load_active l1 = calc_load_active l"
proof -
  have "load_counted (l\<lparr>calc_load_idle := (calc_load_idle l)(i := 0)\<rparr>) + calc_load_idle l i = load_counted l"
    if "i = 0 \<or> i = 1" for i
    using that by (elim disjE) (simp_all add: load_counted_def)
  moreover have "calc_load_read_idx l = 0 \<or> calc_load_read_idx l = 1"
    by (simp only: calc_load_read_idx_def idx_cases)
  ultimately show "load_counted l1 + d = load_counted l" "calc_load_active l1 = calc_load_active l"
    using assms by (auto simp: calc_load_fold_idle_def Let_def split: if_splits)
qed

lemma nohz_counted:
  "load_counted (calc_global_nohz hz l) = load_counted l"
  "calc_load_active (calc_global_nohz hz l) = calc_load_active l"
  by (simp_all add: calc_global_nohz_def load_counted_def Let_def)

lemma load_step_counted:
  "\<lbrakk>load_step hz l l'; load_counted l = calc_load_active l\<rbrakk> \<Longrightarrow> load_counted l' = calc_load_active l'"
proof (induction rule: load_step.induct)
  case (enter_idle l running uninterruptible)
  obtain d l1 where f: "calc_load_fold_active running uninterruptible l = (d, l1)" by fastforce
  have "calc_load_write_idx l1 = 0 \<or> calc_load_write_idx l1 = 1"
    by (simp only: calc_load_write_idx_def Let_def idx_cases)
  moreover note H = fold_active_counted [OF f enter_idle, symmetric]
  have "load_counted (l1\<lparr>calc_load_idle := (calc_load_idle l1)(i := calc_load_idle l1 i + d)\<rparr>) = load_counted l1 + d"
    if "i = 0 \<or> i = 1" for i
    using that by (elim disjE) (simp_all add: load_counted_def)
  ultimately show ?case
    using H by (simp add: calc_load_enter_idle_def f Let_def)
next
  case (exit_idle l)
  then show ?case by (simp add: calc_load_exit_idle_def load_counted_def Let_def)
next
  case (global_load l)
  obtain d l1 where f: "calc_load_fold_idle l = (d, l1)" by fastforce
  have c: "load_counted (l1\<lparr>calc_load_tasks := calc_load_tasks l1 + d\<rparr>) = load_counted l1 + d"
    by (simp add: load_counted_def)
  have w: "load_counted (l2\<lparr>avenrun := a, calc_load_update := b\<rparr>) = load_counted l2" for l2 a b
    by (simp add: load_counted_def)
  show ?case
    using global_load fold_idle_counted [OF f] c
    by (cases "d = 0") (simp_all add: calc_global_load_def f Let_def nohz_counted w)
next
  case (account this running uninterruptible l l')
  then obtain l1 where l1: "update_cpu_load this l = Some l1"
    "l' = calc_load_account_active hz running uninterruptible l1" by (auto simp: update_cpu_load_active_def)
  obtain d l2 where f: "calc_load_fold_active running uninterruptible l1 = (d, l2)" by fastforce
  have "load_counted l1 = calc_load_active l1" using update_cpu_load_frame [OF l1(1)] account.prems by simp
  from fold_active_counted [OF f this] this show ?case
    by (auto simp: l1(2) calc_load_account_active_def f load_counted_def Let_def ac_simps)
qed (simp add: load_counted_def)

text \<open>C29: in every state that ticks, idle periods and samples reach, the global task counter plus the two
  idle counters is exactly the number of active tasks the CPU has reported: no delta is lost or
  folded twice, in whichever window it falls and however far the clock wraps.\<close>

theorem load_accounting:
  assumes "load_reachable hz l"
  shows "load_counted l = calc_load_active l"
  using assms
proof (induction rule: load_reachable.induct)
  case (init l)
  then show ?case by (simp add: load_counted_def)
qed (rule load_step_counted)

theorem load_accounting_witness:
  "load_counted (calc_load_enter_idle 3 1 load0) = 4"
proof -
  have "load_reachable 100 (calc_load_enter_idle 3 1 load0)"
    by (rule load_reachable.step [OF load_reachable.init load_step.enter_idle]) (simp_all add: load0_def)
  from load_accounting [OF this] show ?thesis
    by (simp add: calc_load_enter_idle_def calc_load_fold_active_def load0_def Let_def)
qed

end
