(* ===== verification/Core_Switch.thy ===== *)
theory Core_Switch
  imports Core_Prio
begin

text \<open>
  Switching address spaces, \<open>kernel/sched/core.c\<close>: \<open>context_switch\<close>, \<open>finish_task_switch\<close> and
  \<open>schedule_tail\<close>, with the reference counts they keep (\<open>include/linux/sched.h\<close>). A kernel thread has no address
  space of its own and runs on the one it finds active, on a reference it borrows; the reference is given back after the
  next switch. The hooks of the architecture, the page table switch and the freeing of an address space or a task are
  outside the repository and recorded as events.
\<close>

section \<open>State\<close>

type_synonym mm = nat

datatype switch_event =
    Switch_mm "mm option" mm task
  | Enter_lazy_tlb mm task
  | Mmdrop_frees mm
  | Kprobe_flush_task task
  | Put_task_frees task
  | Put_child_tid nat pid_t

text \<open>
  \<open>mm_of\<close> and \<open>active_mm\<close> are the two pointers of a task, \<open>usage\<close> its reference count; \<open>prev_mm\<close> is the
  field of the run queue. \<open>first_run p\<close> says that \<open>p\<close> has not run yet, so that the first switch to it enters
  \<open>schedule_tail\<close> and not the end of its own call of \<open>context_switch\<close>.
\<close>

record mm_state =
  mm_of :: "task \<Rightarrow> mm option"
  active_mm :: "task \<Rightarrow> mm option"
  mm_count :: "mm \<Rightarrow> u32"
  prev_mm :: "mm option"
  usage :: "task \<Rightarrow> u32"
  set_child_tid :: "task \<Rightarrow> nat option"
  first_run :: "task \<Rightarrow> bool"
  switch_events :: "switch_event list"

definition switch_emit :: "switch_event \<Rightarrow> mm_state \<Rightarrow> mm_state" where
  "switch_emit e m = m\<lparr>switch_events := switch_events m @ [e]\<rparr>"

definition mm_count_inc :: "mm \<Rightarrow> mm_state \<Rightarrow> mm_state" where
  "mm_count_inc x m = m\<lparr>mm_count := (mm_count m)(x := mm_count m x + 1)\<rparr>"

section \<open>References\<close>

definition mmdrop :: "mm \<Rightarrow> mm_state \<Rightarrow> mm_state" where
  "mmdrop x m =
     (let m1 = m\<lparr>mm_count := (mm_count m)(x := mm_count m x - 1)\<rparr>
      in if mm_count m1 x = 0 then switch_emit (Mmdrop_frees x) m1 else m1)"

definition get_task_struct :: "task \<Rightarrow> mm_state \<Rightarrow> mm_state" where
  "get_task_struct p m = m\<lparr>usage := (usage m)(p := usage m p + 1)\<rparr>"

definition put_task_struct :: "task \<Rightarrow> mm_state \<Rightarrow> mm_state" where
  "put_task_struct p m =
     (let m1 = m\<lparr>usage := (usage m)(p := usage m p - 1)\<rparr>
      in if usage m1 p = 0 then switch_emit (Put_task_frees p) m1 else m1)"

section \<open>The switch\<close>

text \<open>
  \<open>context_switch\<close> up to \<open>switch_to\<close>, on the stack of \<open>prev\<close>. \<open>None\<close> is the access through the null
  pointer when a kernel thread follows a task without an active address space.
\<close>

definition context_switch_mm :: "task \<Rightarrow> task \<Rightarrow> mm_state \<Rightarrow> mm_state option" where
  "context_switch_mm prev nxt m =
     (let oldmm = active_mm m prev;
          r = (case mm_of m nxt of
                 None \<Rightarrow>
                   (case oldmm of
                      None \<Rightarrow> None
                    | Some old \<Rightarrow>
                        Some (switch_emit (Enter_lazy_tlb old nxt)
                               (mm_count_inc old (m\<lparr>active_mm := (active_mm m)(nxt := oldmm)\<rparr>))))
               | Some x \<Rightarrow>
                   Some (switch_emit (Switch_mm oldmm x nxt) m))
      in map_option (\<lambda>m1. if mm_of m1 prev = None
                         then m1\<lparr>active_mm := (active_mm m1)(prev := None), prev_mm := oldmm\<rparr> else m1) r)"

text \<open>The rest runs on the stack of the next task; \<open>prev_state\<close> is the state \<open>prev\<close> was left in.\<close>

definition finish_task_switch :: "u32 \<Rightarrow> task \<Rightarrow> mm_state \<Rightarrow> mm_state" where
  "finish_task_switch prev_state prev m =
     (let mm = prev_mm m;
          m1 = m\<lparr>prev_mm := None\<rparr>;
          m2 = (case mm of None \<Rightarrow> m1 | Some x \<Rightarrow> mmdrop x m1)
      in if prev_state = TASK_DEAD then put_task_struct prev (switch_emit (Kprobe_flush_task prev) m2) else m2)"

definition schedule_tail :: "pid_t \<Rightarrow> u32 \<Rightarrow> task \<Rightarrow> task \<Rightarrow> mm_state \<Rightarrow> mm_state" where
  "schedule_tail vnr prev_state prev current m =
     (let m1 = finish_task_switch prev_state prev m
      in case set_child_tid m1 current of None \<Rightarrow> m1 | Some addr \<Rightarrow> switch_emit (Put_child_tid addr vnr) m1)"

text \<open>The whole switch: \<open>switch_to\<close> continues the next task where it stopped, or at its start.\<close>

definition context_switch :: "(task \<Rightarrow> pid_t) \<Rightarrow> u32 \<Rightarrow> task \<Rightarrow> task \<Rightarrow> mm_state \<Rightarrow> mm_state option" where
  "context_switch vnr prev_state prev nxt m =
     map_option
       (\<lambda>m1. if first_run m1 nxt
             then schedule_tail (vnr nxt) prev_state prev nxt (m1\<lparr>first_run := (first_run m1)(nxt := False)\<rparr>)
             else finish_task_switch prev_state prev m1)
       (context_switch_mm prev nxt m)"

text \<open>
  The start: the first task runs on the address space of the kernel, \<open>init_mm\<close> (\<open>INIT_TASK\<close> in
  \<open>init_task.h\<close>), and \<open>sched_init\<close> takes the reference it borrows. \<open>m\<close> gives the counts before.
\<close>

definition INIT_TASK_mm :: "task \<Rightarrow> mm \<Rightarrow> mm_state \<Rightarrow> mm_state" where
  "INIT_TASK_mm p init_mm m =
     m\<lparr>usage := (usage m)(p := 2), mm_of := (mm_of m)(p := None), active_mm := (active_mm m)(p := Some init_mm)\<rparr>"

definition sched_init_mm :: "task \<Rightarrow> mm \<Rightarrow> mm_state \<Rightarrow> mm_state" where
  "sched_init_mm current init_mm m = switch_emit (Enter_lazy_tlb init_mm current) (mm_count_inc init_mm m)"

text \<open>One pass of \<open>__schedule\<close> with the switch at its end.\<close>

definition schedule_switch ::
    "kservices \<Rightarrow> (task \<Rightarrow> bool) \<Rightarrow> (task \<Rightarrow> pid_t) \<Rightarrow> sched_state \<times> mm_state \<Rightarrow> (sched_state \<times> mm_state) option" where
  "schedule_switch K act vnr sm =
     (case sm of (s, m) \<Rightarrow>
        Option.bind (schedule_once K act s)
          (\<lambda>s'. let prev = curr (rq s); nxt = curr (rq s')
                in if prev \<noteq> nxt then map_option (Pair s') (context_switch vnr (tstate (tasks s' prev)) prev nxt m)
                   else Some (s', m)))"

end
