(* ===== verification/Core_Switch_Proofs.thy ===== *)
theory Core_Switch_Proofs
  imports Core_Switch Core_Proofs
begin

text \<open>
  The address space a task runs on is alive: in every sequence of scheduling passes, however they interleave with other
  code that takes, drops, creates and gives up address spaces, the count of an address space is the number of references
  held outside the scheduler and the one the current task may borrow.
\<close>

section \<open>Counting references\<close>

definition freed :: "mm_state \<Rightarrow> mm list" where
  "freed m = concat (map (\<lambda>e. case e of Mmdrop_frees x \<Rightarrow> [x] | _ \<Rightarrow> []) (switch_events m))"

text \<open>The counts are \<open>f\<close>, and what was freed stays without references and is freed once.\<close>

definition counted :: "mm_state \<Rightarrow> (mm \<Rightarrow> nat) \<Rightarrow> bool" where
  "counted m f \<longleftrightarrow> (\<forall>x. unat (mm_count m x) = f x) \<and> (\<forall>x \<in> set (freed m). f x = 0) \<and> distinct (freed m)"

lemma switch_emit_fields [simp]:
  "mm_of (switch_emit e m) = mm_of m" "active_mm (switch_emit e m) = active_mm m" "prev_mm (switch_emit e m) = prev_mm m"
  "mm_count (switch_emit e m) = mm_count m" "usage (switch_emit e m) = usage m"
  "set_child_tid (switch_emit e m) = set_child_tid m" "first_run (switch_emit e m) = first_run m"
  by (simp_all add: switch_emit_def)

lemma mmdrop_fields [simp]:
  "mm_of (mmdrop x m) = mm_of m" "active_mm (mmdrop x m) = active_mm m" "prev_mm (mmdrop x m) = prev_mm m"
  "usage (mmdrop x m) = usage m" "set_child_tid (mmdrop x m) = set_child_tid m" "first_run (mmdrop x m) = first_run m"
  by (simp_all add: mmdrop_def Let_def)

lemma mm_count_inc_fields [simp]:
  "mm_of (mm_count_inc x m) = mm_of m" "active_mm (mm_count_inc x m) = active_mm m"
  "prev_mm (mm_count_inc x m) = prev_mm m" "usage (mm_count_inc x m) = usage m"
  "set_child_tid (mm_count_inc x m) = set_child_tid m" "first_run (mm_count_inc x m) = first_run m"
  by (simp_all add: mm_count_inc_def)

lemma put_task_struct_fields [simp]:
  "mm_of (put_task_struct p m) = mm_of m" "active_mm (put_task_struct p m) = active_mm m"
  "prev_mm (put_task_struct p m) = prev_mm m" "mm_count (put_task_struct p m) = mm_count m"
  "set_child_tid (put_task_struct p m) = set_child_tid m" "first_run (put_task_struct p m) = first_run m"
  by (simp_all add: put_task_struct_def Let_def)

lemma freed_simps [simp]:
  "freed (switch_emit (Switch_mm a b c) m) = freed m" "freed (switch_emit (Enter_lazy_tlb x p) m) = freed m"
  "freed (switch_emit (Kprobe_flush_task p) m) = freed m" "freed (switch_emit (Put_task_frees p) m) = freed m"
  "freed (switch_emit (Put_child_tid addr n) m) = freed m" "freed (switch_emit (Mmdrop_frees x) m) = freed m @ [x]"
  "freed (m\<lparr>mm_of := a1\<rparr>) = freed m" "freed (m\<lparr>active_mm := a2\<rparr>) = freed m" "freed (m\<lparr>prev_mm := a3\<rparr>) = freed m"
  "freed (m\<lparr>usage := a4\<rparr>) = freed m" "freed (m\<lparr>first_run := a5\<rparr>) = freed m" "freed (m\<lparr>mm_count := a6\<rparr>) = freed m"
  "freed (mm_count_inc x m) = freed m" "freed (put_task_struct p m) = freed m"
  by (simp_all add: freed_def switch_emit_def mm_count_inc_def put_task_struct_def Let_def)

lemma counted_simps [simp]:
  "counted (switch_emit (Switch_mm a b c) m) f = counted m f" "counted (switch_emit (Enter_lazy_tlb x p) m) f = counted m f"
  "counted (switch_emit (Kprobe_flush_task p) m) f = counted m f" "counted (switch_emit (Put_child_tid addr n) m) f = counted m f"
  "counted (m\<lparr>mm_of := a1\<rparr>) f = counted m f" "counted (m\<lparr>active_mm := a2\<rparr>) f = counted m f"
  "counted (m\<lparr>prev_mm := a3\<rparr>) f = counted m f" "counted (m\<lparr>first_run := a5\<rparr>) f = counted m f"
  "counted (m\<lparr>usage := a4\<rparr>) f = counted m f" "counted (put_task_struct p m) f = counted m f"
  by (simp_all add: counted_def)

lemma counted_inc:
  assumes "counted m f" "x \<notin> set (freed m)" "f x < 0xFFFFFFFF"
  shows "counted (mm_count_inc x m) (f(x := Suc (f x)))"
proof -
  have "unat (mm_count m x + 1) = Suc (f x)" using assms by (subst unat_inc) (simp_all add: counted_def)
  with assms show ?thesis by (auto simp: counted_def mm_count_inc_def)
qed

lemma counted_drop:
  assumes "counted m f" "0 < f x"
  shows "counted (mmdrop x m) (f(x := f x - 1))"
proof -
  let ?c = "mm_count m x - 1"
  have "mm_count m x \<noteq> 0" using assms by (metis counted_def unat_0 less_irrefl)
  then have u: "unat ?c = f x - 1" using assms(1) by (simp add: unat_dec counted_def)
  then have "?c = 0 \<longleftrightarrow> f x - 1 = 0" by (metis unat_eq_zero)
  with u assms show ?thesis by (auto simp: counted_def mmdrop_def Let_def switch_emit_def [of "Mmdrop_frees x"] freed_def)
qed

section \<open>One switch\<close>

text \<open>\<open>h x\<close> references to \<open>x\<close> are held outside; the current task \<open>c\<close> borrows one when it has no address space.\<close>

definition borrowed :: "task \<Rightarrow> mm_state \<Rightarrow> mm \<Rightarrow> nat" where
  "borrowed c m x = (if mm_of m c = None \<and> active_mm m c = Some x then 1 else 0)"

definition mm_inv :: "task \<Rightarrow> mm_state \<Rightarrow> (mm \<Rightarrow> nat) \<Rightarrow> bool" where
  "mm_inv c m h \<longleftrightarrow>
     counted m (\<lambda>x. h x + borrowed c m x) \<and> prev_mm m = None \<and> (\<forall>p. p \<noteq> c \<longrightarrow> active_mm m p = mm_of m p) \<and>
     active_mm m c \<noteq> None \<and> (\<forall>x. mm_of m c = Some x \<longrightarrow> active_mm m c = Some x) \<and>
     (\<forall>p x. mm_of m p = Some x \<longrightarrow> 0 < h x) \<and> (\<forall>x. h x \<le> 0x80000000)"

lemma finish_fields [simp]:
  "mm_of (finish_task_switch st p m) = mm_of m" "active_mm (finish_task_switch st p m) = active_mm m"
  "prev_mm (finish_task_switch st p m) = None" "set_child_tid (finish_task_switch st p m) = set_child_tid m"
  "first_run (finish_task_switch st p m) = first_run m"
  by (simp_all add: finish_task_switch_def Let_def split: option.split)

lemma counted_finish:
  assumes "counted m f" "\<And>x. prev_mm m = Some x \<Longrightarrow> 0 < f x"
  shows "counted (finish_task_switch st p m) (case prev_mm m of None \<Rightarrow> f | Some x \<Rightarrow> f(x := f x - 1))"
  using assms counted_drop [of "m\<lparr>prev_mm := None\<rparr>" f]
  by (simp add: finish_task_switch_def Let_def split: option.split)

lemma schedule_tail_fields [simp]:
  "mm_of (schedule_tail n st p c m) = mm_of m" "active_mm (schedule_tail n st p c m) = active_mm m"
  "prev_mm (schedule_tail n st p c m) = None"
  "counted (schedule_tail n st p c m) f = counted (finish_task_switch st p m) f"
  by (simp_all add: schedule_tail_def Let_def split: option.split)

text \<open>Before \<open>switch_to\<close>: the next task has an active address space and the reference to give back is counted.\<close>

lemma context_switch_mm_inv:
  assumes inv: "mm_inv c m h" and n: "n \<noteq> c"
  obtains m' where "context_switch_mm c n m = Some m'"
    "counted m' (\<lambda>x. h x + (if mm_of m n = None \<and> active_mm m c = Some x then 1 else 0) +
       (if mm_of m c = None \<and> active_mm m c = Some x then 1 else 0))"
    "prev_mm m' = (if mm_of m c = None then active_mm m c else None)" "mm_of m' = mm_of m"
    "active_mm m' = (active_mm m)(n := (if mm_of m n = None then active_mm m c else mm_of m n),
       c := mm_of m c)"
proof -
  obtain o1 where o1: "active_mm m c = Some o1" using inv by (auto simp: mm_inv_def)
  define f where "f = (\<lambda>x. h x + borrowed c m x)"
  have cf: "counted m f" and pm: "prev_mm m = None" using inv by (simp_all add: mm_inv_def f_def)
  have pos: "0 < f o1" using inv o1 by (cases "mm_of m c") (auto simp: mm_inv_def f_def borrowed_def)
  have "h o1 \<le> 0x80000000" using inv by (simp add: mm_inv_def)
  then have lt: "f o1 < 0xFFFFFFFF" by (simp add: f_def borrowed_def)
  have nf: "o1 \<notin> set (freed m)" using cf pos by (auto simp: counted_def)
  let ?g = "\<lambda>x. h x + (if mm_of m n = None \<and> active_mm m c = Some x then 1 else 0) +
       (if mm_of m c = None \<and> active_mm m c = Some x then (1::nat) else 0)"
  define act where "act = (active_mm m)(n := (if mm_of m n = None then active_mm m c else mm_of m n))"
  have "\<exists>m1. context_switch_mm c n m = Some (if mm_of m1 c = None
      then m1\<lparr>active_mm := (active_mm m1)(c := None), prev_mm := active_mm m c\<rparr> else m1) \<and>
    counted m1 ?g \<and> mm_of m1 = mm_of m \<and> prev_mm m1 = None \<and> active_mm m1 = act"
  proof (cases "mm_of m n")
    case None
    define m1 where "m1 = switch_emit (Enter_lazy_tlb o1 n) (mm_count_inc o1 (m\<lparr>active_mm := (active_mm m)(n := active_mm m c)\<rparr>))"
    have "counted m1 (f(o1 := Suc (f o1)))"
      using counted_inc [of "m\<lparr>active_mm := (active_mm m)(n := active_mm m c)\<rparr>" f o1] cf nf lt
      by (simp add: m1_def)
    moreover have "?g = f(o1 := Suc (f o1))"
      using None o1 by (auto simp: f_def borrowed_def fun_eq_iff)
    ultimately show ?thesis
      using None o1 pm by (intro exI [of _ m1]) (simp add: context_switch_mm_def m1_def Let_def act_def)
  next
    case (Some y)
    define m1 where "m1 = switch_emit (Switch_mm (active_mm m c) y n) m"
    have "counted m1 f" using cf by (simp add: m1_def)
    moreover have "?g = f" using Some by (simp add: f_def borrowed_def fun_eq_iff)
    moreover have "active_mm m = act" using inv n Some by (auto simp: mm_inv_def act_def)
    ultimately show ?thesis
      using Some pm by (intro exI [of _ m1]) (simp add: context_switch_mm_def m1_def Let_def)
  qed
  then obtain m1 where m1: "context_switch_mm c n m = Some (if mm_of m1 c = None
      then m1\<lparr>active_mm := (active_mm m1)(c := None), prev_mm := active_mm m c\<rparr> else m1)"
    "counted m1 ?g" "mm_of m1 = mm_of m" "prev_mm m1 = None" "active_mm m1 = act" by blast
  have "act(c := mm_of m c) = act" if "mm_of m c \<noteq> None"
    using that inv n by (auto simp: act_def mm_inv_def fun_eq_iff)
  with m1 show thesis
    using that [OF m1(1)] by (cases "mm_of m c") (simp_all add: act_def)
qed

text \<open>A switch moves the borrowed reference to the next task or gives it back.\<close>

lemma context_switch_inv:
  assumes inv: "mm_inv c m h" and n: "n \<noteq> c"
  obtains m' where "context_switch vnr st c n m = Some m'" "mm_inv n m' h" "mm_of m' = mm_of m"
proof -
  obtain m1 where m1: "context_switch_mm c n m = Some m1"
    "counted m1 (\<lambda>x. h x + (if mm_of m n = None \<and> active_mm m c = Some x then 1 else 0) +
       (if mm_of m c = None \<and> active_mm m c = Some x then 1 else 0))"
    "prev_mm m1 = (if mm_of m c = None then active_mm m c else None)" "mm_of m1 = mm_of m"
    "active_mm m1 = (active_mm m)(n := (if mm_of m n = None then active_mm m c else mm_of m n), c := mm_of m c)"
    by (rule context_switch_mm_inv [OF inv n])
  define f where "f = (\<lambda>x. h x + (if mm_of m n = None \<and> active_mm m c = Some x then 1 else 0) +
       (if mm_of m c = None \<and> active_mm m c = Some x then (1::nat) else 0))"
  define m1' where "m1' = (if first_run m1 n then m1\<lparr>first_run := (first_run m1)(n := False)\<rparr> else m1)"
  define m2 where "m2 = (if first_run m1 n then schedule_tail (vnr n) st c n m1' else finish_task_switch st c m1')"
  have m2: "context_switch vnr st c n m = Some m2" using m1(1) by (simp add: context_switch_def m2_def m1'_def)
  have f2: "mm_of m2 = mm_of m" "prev_mm m2 = None" "active_mm m2 = active_mm m1"
    using m1(4) by (simp_all add: m2_def m1'_def)
  have p1: "prev_mm m1' = prev_mm m1" by (simp add: m1'_def)
  have "counted m1' f" using m1(2) by (simp add: m1'_def f_def)
  moreover have "0 < f x" if "prev_mm m1' = Some x" for x
    using that by (simp add: p1 m1(3) f_def split: if_splits)
  ultimately have "counted (finish_task_switch st c m1') (case prev_mm m1' of None \<Rightarrow> f | Some x \<Rightarrow> f(x := f x - 1))"
    by (rule counted_finish)
  moreover have "(case prev_mm m1' of None \<Rightarrow> f | Some x \<Rightarrow> f(x := f x - 1)) = (\<lambda>x. h x + borrowed n m2 x)"
    using n inv by (auto simp: p1 m1(3,5) f2 f_def borrowed_def mm_inv_def fun_eq_iff split: option.split)
  moreover have "counted m2 g = counted (finish_task_switch st c m1') g" for g by (simp add: m2_def)
  ultimately have "counted m2 (\<lambda>x. h x + borrowed n m2 x)" by simp
  then have "mm_inv n m2 h"
    using inv n m1(5) f2 by (auto simp: mm_inv_def)
  with m2 f2 that show thesis by blast
qed

section \<open>Reachable states\<close>

text \<open>
  One transition of the kernel, with the references \<open>h\<close> held outside the scheduler. Beside the scheduling pass there is
  what the code outside the repository does by its documentation: it changes the scheduler state without switching; makes
  an address space; takes or drops a reference it holds (the last one only when no task has the address space); gives a
  task that is not running an address space, when it forks; and lets the current task give up its address space when it
  exits, handing over one of the references held.
\<close>

inductive mm_step ::
    "kservices \<Rightarrow> (task \<Rightarrow> pid_t) \<Rightarrow> sched_state \<times> mm_state \<times> (mm \<Rightarrow> nat) \<Rightarrow> sched_state \<times> mm_state \<times> (mm \<Rightarrow> nat) \<Rightarrow> bool"
  for K :: kservices and vnr :: "task \<Rightarrow> pid_t" where
  pass: "schedule_switch K act vnr (s, m) = Some (s', m') \<Longrightarrow> mm_step K vnr (s, m, h) (s', m', h)"
| other: "curr (rq s') = curr (rq s) \<Longrightarrow> mm_step K vnr (s, m, h) (s', m, h)"
| alloc: "\<lbrakk>mm_count m x = 0; x \<notin> set (freed m)\<rbrakk> \<Longrightarrow>
    mm_step K vnr (s, m, h) (s, m\<lparr>mm_count := (mm_count m)(x := 1)\<rparr>, h(x := 1))"
| get: "\<lbrakk>0 < mm_count m x; h x < 0x80000000\<rbrakk> \<Longrightarrow> mm_step K vnr (s, m, h) (s, mm_count_inc x m, h(x := h x + 1))"
| drop: "\<lbrakk>0 < h x; h x = 1 \<Longrightarrow> \<forall>p. mm_of m p \<noteq> Some x\<rbrakk> \<Longrightarrow> mm_step K vnr (s, m, h) (s, mmdrop x m, h(x := h x - 1))"
| fork: "\<lbrakk>p \<noteq> curr (rq s); \<And>x. mo = Some x \<Longrightarrow> 0 < h x\<rbrakk> \<Longrightarrow>
    mm_step K vnr (s, m, h)
      (s, m\<lparr>mm_of := (mm_of m)(p := mo), active_mm := (active_mm m)(p := mo), first_run := (first_run m)(p := True)\<rparr>, h)"
| exit: "\<lbrakk>p = curr (rq s); mm_of m p = Some x; 2 \<le> h x\<rbrakk> \<Longrightarrow>
    mm_step K vnr (s, m, h) (s, m\<lparr>mm_of := (mm_of m)(p := None)\<rparr>, h(x := h x - 1))"

inductive mm_reachable ::
    "kservices \<Rightarrow> (task \<Rightarrow> pid_t) \<Rightarrow> sched_state \<times> mm_state \<times> (mm \<Rightarrow> nat) \<Rightarrow> sched_state \<times> mm_state \<times> (mm \<Rightarrow> nat) \<Rightarrow> bool"
  for K :: kservices and vnr :: "task \<Rightarrow> pid_t" and c0 :: "sched_state \<times> mm_state \<times> (mm \<Rightarrow> nat)" where
  start: "mm_reachable K vnr c0 c0"
| step: "\<lbrakk>mm_reachable K vnr c0 c1; mm_step K vnr c1 c2\<rbrakk> \<Longrightarrow> mm_reachable K vnr c0 c2"

text \<open>Before the first task: no task has an address space and one reference to \<open>init_mm\<close> is held.\<close>

definition mm_boot :: "mm_state \<Rightarrow> mm \<Rightarrow> bool" where
  "mm_boot m init_mm \<longleftrightarrow> mm_of m = (\<lambda>_. None) \<and> active_mm m = (\<lambda>_. None) \<and> prev_mm m = None \<and> switch_events m = [] \<and>
     (\<forall>x. mm_count m x = (if x = init_mm then 1 else 0))"

lemma mm_inv_boot:
  assumes "mm_boot m i"
  shows "mm_inv c (sched_init_mm c i (INIT_TASK_mm c i m)) (\<lambda>x. if x = i then 1 else 0)"
  using assms
  by (auto simp: mm_boot_def sched_init_mm_def INIT_TASK_mm_def mm_inv_def borrowed_def counted_def mm_count_inc_def freed_def
      switch_emit_def)

lemma schedule_switch_inv:
  assumes "mm_inv (curr (rq s)) m h" "schedule_once K act s = Some s'"
  obtains m' where "schedule_switch K act vnr (s, m) = Some (s', m')" "mm_inv (curr (rq s')) m' h"
proof (cases "curr (rq s) = curr (rq s')")
  case True
  with assms that show thesis by (simp add: schedule_switch_def)
next
  case False
  with context_switch_inv [OF assms(1), of "curr (rq s')" vnr "tstate (tasks s' (curr (rq s)))"] assms(2) that
  show thesis by (auto simp: schedule_switch_def Let_def)
qed

lemma mm_inv_alloc:
  assumes "mm_inv c m h" "mm_count m x = 0" "x \<notin> set (freed m)"
  shows "mm_inv c (m\<lparr>mm_count := (mm_count m)(x := 1)\<rparr>) (h(x := 1))"
proof -
  let ?m = "m\<lparr>mm_count := (mm_count m)(x := 1)\<rparr>"
  have cf: "counted m (\<lambda>y. h y + borrowed c m y)" using assms(1) by (simp add: mm_inv_def)
  then have "unat (mm_count m x) = h x + borrowed c m x" unfolding counted_def by blast
  then have "h x + borrowed c m x = 0" using assms(2) by simp
  moreover have b: "borrowed c ?m = borrowed c m" by (simp add: borrowed_def fun_eq_iff)
  ultimately have "counted ?m (\<lambda>y. (h(x := 1)) y + borrowed c ?m y)"
    using cf assms(3) unfolding b by (auto simp: counted_def)
  with assms(1) show ?thesis by (simp add: mm_inv_def)
qed

lemma borrowed_cong [simp]:
  "borrowed c (mm_count_inc x m) = borrowed c m" "borrowed c (mmdrop x m) = borrowed c m"
  by (simp_all add: borrowed_def fun_eq_iff)

lemma mm_inv_get:
  assumes inv: "mm_inv c m h" and "0 < mm_count m x" "h x < 0x80000000"
  shows "mm_inv c (mm_count_inc x m) (h(x := h x + 1))"
proof -
  have cf: "counted m (\<lambda>y. h y + borrowed c m y)" using inv by (simp add: mm_inv_def)
  have "unat (mm_count m x) = h x + borrowed c m x" using cf unfolding counted_def by blast
  then have "0 < h x + borrowed c m x" using assms(2) by (metis unat_gt_0 word_gt_0)
  then have "x \<notin> set (freed m)" using cf by (auto simp: counted_def)
  moreover have "h x + borrowed c m x < 0xFFFFFFFF" using assms(3) by (simp add: borrowed_def)
  ultimately have "counted (mm_count_inc x m) ((\<lambda>y. h y + borrowed c m y)(x := Suc (h x + borrowed c m x)))"
    using cf by (intro counted_inc)
  moreover have "(\<lambda>y. h y + borrowed c m y)(x := Suc (h x + borrowed c m x)) = (\<lambda>y. (h(x := h x + 1)) y + borrowed c m y)"
    by (simp add: fun_eq_iff)
  ultimately show ?thesis using inv assms(3) by (simp add: mm_inv_def)
qed

lemma mm_inv_drop:
  assumes inv: "mm_inv c m h" and "0 < h x" "h x = 1 \<Longrightarrow> \<forall>p. mm_of m p \<noteq> Some x"
  shows "mm_inv c (mmdrop x m) (h(x := h x - 1))"
proof -
  have "counted (mmdrop x m) ((\<lambda>y. h y + borrowed c m y)(x := h x + borrowed c m x - 1))"
    using inv assms(2) by (intro counted_drop) (simp_all add: mm_inv_def)
  moreover have "(\<lambda>y. h y + borrowed c m y)(x := h x + borrowed c m x - 1) = (\<lambda>y. (h(x := h x - 1)) y + borrowed c m y)"
    using assms(2) by (simp add: fun_eq_iff)
  ultimately have "counted (mmdrop x m) (\<lambda>y. (h(x := h x - 1)) y + borrowed c m y)" by simp
  moreover have "0 < (h(x := h x - 1)) y" if "mm_of m p = Some y" for p y
    using that inv assms(2,3) by (cases "h x = 1") (auto simp: mm_inv_def)
  moreover have "(h(x := h x - 1)) y \<le> 0x80000000" for y
    using inv by (auto simp: mm_inv_def intro: le_trans [OF diff_le_self])
  ultimately show ?thesis using inv by (simp add: mm_inv_def)
qed

lemma mm_inv_fork:
  assumes "mm_inv c m h" "p \<noteq> c" "\<And>x. mo = Some x \<Longrightarrow> 0 < h x"
  shows "mm_inv c (m\<lparr>mm_of := (mm_of m)(p := mo), active_mm := (active_mm m)(p := mo), first_run := fr\<rparr>) h"
  using assms by (auto simp: mm_inv_def borrowed_def counted_def)

lemma mm_inv_exit:
  assumes inv: "mm_inv c m h" and x: "mm_of m c = Some x" and "2 \<le> h x"
  shows "mm_inv c (m\<lparr>mm_of := (mm_of m)(c := None)\<rparr>) (h(x := h x - 1))"
proof -
  let ?m = "m\<lparr>mm_of := (mm_of m)(c := None)\<rparr>"
  have a: "active_mm m c = Some x" using inv x by (simp add: mm_inv_def)
  have "(\<lambda>y. (h(x := h x - 1)) y + borrowed c ?m y) = (\<lambda>y. h y + borrowed c m y)"
    using x a assms(3) by (auto simp: borrowed_def fun_eq_iff)
  then have "counted ?m (\<lambda>y. (h(x := h x - 1)) y + borrowed c ?m y)" using inv by (simp add: mm_inv_def)
  moreover have "0 < (h(x := h x - 1)) y" if "mm_of ?m p = Some y" for p y
    using that inv assms(3) by (auto simp: mm_inv_def split: if_splits)
  moreover have "(h(x := h x - 1)) y \<le> 0x80000000" for y
    using inv by (auto simp: mm_inv_def intro: le_trans [OF diff_le_self])
  ultimately show ?thesis using inv a by (simp add: mm_inv_def)
qed

lemma mm_step_inv:
  assumes "mm_step K vnr (s, m, h) (s', m', h')" "mm_inv (curr (rq s)) m h"
  shows "mm_inv (curr (rq s')) m' h'"
  using assms(1)
proof cases
  case (pass act)
  then obtain t where "schedule_once K act s = Some t" by (auto simp: schedule_switch_def Option.bind_eq_Some_conv)
  with schedule_switch_inv [OF assms(2) this, of vnr] pass show ?thesis by auto
next
  case (fork p mo)
  with mm_inv_fork [OF assms(2)] show ?thesis by simp
qed (use assms(2) mm_inv_alloc mm_inv_get mm_inv_drop mm_inv_exit in \<open>auto\<close>)

lemma mm_reachable_inv:
  assumes "mm_reachable K vnr c0 c1" "mm_inv (curr (rq (fst c0))) (fst (snd c0)) (snd (snd c0))"
  shows "mm_inv (curr (rq (fst c1))) (fst (snd c1)) (snd (snd c1))"
  using assms
proof (induction rule: mm_reachable.induct)
  case (step c1 c2)
  then show ?case using mm_step_inv by (metis prod.collapse)
qed

text \<open>C23: In every state the kernel reaches from its start, whatever the order of scheduling passes, forks, exits and
  references taken and dropped elsewhere: the count of every address space is the number of references held outside the
  scheduler, and one more while the current task has none of its own and runs on it; the current task has an active
  address space that is not freed, even when the process that owned it has exited; no address space is freed twice or
  while a task has it; and no scheduling pass follows a null pointer in \<open>context_switch\<close>.\<close>

theorem active_mm_alive:
  assumes "mm_boot m0 i"
    and "mm_reachable K vnr (s0, sched_init_mm (curr (rq s0)) i (INIT_TASK_mm (curr (rq s0)) i m0), (\<lambda>x. if x = i then 1 else 0))
      (s, m, h)"
  shows "(\<forall>x. unat (mm_count m x) =
      h x + (if mm_of m (curr (rq s)) = None \<and> active_mm m (curr (rq s)) = Some x then 1 else 0)) \<and>
    (\<exists>x. active_mm m (curr (rq s)) = Some x \<and> x \<notin> set (freed m) \<and> mm_count m x \<noteq> 0) \<and>
    distinct (freed m) \<and> (\<forall>p x. mm_of m p = Some x \<longrightarrow> x \<notin> set (freed m)) \<and>
    (\<forall>act s'. schedule_once K act s = Some s' \<longrightarrow> (\<exists>m'. schedule_switch K act vnr (s, m) = Some (s', m')))"
proof -
  have inv: "mm_inv (curr (rq s)) m h"
    using mm_reachable_inv [OF assms(2)] mm_inv_boot [OF assms(1)] by simp
  then have c: "counted m (\<lambda>x. h x + borrowed (curr (rq s)) m x)" by (simp add: mm_inv_def)
  obtain x where x: "active_mm m (curr (rq s)) = Some x" using inv by (auto simp: mm_inv_def)
  have "0 < h x + borrowed (curr (rq s)) m x"
    using inv x by (cases "mm_of m (curr (rq s))") (auto simp: mm_inv_def borrowed_def)
  then have "x \<notin> set (freed m)" "mm_count m x \<noteq> 0" using c by (auto simp: counted_def) (metis add_is_0 not_gr0 unat_0)+
  moreover have "y \<notin> set (freed m)" if "mm_of m p = Some y" for p y
    using that inv c by (fastforce simp: mm_inv_def counted_def)
  moreover have "\<exists>m'. schedule_switch K act vnr (s, m) = Some (s', m')" if "schedule_once K act s = Some s'" for act s'
    using schedule_switch_inv [OF inv that] by blast
  ultimately show ?thesis using c x by (auto simp: counted_def borrowed_def)
qed

text \<open>The reference to a task for its use as the current one is dropped when the pass leaves it dead, and in no other pass.\<close>

lemma usage_simps [simp]:
  "usage (put_task_struct p m) = (usage m)(p := usage m p - 1)" "usage (m\<lparr>prev_mm := a\<rparr>) = usage m"
  by (simp_all add: put_task_struct_def Let_def)

lemma usage_finish:
  "usage (finish_task_switch st q m) = (if st = TASK_DEAD then (usage m)(q := usage m q - 1) else usage m)"
  by (simp add: finish_task_switch_def Let_def split: option.split)

lemma usage_tail:
  "usage (schedule_tail n st q c m) = usage (finish_task_switch st q m)"
  by (simp add: schedule_tail_def Let_def split: option.split)

lemma usage_context_switch:
  assumes "context_switch vnr st c n m = Some m'"
  shows "usage m' = (if st = TASK_DEAD then (usage m)(c := usage m c - 1) else usage m)"
proof -
  obtain m1 where m1: "context_switch_mm c n m = Some m1" "usage m' = usage (finish_task_switch st c m1)"
    using assms by (auto simp: context_switch_def usage_tail usage_finish split: if_splits)
  have "usage m1 = usage m"
    using m1(1) by (cases "mm_of m n"; cases "active_mm m c"; cases "mm_of m c")
      (auto simp: context_switch_mm_def Let_def)
  with m1(2) show ?thesis by (simp add: usage_finish)
qed

lemma dead_task_put:
  assumes "schedule_switch K act vnr (s, m) = Some (s', m')"
  shows "usage m' p = usage m p -
    (if p = curr (rq s) \<and> curr (rq s') \<noteq> curr (rq s) \<and> tstate (tasks s' p) = TASK_DEAD then 1 else 0)"
proof (cases "curr (rq s') = curr (rq s)")
  case True
  with assms show ?thesis by (auto simp: schedule_switch_def Let_def Option.bind_eq_Some_conv split: if_splits)
next
  case False
  with assms have "context_switch vnr (tstate (tasks s' (curr (rq s)))) (curr (rq s)) (curr (rq s')) m = Some m'"
    by (auto simp: schedule_switch_def Let_def Option.bind_eq_Some_conv split: if_splits)
  with False usage_context_switch [OF this] show ?thesis by simp
qed

section \<open>Witness\<close>

text \<open>
  Task 1 starts on the address space of the kernel and sleeps; process 2 runs on address space 5, exits, and the last
  reference held is dropped; kernel thread 3 is scheduled next and runs on address space 5.
\<close>

definition switch1 :: sched_state where
  "switch1 = upd_task 1 (\<lambda>t. t\<lparr>tstate := TASK_INTERRUPTIBLE, on_rq := True\<rparr>) ras3"
definition switch2 :: sched_state where "switch2 = the (schedule_once kernel0 (\<lambda>_. False) switch1)"
definition switch3 :: sched_state where "switch3 = upd_task 2 (\<lambda>t. t\<lparr>tstate := TASK_DEAD\<rparr>) switch2"
definition switch4 :: sched_state where "switch4 = the (schedule_once kernel0 (\<lambda>_. False) switch3)"

definition mm0 :: mm_state where
  "mm0 = \<lparr>mm_of = (\<lambda>_. None), active_mm = (\<lambda>_. None), mm_count = (\<lambda>x. if x = 0 then 1 else 0), prev_mm = None,
     usage = (\<lambda>_. 2), set_child_tid = (\<lambda>_. None), first_run = (\<lambda>_. False), switch_events = []\<rparr>"
definition held0 :: "mm \<Rightarrow> nat" where "held0 x = (if x = 0 then 1 else 0)"
definition mm1 :: mm_state where "mm1 = sched_init_mm 1 0 (INIT_TASK_mm 1 0 mm0)"
definition mm2 :: mm_state where "mm2 = mm1\<lparr>mm_count := (mm_count mm1)(5 := 1)\<rparr>"
definition mm3 :: mm_state where
  "mm3 = mm2\<lparr>mm_of := (mm_of mm2)(2 := Some 5), active_mm := (active_mm mm2)(2 := Some 5), first_run := (first_run mm2)(2 := True)\<rparr>"
definition mm4 :: mm_state where "mm4 = the (context_switch (\<lambda>_. 1) TASK_INTERRUPTIBLE 1 2 mm3)"
definition mm5 :: mm_state where "mm5 = (mm_count_inc 5 mm4)\<lparr>mm_of := (mm_of (mm_count_inc 5 mm4))(2 := None)\<rparr>"
definition mm6 :: mm_state where "mm6 = mmdrop 5 mm5"
definition mm7 :: mm_state where "mm7 = the (context_switch (\<lambda>_. 1) TASK_DEAD 2 3 mm6)"

lemma switch_runs:
  "schedule_once kernel0 (\<lambda>_. False) switch1 = Some switch2" "schedule_once kernel0 (\<lambda>_. False) switch3 = Some switch4"
proof -
  have "schedule_once kernel0 (\<lambda>_. False) switch1 \<noteq> None" by code_simp
  then show "schedule_once kernel0 (\<lambda>_. False) switch1 = Some switch2" by (simp add: switch2_def)
  have "schedule_once kernel0 (\<lambda>_. False) switch3 \<noteq> None" by code_simp
  then show "schedule_once kernel0 (\<lambda>_. False) switch3 = Some switch4" by (simp add: switch4_def)
qed

lemma switch_currs:
  "curr (rq switch1) = 1" "curr (rq switch2) = 2" "curr (rq switch3) = 2" "curr (rq switch4) = 3"
  "tstate (tasks switch2 1) = TASK_INTERRUPTIBLE" "tstate (tasks switch4 2) = TASK_DEAD"
  by code_simp+

lemma mm_runs:
  "context_switch (\<lambda>_. 1) TASK_INTERRUPTIBLE 1 2 mm3 = Some mm4" "context_switch (\<lambda>_. 1) TASK_DEAD 2 3 mm6 = Some mm7"
proof -
  have "context_switch (\<lambda>_. 1) TASK_INTERRUPTIBLE 1 2 mm3 \<noteq> None" "context_switch (\<lambda>_. 1) TASK_DEAD 2 3 mm6 \<noteq> None"
    by code_simp+
  then show "context_switch (\<lambda>_. 1) TASK_INTERRUPTIBLE 1 2 mm3 = Some mm4"
    "context_switch (\<lambda>_. 1) TASK_DEAD 2 3 mm6 = Some mm7"
    by (simp_all add: mm4_def mm7_def)
qed

lemma mm_facts: "mm_count mm1 5 = 0" "freed mm1 = []" "mm_count mm4 5 = 1" "mm_of mm4 2 = Some 5"
  by code_simp+

lemma mm5_none: "mm_of mm5 p = None"
proof -
  have "mm_of mm4 = mm_of mm3"
    unfolding mm4_def
    by (simp add: mm3_def mm2_def mm1_def mm0_def sched_init_mm_def INIT_TASK_mm_def context_switch_def context_switch_mm_def Let_def)
  then show ?thesis
    by (simp add: mm5_def mm3_def mm2_def mm1_def mm0_def sched_init_mm_def INIT_TASK_mm_def)
qed

lemma mm_run:
  "mm_reachable kernel0 (\<lambda>_. 1) (switch1, mm1, held0) (switch4, mm7, held0(5 := 1, 5 := 2, 5 := 1, 5 := 0))"
proof -
  let ?R = "mm_reachable kernel0 (\<lambda>_. 1) (switch1, mm1, held0)"
  note more = mm_reachable.step [of kernel0 "\<lambda>_. 1" "(switch1, mm1, held0)"]
  have "?R (switch1, mm2, held0(5 := 1))"
    unfolding mm2_def by (rule more [OF mm_reachable.start mm_step.alloc]) (simp_all add: mm_facts)
  then have "?R (switch1, mm3, held0(5 := 1))"
    unfolding mm3_def by (rule more [OF _ mm_step.fork]) (simp_all add: switch_currs)
  then have "?R (switch2, mm4, held0(5 := 1))"
    by (rule more [OF _ mm_step.pass [of _ "\<lambda>_. False"]]) (simp add: schedule_switch_def switch_runs switch_currs mm_runs del: One_nat_def)
  then have "?R (switch3, mm4, held0(5 := 1))"
    by (rule more [OF _ mm_step.other]) (simp add: switch_currs)
  then have "?R (switch3, mm_count_inc 5 mm4, (held0(5 := 1))(5 := (held0(5 := 1)) 5 + 1))"
    by (rule more [OF _ mm_step.get]) (simp_all add: mm_facts)
  then have "?R (switch3, mm_count_inc 5 mm4, held0(5 := 1, 5 := 2))" by (simp add: numeral_2_eq_2)
  then have "?R (switch3, mm5, (held0(5 := 1, 5 := 2))(5 := (held0(5 := 1, 5 := 2)) 5 - 1))"
    unfolding mm5_def by (rule more [OF _ mm_step.exit]) (simp_all add: switch_currs mm_facts)
  then have "?R (switch3, mm5, held0(5 := 1, 5 := 2, 5 := 1))" by simp
  then have "?R (switch3, mm6, (held0(5 := 1, 5 := 2, 5 := 1))(5 := (held0(5 := 1, 5 := 2, 5 := 1)) 5 - 1))"
    unfolding mm6_def by (rule more [OF _ mm_step.drop]) (simp_all add: mm5_none)
  then have "?R (switch3, mm6, held0(5 := 1, 5 := 2, 5 := 1, 5 := 0))" by simp
  then show ?thesis
    by (rule more [OF _ mm_step.pass [of _ "\<lambda>_. False"]]) (simp add: schedule_switch_def switch_runs switch_currs mm_runs del: One_nat_def)
qed

lemma mm_boot0: "mm_boot mm0 0" by (simp add: mm_boot_def mm0_def)

theorem active_mm_alive_witness:
  "active_mm mm7 3 = Some 5 \<and> (\<exists>x. active_mm mm7 3 = Some x \<and> x \<notin> set (freed mm7) \<and> mm_count mm7 x \<noteq> 0)"
proof -
  have "held0 = (\<lambda>x. if x = 0 then 1 else 0)" by (simp add: held0_def fun_eq_iff)
  then have "mm_reachable kernel0 (\<lambda>_. 1) (switch1, sched_init_mm (curr (rq switch1)) 0 (INIT_TASK_mm (curr (rq switch1)) 0 mm0),
      (\<lambda>x. if x = 0 then 1 else 0)) (switch4, mm7, held0(5 := 1, 5 := 2, 5 := 1, 5 := 0))"
    using mm_run by (simp only: switch_currs mm1_def)
  from active_mm_alive [OF mm_boot0 this] have "\<exists>x. active_mm mm7 3 = Some x \<and> x \<notin> set (freed mm7) \<and> mm_count mm7 x \<noteq> 0"
    by (simp only: switch_currs)
  moreover have "active_mm mm7 3 = Some 5" by code_simp
  ultimately show ?thesis by blast
qed

end
