(* ===== verification/Core_Idle.thy ===== *)
theory Core_Idle
  imports Core_Acct
begin

text \<open>
  Further entry points of \<open>kernel/sched/core.c\<close>: setting up the idle task, the counters other code reads, waiting for
  input and output, preemption on return from an interrupt, giving way while a lock is held, yielding to a task, and the
  emergency key that takes real-time tasks out of their class. The preemption count of a thread is an argument of the
  functions that look at it.
\<close>

section \<open>The idle task\<close>

definition init_idle_bootup_task :: "task \<Rightarrow> sched_state \<Rightarrow> sched_state" where
  "init_idle_bootup_task p = upd_task p (\<lambda>t. t\<lparr>sched_class := idle_sched_class\<rparr>)"

text \<open>\<open>now\<close> is the value of \<open>sched_clock\<close>.\<close>

definition init_idle :: "u64 \<Rightarrow> task \<Rightarrow> sched_state \<Rightarrow> sched_state" where
  "init_idle now p s =
     (let s1 = upd_task p (\<lambda>t. t\<lparr>tstate := TASK_RUNNING, se := (se t)\<lparr>exec_start := now\<rparr>\<rparr>) (sched_fork1 p s);
          s2 = upd_rq (\<lambda>r. r\<lparr>curr := p, idle := p\<rparr>) (set_task_rq p s1)
      in upd_task p (\<lambda>t. t\<lparr>sched_class := idle_sched_class\<rparr>) s2)"

text \<open>The end of \<open>sched_init\<close>: the boot task becomes the idle task, and passes for a fair task until start-up is done.\<close>

definition sched_init_idle :: "int \<Rightarrow> u64 \<Rightarrow> task \<Rightarrow> sched_state \<times> load_avg \<Rightarrow> sched_state \<times> load_avg" where
  "sched_init_idle hz now current sl =
     (case sl of (s, l) \<Rightarrow>
        (upd_task current (\<lambda>t. t\<lparr>sched_class := fair_sched_class\<rparr>) (init_idle now current s),
         l\<lparr>calc_load_update := jiffies l + LOAD_FREQ hz\<rparr>))"

definition idle_task :: "sched_state \<Rightarrow> task" where
  "idle_task s = idle (rq s)"

section \<open>Counters\<close>

definition nr_running_sum :: "sched_state \<Rightarrow> ulong" where
  "nr_running_sum s = nr_running (rq s)"

definition nr_context_switches :: "sched_state \<Rightarrow> u64" where
  "nr_context_switches s = nr_switches (rq s)"

definition nr_iowait_sum :: "acct_state \<Rightarrow> ulong" where
  "nr_iowait_sum a = word_of_int (nr_iowait a)"

definition nr_iowait_cpu :: "acct_state \<Rightarrow> ulong" where
  "nr_iowait_cpu a = word_of_int (nr_iowait a)"

definition this_cpu_load :: "load_avg \<Rightarrow> ulong" where
  "this_cpu_load l = cpu_load l 0"

definition task_delta_exec :: "kservices \<Rightarrow> task \<Rightarrow> sched_state \<Rightarrow> u64 \<times> sched_state" where
  "task_delta_exec K p s = do_task_delta_exec K p s"

section \<open>Waiting for input and output\<close>

text \<open>
  \<open>io_schedule\<close> and \<open>io_schedule_timeout\<close> for the task \<open>p\<close> before and after they sleep; \<open>in_iowait\<close> is the
  flag of the tasks. The plugged requests are flushed by the block layer.
\<close>

definition io_schedule_start :: "task \<Rightarrow> acct_state \<times> (task \<Rightarrow> bool) \<Rightarrow> acct_state \<times> (task \<Rightarrow> bool)" where
  "io_schedule_start p aw = (case aw of (a, in_iowait) \<Rightarrow> (a\<lparr>nr_iowait := nr_iowait a + 1\<rparr>, in_iowait(p := True)))"

definition io_schedule_finish :: "task \<Rightarrow> acct_state \<times> (task \<Rightarrow> bool) \<Rightarrow> acct_state \<times> (task \<Rightarrow> bool)" where
  "io_schedule_finish p aw = (case aw of (a, in_iowait) \<Rightarrow> (a\<lparr>nr_iowait := nr_iowait a - 1\<rparr>, in_iowait(p := False)))"

definition io_schedule_timeout_finish :: "task \<Rightarrow> int \<Rightarrow> acct_state \<times> (task \<Rightarrow> bool) \<Rightarrow> int \<times> acct_state \<times> (task \<Rightarrow> bool)" where
  "io_schedule_timeout_finish p ret aw = (ret, io_schedule_finish p aw)"

section \<open>Giving way\<close>

text \<open>\<open>None\<close> is \<open>BUG_ON\<close>, or a pass that does not return.\<close>

definition preempt_schedule_irq :: "kservices \<Rightarrow> bool \<Rightarrow> bool \<Rightarrow> sched_state \<Rightarrow> sched_state option" where
  "preempt_schedule_irq K preempt_count irqs_disabled s =
     (if preempt_count \<or> \<not> irqs_disabled then None else schedule1 K (\<lambda>p. p = curr (rq s)) s)"

definition should_resched :: "bool \<Rightarrow> sched_state \<Rightarrow> bool" where
  "should_resched preempt_active s \<longleftrightarrow> need_resched (tasks s (curr (rq s))) \<and> \<not> preempt_active"

definition cond_resched_lock :: "kservices \<Rightarrow> bool \<Rightarrow> bool \<Rightarrow> sched_state \<Rightarrow> (int \<times> sched_state) option" where
  "cond_resched_lock K preempt_active spin_needbreak s =
     (let resched = should_resched preempt_active s
      in if spin_needbreak \<or> resched
         then map_option (Pair 1) (if resched then schedule1 K (\<lambda>p. p = curr (rq s)) s else Some s)
         else Some (0, s))"

definition cond_resched_softirq :: "kservices \<Rightarrow> bool \<Rightarrow> bool \<Rightarrow> sched_state \<Rightarrow> (int \<times> sched_state) option" where
  "cond_resched_softirq K preempt_active in_softirq s =
     (if \<not> in_softirq then None
      else if should_resched preempt_active s then map_option (Pair 1) (schedule1 K (\<lambda>p. p = curr (rq s)) s)
      else Some (0, s))"

text \<open>The operation \<open>yield_to_task\<close> of a class; neither \<open>rt.c\<close> nor \<open>ras.c\<close> has one.\<close>

type_synonym yield_to_op = "task \<Rightarrow> bool \<Rightarrow> sched_state \<Rightarrow> bool \<times> sched_state"

definition yield_to_of :: "(sched_class_id \<Rightarrow> yield_to_op option) \<Rightarrow> sched_class_id \<Rightarrow> yield_to_op option" where
  "yield_to_of ext c = (case c of rt_sched_class \<Rightarrow> None | ras_sched_class \<Rightarrow> None | _ \<Rightarrow> ext c)"

text \<open>On one CPU both tasks have the same run queue.\<close>

definition yield_to ::
    "kservices \<Rightarrow> (sched_class_id \<Rightarrow> yield_to_op option) \<Rightarrow> task \<Rightarrow> bool \<Rightarrow> sched_state \<Rightarrow> (bool \<times> sched_state) option" where
  "yield_to K ext p preempt s =
     (let c = curr (rq s) in
      case yield_to_of ext (sched_class (tasks s c)) of
        None \<Rightarrow> Some (False, s)
      | Some f \<Rightarrow>
          if sched_class (tasks s c) \<noteq> sched_class (tasks s p) then Some (False, s)
          else if task_current s p \<or> tstate (tasks s p) \<noteq> 0 then Some (False, s)
          else (case f p preempt s of (yielded, s1) \<Rightarrow>
            if yielded then map_option (Pair True) (schedule K s1)
            else Some (False, upd_rq (\<lambda>r. r\<lparr>skip_clock_update := 0\<rparr>) s1)))"

section \<open>Taking tasks out of the real-time class\<close>

definition normalize_task :: "kservices \<Rightarrow> task \<Rightarrow> sched_state \<Rightarrow> sched_state option" where
  "normalize_task K p s =
     (let prev_class = sched_class (tasks s p); old_prio = prio (tasks s p); queued = on_rq (tasks s p);
          s1 = (if queued then dequeue_task K p 0 s else s)
      in map_option
           (\<lambda>s2. let s3 = (if queued then let s' = enqueue_task K p 0 s2 in resched_task (curr (rq s')) s' else s2)
                 in check_class_changed K p prev_class old_prio s3)
           (setscheduler K p SCHED_NORMAL 0 s1))"

text \<open>One round of the loop of \<open>normalize_rt_tasks\<close>, for the thread \<open>p\<close>.\<close>

definition normalize_thread :: "kservices \<Rightarrow> task \<Rightarrow> sched_state \<Rightarrow> sched_state option" where
  "normalize_thread K p s =
     (if \<not> has_mm (tasks s p) then Some s
      else
        let s1 = upd_task p (\<lambda>t. t\<lparr>se := (se t)\<lparr>exec_start := 0\<rparr>\<rparr>) s
        in if \<not> rt_task (tasks s1 p)
           then (if TASK_NICE (tasks s1 p) < 0 \<and> has_mm (tasks s1 p) then set_user_nice K p 0 s1 else Some s1)
           else normalize_task K p s1)"

fun normalize_rt_tasks :: "kservices \<Rightarrow> task list \<Rightarrow> sched_state \<Rightarrow> sched_state option" where
  "normalize_rt_tasks K [] s = Some s"
| "normalize_rt_tasks K (p # ps) s = Option.bind (normalize_thread K p s) (normalize_rt_tasks K ps)"

end
