(* ===== verification/Core_Idle_Proofs.thy ===== *)
theory Core_Idle_Proofs
  imports Core_Idle Core_Proofs
begin

text \<open>
  The emergency key takes every process out of the real-time class and leaves the tasks well typed; the counter of tasks
  that wait for input and output counts exactly those; a task of the real-time or race-averse class never yields to another.
\<close>

section \<open>Nice values keep tasks well typed\<close>

lemma typed_nice:
  assumes "task_typed t" "\<not> task_has_rt_policy t" "100 \<le> st" "st \<le> 139"
    and "pr = (if rt_prio (prio t) then prio t else st)"
  shows "task_typed (t\<lparr>static_prio := st, normal_prio := st, prio := pr\<rparr>)"
  using assms
  by (auto simp: task_typed_def normal_prio_of_def task_has_rt_policy_def rt_prio_def prio_defs class_for_def split: if_splits)

lemma set_user_nice_typed:
  assumes ok: "ext_ok K" and ty: "task_typed (tasks s p)" and nice: "- 20 \<le> nice" "nice \<le> 19"
  obtains s' where "set_user_nice K p nice s = Some s'" "task_typed (tasks s' p)"
    "policy (tasks s' p) = policy (tasks s p)" "static_prio (tasks s' p) = NICE_TO_PRIO nice"
    "\<And>q. q \<noteq> p \<Longrightarrow> sched_id (tasks s' q) = sched_id (tasks s q)"
proof -
  have st: "100 \<le> NICE_TO_PRIO nice" "NICE_TO_PRIO nice \<le> 139"
    using nice by (simp_all add: NICE_TO_PRIO_def prio_defs)
  consider (same) "TASK_NICE (tasks s p) = nice" | (rt) "TASK_NICE (tasks s p) \<noteq> nice" "task_has_rt_policy (tasks s p)"
    | (other) "TASK_NICE (tasks s p) \<noteq> nice" "\<not> task_has_rt_policy (tasks s p)" by blast
  then show thesis
  proof cases
    case same
    then have "static_prio (tasks s p) = NICE_TO_PRIO nice"
      by (simp add: TASK_NICE_def PRIO_TO_NICE_def NICE_TO_PRIO_def prio_defs)
    then show thesis using same ty that [of s] by (simp add: set_user_nice_def)
  next
    case rt
    have "task_typed ((tasks s p)\<lparr>static_prio := NICE_TO_PRIO nice\<rparr>)"
      using ty rt(2) st by (auto simp: task_typed_def normal_prio_of_def task_has_rt_policy_def)
    then show thesis
      using rt nice that [of "upd_task p (\<lambda>t. t\<lparr>static_prio := NICE_TO_PRIO nice\<rparr>) s"]
      by (simp add: set_user_nice_def upd_task_def)
  next
    case other
    define s1 where "s1 = (if on_rq (tasks s p) then dequeue_task K p 0 s else s)"
    have i1: "ids_same s s1" using ok by (simp add: s1_def)
    define u where "u = upd_task p (\<lambda>t. t\<lparr>static_prio := NICE_TO_PRIO nice\<rparr>) s1"
    have "static_prio (tasks u p) = NICE_TO_PRIO nice" by (simp add: u_def upd_task_def)
    then obtain s2 where s2: "set_load_weight p u = Some s2" "ids_same u s2"
      using set_load_weight_ok [of u p] st by auto
    define pr where "pr = fst (effective_prio p s2)"
    define s4 where "s4 = upd_task p (\<lambda>t. t\<lparr>prio := pr\<rparr>) (snd (effective_prio p s2))"
    define s5 where "s5 = (if on_rq (tasks s p) then
        let s' = enqueue_task K p 0 s4
        in if pr - prio (tasks s2 p) < 0 \<or> (pr - prio (tasks s2 p) > 0 \<and> task_current s' p) then resched_task (curr (rq s')) s' else s'
      else s4)"
    have i5: "ids_same s4 s5"
      using ok ids_same_trans [OF ids_same_enqueue ids_same_simple(1)] by (simp add: s5_def Let_def)
    have r: "set_user_nice K p nice s = Some s5"
      using other nice s2(1)
      by (simp add: set_user_nice_def Let_def s1_def u_def s4_def pr_def s5_def split: prod.split)
    have q: "sched_id (tasks s5 q) = sched_id (tasks s q)" if "q \<noteq> p" for q
      using i1 s2(2) i5 that by (simp add: ids_same_def u_def s4_def effective_prio_def Let_def upd_task_def)
    have rt2: "rt_prio (prio (tasks s2 p)) = rt_prio (prio (tasks s p))"
      using ids_same_fields(4) [OF s2(2), of p] ids_same_fields(4) [OF i1, of p] by (simp add: u_def upd_task_def)
    have n2: "normal_prio_of (tasks s2 p) = NICE_TO_PRIO nice"
      using ids_same_fields(1,2) [OF s2(2), of p] ids_same_fields(1) [OF i1, of p] other(2)
      by (simp add: u_def upd_task_def normal_prio_of_def task_has_rt_policy_def)
    have p2: "prio (tasks s2 p) = prio (tasks s p)"
      using ids_same_fields(4) [OF s2(2), of p] ids_same_fields(4) [OF i1, of p] by (simp add: u_def upd_task_def)
    have pr: "pr = (if rt_prio (prio (tasks s p)) then prio (tasks s p) else NICE_TO_PRIO nice)"
      using rt2 n2 p2 by (simp add: pr_def effective_prio_def Let_def upd_task_def)
    have "sched_id (tasks s4 p) = sched_id ((tasks s p)\<lparr>static_prio := NICE_TO_PRIO nice, normal_prio := NICE_TO_PRIO nice, prio := pr\<rparr>)"
      using i1 s2(2) n2
      by (auto simp: ids_same_def u_def s4_def effective_prio_def Let_def upd_task_def sched_id_def)
    then have id: "sched_id (tasks s5 p) =
        sched_id ((tasks s p)\<lparr>static_prio := NICE_TO_PRIO nice, normal_prio := NICE_TO_PRIO nice, prio := pr\<rparr>)"
      using i5 by (simp add: ids_same_def)
    have "task_typed (tasks s5 p)"
      using task_typed_cong [OF id] typed_nice [OF ty other(2) st pr] by simp
    moreover have "policy (tasks s5 p) = policy (tasks s p)" "static_prio (tasks s5 p) = NICE_TO_PRIO nice"
      using id by (simp_all add: sched_id_def)
    ultimately show thesis using r q that by blast
  qed
qed

section \<open>Normalizing\<close>

lemma normalize_task_typed:
  assumes ok: "ext_ok K" "getprio_ok K" and ty: "task_typed (tasks s p)"
  obtains s' where "normalize_task K p s = Some s'" "task_typed (tasks s' p)" "policy (tasks s' p) = SCHED_NORMAL"
    "rt_priority (tasks s' p) = 0" "\<And>q. q \<noteq> p \<Longrightarrow> sched_id (tasks s' q) = sched_id (tasks s q)"
proof -
  define s1 where "s1 = (if on_rq (tasks s p) then dequeue_task K p 0 s else s)"
  have i1: "ids_same s s1" using ok(1) by (simp add: s1_def)
  have st: "100 \<le> static_prio (tasks s1 p)" "static_prio (tasks s1 p) \<le> 139"
    using ids_same_fields(2) [OF i1, of p] typedD(1,2) [OF ty] by simp_all
  have pol: "valid_policy SCHED_NORMAL" "rt_policy SCHED_NORMAL \<longleftrightarrow> (0::int) \<noteq> 0" "(0::int) \<le> 0" "(0::int) \<le> 99"
    by (simp_all add: valid_policy_def rt_policy_def policy_defs)
  from setscheduler_typed [OF ok(2) pol st] obtain s2 where s2: "setscheduler K p SCHED_NORMAL 0 s1 = Some s2" "task_typed (tasks s2 p)" "policy (tasks s2 p) = SCHED_NORMAL"
    "rt_priority (tasks s2 p) = 0" "\<And>q. q \<noteq> p \<Longrightarrow> sched_id (tasks s2 q) = sched_id (tasks s1 q)"
    by metis
  define s3 where "s3 = (if on_rq (tasks s p) then let s' = enqueue_task K p 0 s2 in resched_task (curr (rq s')) s' else s2)"
  define s4 where "s4 = check_class_changed K p (sched_class (tasks s p)) (prio (tasks s p)) s3"
  have "ids_same s2 s3" using ok(1) ids_same_trans [OF ids_same_enqueue ids_same_simple(1)] by (simp add: s3_def Let_def)
  then have i4: "ids_same s2 s4" unfolding s4_def by (rule ids_same_trans) (simp add: ok(1))
  have "normalize_task K p s = Some s4"
    using s2(1) by (simp add: normalize_task_def Let_def s1_def s3_def s4_def)
  moreover have "sched_id (tasks s4 q) = sched_id (tasks s q)" if "q \<noteq> p" for q
    using i4 i1 s2(5) [OF that] by (simp add: ids_same_def)
  ultimately show thesis
    using that ids_same_typed [OF i4] s2(2-4) ids_same_fields(1,5) [OF i4, of p] by simp
qed

text \<open>What the key makes of a task.\<close>

definition normalized :: "task_struct \<Rightarrow> task_struct \<Rightarrow> bool" where
  "normalized t t' \<longleftrightarrow> task_typed t' \<and>
     (if \<not> has_mm t then sched_id t' = sched_id t
      else if rt_task t then policy t' = SCHED_NORMAL \<and> rt_priority t' = 0
      else policy t' = policy t \<and> TASK_NICE t' = max 0 (TASK_NICE t))"

lemma normalized_cong:
  "\<lbrakk>sched_id t1 = sched_id t; sched_id t2 = sched_id t'\<rbrakk> \<Longrightarrow> normalized t1 t2 = normalized t t'"
  using task_typed_cong [of t2 t'] by (simp add: normalized_def sched_id_def rt_task_def TASK_NICE_def)

lemma normalize_thread_ok:
  assumes ok: "ext_ok K" "getprio_ok K" and ty: "task_typed (tasks s p)"
  obtains s' where "normalize_thread K p s = Some s'" "normalized (tasks s p) (tasks s' p)"
    "\<And>q. q \<noteq> p \<Longrightarrow> sched_id (tasks s' q) = sched_id (tasks s q)"
proof (cases "has_mm (tasks s p)")
  case False
  with ty that [of s] show thesis by (simp add: normalize_thread_def normalized_def)
next
  case True
  define s1 where "s1 = upd_task p (\<lambda>t. t\<lparr>se := (se t)\<lparr>exec_start := 0\<rparr>\<rparr>) s"
  have i1: "sched_id (tasks s1 q) = sched_id (tasks s q)" for q by (simp add: s1_def upd_task_def sched_id_def)
  have ty1: "task_typed (tasks s1 p)" using task_typed_cong [OF i1] ty by simp
  have f: "has_mm (tasks s1 p)" "rt_task (tasks s1 p) = rt_task (tasks s p)" "policy (tasks s1 p) = policy (tasks s p)"
    "static_prio (tasks s1 p) = static_prio (tasks s p)"
    using i1 [of p] True by (simp_all add: sched_id_def rt_task_def)
  consider (rt) "rt_task (tasks s p)" | (neg) "\<not> rt_task (tasks s p)" "TASK_NICE (tasks s p) < 0"
    | (keep) "\<not> rt_task (tasks s p)" "0 \<le> TASK_NICE (tasks s p)" by linarith
  then show thesis
  proof cases
    case rt
    from normalize_task_typed [OF ok ty1] obtain s' where "normalize_task K p s1 = Some s'" "task_typed (tasks s' p)"
      "policy (tasks s' p) = SCHED_NORMAL" "rt_priority (tasks s' p) = 0"
      "\<And>q. q \<noteq> p \<Longrightarrow> sched_id (tasks s' q) = sched_id (tasks s1 q)" by metis
    then show thesis using rt True f i1 that [of s'] by (simp add: normalize_thread_def s1_def [symmetric] normalized_def Let_def)
  next
    case neg
    have "- 20 \<le> (0::int)" "(0::int) \<le> 19" by simp_all
    from set_user_nice_typed [OF ok(1) ty1 this] obtain s' where "set_user_nice K p 0 s1 = Some s'" "task_typed (tasks s' p)"
      "policy (tasks s' p) = policy (tasks s1 p)" "static_prio (tasks s' p) = NICE_TO_PRIO 0"
      "\<And>q. q \<noteq> p \<Longrightarrow> sched_id (tasks s' q) = sched_id (tasks s1 q)" by metis
    then show thesis
      using neg True f i1 that [of s']
      by (simp add: normalize_thread_def s1_def [symmetric] normalized_def Let_def TASK_NICE_def PRIO_TO_NICE_def NICE_TO_PRIO_def prio_defs)
  next
    case keep
    then show thesis
      using True f i1 ty1 that [of s1]
      by (simp add: normalize_thread_def s1_def [symmetric] normalized_def Let_def TASK_NICE_def)
  qed
qed

lemma normalize_loop:
  assumes "ext_ok K" "getprio_ok K" "\<forall>p. task_typed (tasks s p)" "distinct ps"
  shows "\<exists>s'. normalize_rt_tasks K ps s = Some s' \<and> (\<forall>p \<in> set ps. normalized (tasks s p) (tasks s' p)) \<and>
    (\<forall>p. p \<notin> set ps \<longrightarrow> sched_id (tasks s' p) = sched_id (tasks s p))"
  using assms(3,4)
proof (induction ps arbitrary: s)
  case (Cons p ps)
  obtain s1 where s1: "normalize_thread K p s = Some s1" "normalized (tasks s p) (tasks s1 p)"
    "\<And>q. q \<noteq> p \<Longrightarrow> sched_id (tasks s1 q) = sched_id (tasks s q)"
    using normalize_thread_ok [OF assms(1,2), of s p] Cons.prems(1) by metis
  have "task_typed (tasks s1 q)" for q
    using s1(2,3) task_typed_cong [of "tasks s1 q" "tasks s q"] Cons.prems(1)
    by (cases "q = p") (simp_all add: normalized_def)
  then obtain s' where s': "normalize_rt_tasks K ps s1 = Some s'" "\<forall>p \<in> set ps. normalized (tasks s1 p) (tasks s' p)"
    "\<And>q. q \<notin> set ps \<Longrightarrow> sched_id (tasks s' q) = sched_id (tasks s1 q)"
    using Cons.IH [of s1] Cons.prems(2) by auto
  have "normalized (tasks s q) (tasks s' q)" if q: "q \<in> set (p # ps)" for q
  proof (cases "q = p")
    case True
    with s'(3) [of p] Cons.prems(2) s1(2) show ?thesis using normalized_cong [OF refl, of "tasks s' p" "tasks s1 p"] by simp
  next
    case False
    with q s'(2) have "normalized (tasks s1 q) (tasks s' q)" by simp
    with s1(3) [OF False] show ?thesis using normalized_cong [OF _ refl] by blast
  qed
  with s1 s' show ?case by auto
qed simp

text \<open>C24: the emergency key (\<open>normalize_rt_tasks\<close>) over any list of distinct threads of a system of well-typed tasks returns,
  and leaves every task of the system well typed. What counts is the effective priority: a listed process whose effective
  priority is a real-time one (below 100) becomes a normal task with real-time priority 0, also one of another policy, even
  race-averse, that has this priority only because it was boosted; any other listed process keeps its policy, so a
  race-averse one that is not boosted stays race-averse, and has nice value 0 if it was negative; kernel threads and tasks
  not listed keep their policy, priorities, class and state. The classes outside the repository are assumed to leave
  policies, priorities and the current task alone, and priority inheritance not to lower a priority.\<close>

theorem normalize_rt_tasks_safe:
  assumes "ext_ok K" and "getprio_ok K" and "\<forall>p. task_typed (tasks s p)" and "distinct ps"
  shows "\<exists>s'. normalize_rt_tasks K ps s = Some s' \<and> (\<forall>p. task_typed (tasks s' p)) \<and>
    (\<forall>p. if p \<in> set ps \<and> has_mm (tasks s p)
         then if rt_task (tasks s p) then policy (tasks s' p) = SCHED_NORMAL \<and> rt_priority (tasks s' p) = 0
              else policy (tasks s' p) = policy (tasks s p) \<and> TASK_NICE (tasks s' p) = max 0 (TASK_NICE (tasks s p))
         else sched_id (tasks s' p) = sched_id (tasks s p))"
proof -
  from normalize_loop [OF assms] obtain s' where s': "normalize_rt_tasks K ps s = Some s'"
    "\<And>p. p \<in> set ps \<Longrightarrow> normalized (tasks s p) (tasks s' p)" "\<And>p. p \<notin> set ps \<Longrightarrow> sched_id (tasks s' p) = sched_id (tasks s p)"
    by blast
  have "task_typed (tasks s' p)" for p
    using s'(2,3) task_typed_cong [of "tasks s' p" "tasks s p"] assms(3) by (cases "p \<in> set ps") (auto simp: normalized_def)
  moreover have "if p \<in> set ps \<and> has_mm (tasks s p)
         then if rt_task (tasks s p) then policy (tasks s' p) = SCHED_NORMAL \<and> rt_priority (tasks s' p) = 0
              else policy (tasks s' p) = policy (tasks s p) \<and> TASK_NICE (tasks s' p) = max 0 (TASK_NICE (tasks s p))
         else sched_id (tasks s' p) = sched_id (tasks s p)" for p
    using s'(2,3) [of p] by (cases "p \<in> set ps") (simp_all add: normalized_def)
  ultimately show ?thesis using s'(1) by blast
qed

text \<open>A real-time process, a race-averse one with nice value -5, a race-averse one boosted to a real-time priority, and others.\<close>

definition normalize0 :: sched_state where
  "normalize0 = state0\<lparr>tasks := (\<lambda>p.
     if p = 1 then task0\<lparr>policy := SCHED_FIFO, rt_priority := 10, normal_prio := 89, prio := 89, sched_class := rt_sched_class\<rparr>
     else if p = 2 then task0\<lparr>static_prio := 115, normal_prio := 115, prio := 115\<rparr>
     else if p = 3 then task0\<lparr>prio := 50\<rparr> else task0)\<rparr>"

theorem normalize_rt_tasks_safe_witness:
  "\<exists>s'. normalize_rt_tasks kernel0 [1, 2, 3] normalize0 = Some s' \<and> policy (tasks s' 1) = SCHED_NORMAL \<and>
     policy (tasks s' 2) = SCHED_RAS \<and> TASK_NICE (tasks s' 2) = 0 \<and>
     policy (tasks normalize0 3) = SCHED_RAS \<and> policy (tasks s' 3) = SCHED_NORMAL"
proof -
  have ty: "\<forall>p. task_typed (tasks normalize0 p)"
    by (simp add: normalize0_def task0_def task_typed_def valid_policy_def policy_defs rt_policy_def normal_prio_of_def
        task_has_rt_policy_def class_for_def rt_prio_def prio_defs)
  have t: "has_mm (tasks normalize0 1)" "rt_task (tasks normalize0 1)" "has_mm (tasks normalize0 2)" "\<not> rt_task (tasks normalize0 2)"
    "policy (tasks normalize0 2) = SCHED_RAS" "max 0 (TASK_NICE (tasks normalize0 2)) = 0"
    "has_mm (tasks normalize0 3)" "rt_task (tasks normalize0 3)" "policy (tasks normalize0 3) = SCHED_RAS"
    by code_simp+
  have d: "distinct [1 :: task, 2, 3]" by simp
  from normalize_rt_tasks_safe [OF ext_ok_kernel0 ty d] obtain s' where s': "normalize_rt_tasks kernel0 [1, 2, 3] normalize0 = Some s'"
    "\<And>p. if p \<in> set [1, 2, 3] \<and> has_mm (tasks normalize0 p)
         then if rt_task (tasks normalize0 p) then policy (tasks s' p) = SCHED_NORMAL \<and> rt_priority (tasks s' p) = 0
              else policy (tasks s' p) = policy (tasks normalize0 p) \<and> TASK_NICE (tasks s' p) = max 0 (TASK_NICE (tasks normalize0 p))
         else sched_id (tasks s' p) = sched_id (tasks normalize0 p)" by blast
  from s'(2) [of 1] s'(2) [of 2] s'(2) [of 3] t s'(1) show ?thesis by auto
qed

section \<open>Waiting for input and output\<close>

text \<open>The counter, which decides whether an idle tick is accounted as waiting, is the number of tasks inside \<open>io_schedule\<close>.\<close>

definition io_counted :: "acct_state \<times> (task \<Rightarrow> bool) \<Rightarrow> bool" where
  "io_counted aw \<longleftrightarrow> finite {p. snd aw p} \<and> nr_iowait (fst aw) = int (card {p. snd aw p})"

lemma io_schedule_counted:
  assumes "io_counted aw"
  shows "\<not> snd aw p \<Longrightarrow> io_counted (io_schedule_start p aw)" and "snd aw p \<Longrightarrow> io_counted (io_schedule_finish p aw)"
proof -
  have s: "{q. snd (io_schedule_start p aw) q} = insert p {q. snd aw q}"
    and f: "{q. snd (io_schedule_finish p aw) q} = {q. snd aw q} - {p}"
    by (auto simp: io_schedule_start_def io_schedule_finish_def split: prod.split)
  show "io_counted (io_schedule_start p aw)" if "\<not> snd aw p"
    using assms that unfolding io_counted_def s by (cases aw) (simp add: io_schedule_start_def)
  show "io_counted (io_schedule_finish p aw)" if "snd aw p"
  proof -
    have "card {q. snd aw q} = Suc (card ({q. snd aw q} - {p}))"
      using assms that by (subst card.remove [of _ p]) (auto simp: io_counted_def)
    with assms show ?thesis unfolding io_counted_def f by (cases aw) (simp add: io_schedule_finish_def)
  qed
qed

section \<open>Yielding to a task\<close>

text \<open>Neither class of the repository can yield to a task: the call does nothing.\<close>

lemma yield_to_none:
  assumes "sched_class (tasks s (curr (rq s))) \<in> {rt_sched_class, ras_sched_class}"
  shows "yield_to K ext p preempt s = Some (False, s)"
  using assms by (auto simp: yield_to_def yield_to_of_def)

end
