(* ===== verification/Core_Boot.thy ===== *)
theory Core_Boot
  imports Rt_Bandwidth Core_Switch Core_Idle
begin

text \<open>
  The start of the scheduler: the first task as \<open>include/linux/init_task.h\<close> lays it out, and \<open>sched_init\<close> of
  \<open>kernel/sched/core.c\<close>, which sets up the root group, the run queue, the load statistics and the idle task. The queue
  of the fair class, autogroups and timers are outside the repository; the pointers into allocated memory are the stores of
  the model.
\<close>

definition PF_KTHREAD :: u32 where "PF_KTHREAD = 0x00200000"

text \<open>\<open>INIT_TASK\<close> sets these fields of static storage; its memory fields are \<open>INIT_TASK_mm\<close>.\<close>

definition INIT_TASK :: "int \<Rightarrow> task \<Rightarrow> sched_state \<Rightarrow> sched_state" where
  "INIT_TASK hz p s =
     upd_rt_se (TaskSE p) (\<lambda>e. e\<lparr>rt_time_slice := word_of_int (RR_TIMESLICE hz)\<rparr>)
       (upd_task p (\<lambda>t. t\<lparr>tstate := 0, tflags := PF_KTHREAD, prio := MAX_PRIO - 20, static_prio := MAX_PRIO - 20,
          normal_prio := MAX_PRIO - 20, policy := SCHED_NORMAL, has_mm := False,
          ras := (ras t)\<lparr>ras_time_slice := word_of_int (RAS_BG_TIMESLICE hz)\<rparr>, sched_task_group := root_task_group\<rparr>) s)"

text \<open>The body of the loop over the processors, for the one there is.\<close>

definition init_cpu_rq :: "sched_state \<Rightarrow> sched_state" where
  "init_cpu_rq s =
     (let s1 = upd_rq (\<lambda>r. r\<lparr>nr_running := 0\<rparr>) s;
          s2 = upd_rq (\<lambda>r. r\<lparr>rq_ras := init_ras_rq\<rparr>) (upd_rt_rq root_task_group init_rt_rq s1);
          s3 = upd_rt_rq root_task_group (\<lambda>r. r\<lparr>rt_runtime := rt_b_runtime (def_rt_bandwidth s2)\<rparr>) s2;
          s4 = upd_rq (\<lambda>r. r\<lparr>leaf_rt_rq_list := []\<rparr>) s3
      in init_tg_rt_entry root_task_group None None s4)"

definition init_cpu_load :: "int \<Rightarrow> load_avg \<Rightarrow> load_avg" where
  "init_cpu_load hz l =
     l\<lparr>calc_load_active := 0, rq_load_update := jiffies l + LOAD_FREQ hz,
       cpu_load := (\<lambda>j. if j < CPU_LOAD_IDX_MAX then 0 else cpu_load l j), last_load_update_tick := jiffies l\<rparr>"

type_synonym boot_state = "sched_state \<times> load_avg \<times> acct_state \<times> mm_state"

text \<open>\<open>None\<close> is a read outside the weight tables.\<close>

definition sched_init :: "kservices \<Rightarrow> u64 \<Rightarrow> task \<Rightarrow> mm \<Rightarrow> boot_state \<Rightarrow> boot_state option" where
  "sched_init K now init_task init_mm st =
     (case st of (s, l, a, m) \<Rightarrow>
        let s1 = init_root_group s;
            s2 = s1\<lparr>cpuusage := (cpuusage s1)(root_cpuacct := 0)\<rparr>;
            s3 = init_cpu_rq s2;
            l1 = init_cpu_load (HZ (kernel K)) l;
            a1 = a\<lparr>nr_iowait := 0\<rparr>
        in map_option
             (\<lambda>s4. let m1 = sched_init_mm init_task init_mm m
                   in case sched_init_idle (HZ (kernel K)) now init_task (s4, l1) of (s5, l2) \<Rightarrow> (s5, l2, a1, m1))
             (set_load_weight init_task s3))"

end
