(* ===== verification/Core_Boot_Proofs.thy ===== *)
theory Core_Boot_Proofs
  imports Core_Boot Rt_Admission Core_Switch_Proofs Core_Load_Proofs Core_Acct_Proofs Core_Idle_Proofs
begin

text \<open>
  \<open>sched_init\<close> establishes what the components start from: the initial states of the reachability relations of the
  real-time class, the race-averse class, the groups, the load statistics and the address spaces.
\<close>

text \<open>
  Memory before \<open>sched_init\<close>: the static structures are zero apart from the first task, the group and entity stores hold
  nothing yet, and the two settings of the real-time limit have values the administrator could give them.
\<close>

definition boot_memory :: "int \<Rightarrow> task \<Rightarrow> mm \<Rightarrow> boot_state \<Rightarrow> bool" where
  "boot_memory hz p init_mm st \<longleftrightarrow>
     (case st of (s, l, a, m) \<Rightarrow>
        rt_priority (tasks s p) = 0 \<and> (\<forall>e. rt_parent (rt_ses s e) = None \<and> my_q (rt_ses s e) = None) \<and>
        rt_nr_running (rt_rqs s root_task_group) = 0 \<and> queue (rt_rqs s root_task_group) = (\<lambda>_. []) \<and>
        bitmap (rt_rqs s root_task_group) = (\<lambda>_. False) \<and> (\<forall>g. g \<noteq> root_task_group \<longrightarrow> empty_rq (rt_rqs s g)) \<and>
        tg_parent (tgs s root_task_group) = None \<and> cfs_h_nr_running (rq s) = 0 \<and>
        0 < sysctl_sched_rt_period s \<and> sysctl_sched_rt_period s < 2 ^ 31 \<and>
        sysctl_sched_rt_runtime s \<le> sysctl_sched_rt_period s \<and>
        calc_load_tasks l = 0 \<and> calc_load_idle l = (\<lambda>_. 0) \<and> mm_boot m init_mm)"

lemma set_load_weight_se:
  assumes "100 \<le> static_prio (tasks s p)" "static_prio (tasks s p) \<le> 139"
  obtains e where "set_load_weight p s = Some (upd_task p (\<lambda>t. t\<lparr>se := e\<rparr>) s)"
proof -
  have "\<exists>e. set_load_weight p s = Some (upd_task p (\<lambda>t. t\<lparr>se := e\<rparr>) s)"
    using assms by (auto simp: set_load_weight_def Let_def prio_defs upd_task_def)
  then show thesis using that by blast
qed

text \<open>The scheduler state \<open>sched_init\<close> leaves, for some scheduling entity of the first task.\<close>

lemma sched_init_run:
  assumes "100 \<le> static_prio (tasks s p)" "static_prio (tasks s p) \<le> 139"
  obtains e where "sched_init K now p i (s, l, a, m) =
    Some (fst (sched_init_idle (HZ (kernel K)) now p
        (upd_task p (\<lambda>t. t\<lparr>se := e\<rparr>) (init_cpu_rq ((init_root_group s)\<lparr>cpuusage := (cpuusage s)(root_cpuacct := 0)\<rparr>)), l)),
      (init_cpu_load (HZ (kernel K)) l)\<lparr>calc_load_update := jiffies l + LOAD_FREQ (HZ (kernel K))\<rparr>,
      a\<lparr>nr_iowait := 0\<rparr>, sched_init_mm p i m)"
proof -
  let ?s = "init_cpu_rq ((init_root_group s)\<lparr>cpuusage := (cpuusage (init_root_group s))(root_cpuacct := 0)\<rparr>)"
  have t: "tasks ?s = tasks s"
    by (simp add: init_cpu_rq_def init_root_group_def init_tg_rt_entry_def Let_def upd_tg_def upd_defs)
  have c: "cpuusage (init_root_group s) = cpuusage s" by (simp add: init_root_group_def Let_def upd_tg_def)
  obtain e where "set_load_weight p ?s = Some (upd_task p (\<lambda>t. t\<lparr>se := e\<rparr>) ?s)"
    using set_load_weight_se [of ?s p] assms t by auto
  then show thesis
    using that [of e] by (simp add: sched_init_def sched_init_idle_def init_cpu_load_def c Let_def)
qed

lemma boot_sched_state:
  fixes s :: sched_state
  assumes bm: "boot_memory hz p i (s, l, a, m)"
    and s': "s' = fst (sched_init_idle hz now p (upd_task p (\<lambda>t. t\<lparr>se := e\<rparr>)
      (init_cpu_rq ((init_root_group (INIT_TASK hz p s))\<lparr>cpuusage := u\<rparr>)), l'))"
  shows "\<And>e. rt_parent (rt_ses s' e) = None \<and> my_q (rt_ses s' e) = None" "\<And>g. empty_rq (rt_rqs s' g)"
    "rq_ras (rq s') = init_ras_rq" "nr_running (rq s') = 0" "curr (rq s') = p" "idle (rq s') = p"
    "cfs_h_nr_running (rq s') = 0" "task_typed (tasks s' p)" "sched_class (tasks s' p) = fair_sched_class"
    "tstate (tasks s' p) = TASK_RUNNING" "rt_rq_of (rt_ses s' (TaskSE p)) = root_task_group"
    "tgs s' = (tgs (init_root_group (INIT_TASK hz p s)))(root_task_group := (tgs (init_root_group (INIT_TASK hz p s)) root_task_group)\<lparr>tg_rt_se := None\<rparr>)"
    "bw_settings_same (init_root_group (INIT_TASK hz p s)) s'" "task_groups s' = task_groups (init_root_group (INIT_TASK hz p s))"
proof -
  note run = s' sched_init_idle_def init_idle_def sched_fork1_def set_task_rq_def init_cpu_rq_def init_root_group_def
    INIT_TASK_def init_tg_rt_entry_def upd_tg_def upd_defs Let_def
  note bm = bm [unfolded boot_memory_def]
  show "rt_parent (rt_ses s' e) = None \<and> my_q (rt_ses s' e) = None" for e
    using bm by (simp add: run)
  show "empty_rq (rt_rqs s' g)" for g
    using bm by (simp add: run empty_rq_def init_rt_rq_def fun_eq_iff prio_defs)
  show "task_typed (tasks s' p)"
    using bm by (simp add: run task_typed_def valid_policy_def policy_defs rt_policy_def prio_defs normal_prio_of_def
        task_has_rt_policy_def class_for_def rt_prio_def)
  show "rq_ras (rq s') = init_ras_rq" "nr_running (rq s') = 0" "curr (rq s') = p" "idle (rq s') = p"
    "sched_class (tasks s' p) = fair_sched_class" "tstate (tasks s' p) = TASK_RUNNING"
    "rt_rq_of (rt_ses s' (TaskSE p)) = root_task_group"
    "tgs s' = (tgs (init_root_group (INIT_TASK hz p s)))
       (root_task_group := (tgs (init_root_group (INIT_TASK hz p s)) root_task_group)\<lparr>tg_rt_se := None\<rparr>)"
    "task_groups s' = task_groups (init_root_group (INIT_TASK hz p s))"
    by (simp_all add: run)
  show "cfs_h_nr_running (rq s') = 0" using bm by (simp add: run)
  show "bw_settings_same (init_root_group (INIT_TASK hz p s)) s'"
    by (simp add: run bw_settings_same_def)
qed

text \<open>C15: \<open>sched_init\<close>, run on zeroed memory with the first task of \<open>INIT_TASK\<close>, returns and leaves every component
  where its invariant starts: the real-time arrays are those of an empty system whatever tasks will exist (\<open>rt_inv\<close>),
  the race-averse queue is empty, the groups satisfy the bandwidth invariant, the load statistics and the address space
  counts are consistent, and the counters agree with the queues; the first task is current and idle, well typed, running and
  in the fair class, and the processor counts as idle.\<close>

theorem sched_init_establishes:
  assumes bm: "boot_memory (HZ (kernel K)) p i (s, l, a, m)"
    and E: "finite E" "card E < 2 ^ 32" "\<forall>g. GroupSE g \<notin> E"
  shows "\<exists>s' l' a' m'. sched_init K now p i (INIT_TASK (HZ (kernel K)) p s, l, a, INIT_TASK_mm p i m) = Some (s', l', a', m') \<and>
    rt_reachable (kernel K) E s' \<and> rt_inv E s' \<and> ras_reachable (kernel K) s' \<and> bw_inv s' \<and> load_reachable (HZ (kernel K)) l' \<and> nr_iowait a' = 0 \<and>
    mm_inv (curr (rq s')) m' (\<lambda>x. if x = i then 1 else 0) \<and> rq_counted s' \<and> idle_cpu s' \<and> curr (rq s') = p \<and>
    task_typed (tasks s' p) \<and> sched_class (tasks s' p) = fair_sched_class \<and> tstate (tasks s' p) = TASK_RUNNING"
proof -
  let ?hz = "HZ (kernel K)" and ?i = "INIT_TASK (HZ (kernel K)) p s"
  have "static_prio (tasks ?i p) = 120" by (simp add: INIT_TASK_def upd_defs prio_defs)
  then obtain e where r: "sched_init K now p i (?i, l, a, INIT_TASK_mm p i m) =
    Some (fst (sched_init_idle ?hz now p
        (upd_task p (\<lambda>t. t\<lparr>se := e\<rparr>) (init_cpu_rq ((init_root_group ?i)\<lparr>cpuusage := (cpuusage ?i)(root_cpuacct := 0)\<rparr>)), l)),
      (init_cpu_load ?hz l)\<lparr>calc_load_update := jiffies l + LOAD_FREQ ?hz\<rparr>,
      a\<lparr>nr_iowait := 0\<rparr>, sched_init_mm p i (INIT_TASK_mm p i m))"
    using sched_init_run [of ?i p K now i l a "INIT_TASK_mm p i m"] by auto
  define s' where "s' = fst (sched_init_idle ?hz now p
        (upd_task p (\<lambda>t. t\<lparr>se := e\<rparr>) (init_cpu_rq ((init_root_group ?i)\<lparr>cpuusage := (cpuusage ?i)(root_cpuacct := 0)\<rparr>)), l))"
  note b = boot_sched_state [OF bm s'_def]
  note bm' = bm [unfolded boot_memory_def, simplified]
  have ri: "rt_init E s'" using b(1,2) E by (simp add: rt_init_def)
  then have rt: "rt_reachable (kernel K) E s'" "rt_inv E s'" by (rule rt_reachable.init, rule rt_init_inv)
  have "queue (rt_rqs s' g) k = []" for g k using b(2) [of g] by (simp add: empty_rq_def)
  then have "{q. rt_queued s' (TaskSE q)} = {}" by (simp add: rt_queued_def)
  then have cnt: "rq_counted s'" using b(3,4,7) by (simp add: rq_counted_def init_ras_rq_def)
  have bw0: "bw_inv (init_root_group ?i)"
    using bm' by (intro bw_init_inv) (simp_all add: INIT_TASK_def upd_defs)
  have bw: "bw_inv s'"
    by (rule bw_inv_frame [OF bw0 b(13,14)]) (simp add: group_same_def b(12))
  have ld: "load_reachable ?hz ((init_cpu_load ?hz l)\<lparr>calc_load_update := jiffies l + LOAD_FREQ ?hz\<rparr>)"
    using bm' by (intro load_reachable.init) (simp_all add: init_cpu_load_def)
  have mm: "mm_inv (curr (rq s')) (sched_init_mm p i (INIT_TASK_mm p i m)) (\<lambda>x. if x = i then 1 else 0)"
    unfolding b(5) using bm' by (intro mm_inv_boot) simp
  show ?thesis
    unfolding r s'_def [symmetric]
    using rt cnt bw ld mm b ras_reachable.init [OF b(3)] by (simp add: idle_cpu_def)
qed

text \<open>The emulator at 100 ticks a second, with the settings compiled in.\<close>

definition boot0 :: sched_state where
  "boot0 = state0\<lparr>tasks := (\<lambda>_. task0\<lparr>policy := 0\<rparr>), rt_rqs := (rt_rqs state0)(0 := rt_rq0\<lparr>bitmap := (\<lambda>_. False), highest_prio_curr := 0\<rparr>)\<rparr>"

theorem sched_init_establishes_witness:
  "\<exists>s' l' a' m'. sched_init kernel0 5 0 0 (INIT_TASK 100 0 boot0, load0, acct0, INIT_TASK_mm 0 0 mm0) = Some (s', l', a', m') \<and>
     rt_inv {TaskSE 0, TaskSE 1} s' \<and> idle_cpu s' \<and> task_typed (tasks s' 0)"
proof -
  have hz: "HZ (kernel kernel0) = 100" by (simp add: kernel0_def env0_def)
  have "boot_memory (HZ (kernel kernel0)) 0 0 (boot0, load0, acct0, mm0)"
    using mm_boot0
    by (simp add: boot_memory_def boot0_def state0_def task0_def rt_rq0_def root_task_group_def empty_rq_def load0_def fun_eq_iff)
  from sched_init_establishes [OF this, of "{TaskSE 0, TaskSE 1}" 5] show ?thesis unfolding hz by fastforce
qed

end
