(* ===== verification/Core_Affinity.thy ===== *)
theory Core_Affinity
  imports Core_Switch
begin

text \<open>
  The affinity system calls of \<open>kernel/sched/core.c\<close> on one processor. A CPU mask is one \<open>unsigned long\<close> of which
  bit 0 matters. What \<open>cpuset_cpus_allowed\<close> reads, one value per call, the allocations, the capability and the user's
  memory are arguments; \<open>cpus_allowed\<close> of a task never changes with one processor.
\<close>

type_synonym cpumask = ulong

definition cpumask_size :: u32 where "cpumask_size = 4"

text \<open>Of \<open>include/linux/sched.h\<close>, without SMP.\<close>

definition set_cpus_allowed_ptr :: "cpumask \<Rightarrow> int" where
  "set_cpus_allowed_ptr new_mask = (if \<not> bit new_mask 0 then - EINVAL else 0)"

definition cpumask_subset :: "cpumask \<Rightarrow> cpumask \<Rightarrow> bool" where
  "cpumask_subset m1 m2 \<longleftrightarrow> (bit m1 0 \<longrightarrow> bit m2 0)"

section \<open>Setting\<close>

text \<open>From the label \<open>again\<close>; the list holds what the following calls of \<open>cpuset_cpus_allowed\<close> read. \<open>None\<close>: they ran out.\<close>

fun set_again :: "cpumask \<Rightarrow> cpumask list \<Rightarrow> int option" where
  "set_again new_mask [] = (if set_cpus_allowed_ptr new_mask \<noteq> 0 then Some (set_cpus_allowed_ptr new_mask) else None)"
| "set_again new_mask (cpus_allowed # reads) =
     (if set_cpus_allowed_ptr new_mask \<noteq> 0 then Some (set_cpus_allowed_ptr new_mask)
      else if \<not> cpumask_subset new_mask cpus_allowed then set_again cpus_allowed reads
      else Some 0)"

definition sched_setaffinity ::
    "kservices \<Rightarrow> bool \<times> bool \<Rightarrow> (task \<Rightarrow> bool) \<Rightarrow> cpumask list \<Rightarrow> pid_t \<Rightarrow> cpumask \<Rightarrow> sched_state \<Rightarrow> mm_state \<Rightarrow>
     (int \<times> mm_state) option" where
  "sched_setaffinity K alloc ns_capable_nice reads n in_mask s m =
     (case find_process_by_pid K s n of
        None \<Rightarrow> Some (- ESRCH, m)
      | Some p \<Rightarrow>
          let m1 = get_task_struct p m;
              retval =
                (if \<not> fst alloc then Some (- ENOMEM)
                 else if \<not> snd alloc then Some (- ENOMEM)
                 else if \<not> check_same_owner K p s \<and> \<not> ns_capable_nice p then Some (- EPERM)
                 else if security_setscheduler K p \<noteq> 0 then Some (security_setscheduler K p)
                 else case reads of [] \<Rightarrow> None | cpus_allowed # rest \<Rightarrow> set_again (in_mask AND cpus_allowed) rest)
          in map_option (\<lambda>r. (r, put_task_struct p m1)) retval)"

text \<open>\<open>user\<close> is the user's memory from the pointer up to the first byte that cannot be read; bytes are little endian.\<close>

definition get_user_cpu_mask :: "u8 list \<Rightarrow> u32 \<Rightarrow> int \<times> cpumask" where
  "get_user_cpu_mask user len =
     (let n = (if len > cpumask_size then cpumask_size else len) in
      if unat n \<le> length user
      then (0, foldr (\<lambda>b acc. ucast b OR push_bit 8 acc) (take (unat n) user) 0)
      else (- EFAULT, 0))"

definition sys_sched_setaffinity ::
    "kservices \<Rightarrow> bool \<Rightarrow> bool \<times> bool \<Rightarrow> (task \<Rightarrow> bool) \<Rightarrow> cpumask list \<Rightarrow> pid_t \<Rightarrow> u32 \<Rightarrow> u8 list \<Rightarrow> sched_state \<Rightarrow> mm_state \<Rightarrow>
     (int \<times> mm_state) option" where
  "sys_sched_setaffinity K alloc0 alloc ns_capable_nice reads n len user s m =
     (if \<not> alloc0 then Some (- ENOMEM, m)
      else
        case get_user_cpu_mask user len of
          (retval, new_mask) \<Rightarrow>
            if retval = 0 then sched_setaffinity K alloc ns_capable_nice reads n new_mask s m else Some (retval, m))"

section \<open>Getting\<close>

definition sched_getaffinity :: "kservices \<Rightarrow> (task \<Rightarrow> cpumask) \<Rightarrow> cpumask \<Rightarrow> pid_t \<Rightarrow> sched_state \<Rightarrow> int \<times> cpumask" where
  "sched_getaffinity K cpus_allowed cpu_online_mask n s =
     (case find_process_by_pid K s n of
        None \<Rightarrow> (- ESRCH, 0)
      | Some p \<Rightarrow>
          if security_getscheduler K p \<noteq> 0 then (security_getscheduler K p, 0)
          else (0, cpus_allowed p AND cpu_online_mask))"

text \<open>The result and the bytes copied out; \<open>room\<close> is the number of bytes that can be written at the pointer.\<close>

definition sys_sched_getaffinity ::
    "kservices \<Rightarrow> bool \<Rightarrow> (task \<Rightarrow> cpumask) \<Rightarrow> cpumask \<Rightarrow> pid_t \<Rightarrow> u32 \<Rightarrow> nat \<Rightarrow> sched_state \<Rightarrow> int \<times> u8 list" where
  "sys_sched_getaffinity K alloc cpus_allowed cpu_online_mask n len room s =
     (if len * 8 < 1 then (- EINVAL, [])
      else if len AND 3 \<noteq> 0 then (- EINVAL, [])
      else if \<not> alloc then (- ENOMEM, [])
      else
        case sched_getaffinity K cpus_allowed cpu_online_mask n s of
          (ret, msk) \<Rightarrow>
            if ret = 0 then
              let retlen = min len cpumask_size;
                  bytes = map (\<lambda>i. ucast (drop_bit (8 * i) msk)) [0..<unat retlen]
              in if unat retlen \<le> room then (uint retlen, bytes) else (- EFAULT, take room bytes)
            else (ret, []))"

end
