(* ===== verification/Core_Affinity_Proofs.thy ===== *)
theory Core_Affinity_Proofs
  imports Core_Affinity Core_Switch_Proofs
begin

text \<open>The result of the affinity system calls on every path, and that no path keeps or loses a reference to the task.\<close>

lemma user_mask_bit0: "bit (foldr (\<lambda>b acc. ucast b OR push_bit 8 acc) bs 0 :: ulong) 0 \<longleftrightarrow> (bs \<noteq> [] \<and> bit (hd bs :: u8) 0)"
  by (cases bs) (simp_all add: bit_simps)

text \<open>On one processor the loop ends in its second round: a mask without the processor is refused.\<close>

lemma set_again_outcome:
  "set_again new_mask (c # reads) = Some (if bit new_mask 0 \<and> bit c 0 then 0 else - EINVAL)"
  by (cases reads) (simp_all add: set_cpus_allowed_ptr_def cpumask_subset_def)

lemma get_put_task_struct: "usage m p \<noteq> 0 \<Longrightarrow> put_task_struct p (get_task_struct p m) = m"
  by (simp add: put_task_struct_def get_task_struct_def Let_def)

text \<open>C20: \<open>sched_setaffinity\<close> returns whatever the set of allowed processors does meanwhile: its errors come in the order
  memory, bad pointer, no such process, memory, permission, security, and then no usable processor (the processor is not in
  the mask, or not in what the two reads of the allowed set gave); only then 0. On every path the reference it takes to the
  process is given back and nothing else changes.\<close>

theorem setaffinity_outcome:
  assumes "\<forall>p. find_process_by_pid K s n = Some p \<longrightarrow> usage m p \<noteq> 0"
  shows "sys_sched_setaffinity K alloc0 alloc ns_capable_nice (c0 # c1 # reads) n len user s m =
    Some (if \<not> alloc0 then - ENOMEM
          else if length user < min (unat len) 4 then - EFAULT
          else case find_process_by_pid K s n of
              None \<Rightarrow> - ESRCH
            | Some p \<Rightarrow>
                if alloc \<noteq> (True, True) then - ENOMEM
                else if \<not> check_same_owner K p s \<and> \<not> ns_capable_nice p then - EPERM
                else if security_setscheduler K p \<noteq> 0 then security_setscheduler K p
                else if 0 < len \<and> bit (hd user) 0 \<and> bit c0 0 \<and> bit c1 0 then 0 else - EINVAL, m)"
proof -
  define k where "k = (if len > cpumask_size then cpumask_size else len)"
  have k: "unat k = min (unat len) 4" by (simp add: k_def cpumask_size_def word_less_nat_alt)
  have g: "get_user_cpu_mask user len = (if unat k \<le> length user
      then (0, foldr (\<lambda>b acc. ucast b OR push_bit 8 acc) (take (unat k) user) 0) else (- EFAULT, 0))"
    by (simp add: get_user_cpu_mask_def k_def Let_def)
  have b: "bit (foldr (\<lambda>b acc. ucast b OR push_bit 8 acc) (take (unat k) user) 0 :: ulong) 0 \<longleftrightarrow> 0 < len \<and> bit (hd user) 0"
    if "unat k \<le> length user"
  proof -
    have "take (unat k) user \<noteq> [] \<longleftrightarrow> 0 < len" using that by (auto simp: k word_less_nat_alt)
    moreover have "hd (take (unat k) user) = hd user" if "0 < len" using that by (simp add: k word_less_nat_alt)
    ultimately show ?thesis unfolding user_mask_bit0 by auto
  qed
  show ?thesis
  proof (cases "unat k \<le> length user")
    case True
    define M where "M = (foldr (\<lambda>b acc. ucast b OR push_bit 8 acc) (take (unat k) user) 0 :: ulong)"
    have "sys_sched_setaffinity K alloc0 alloc ns_capable_nice (c0 # c1 # reads) n len user s m =
      (if \<not> alloc0 then Some (- ENOMEM, m)
       else sched_setaffinity K alloc ns_capable_nice (c0 # c1 # reads) n
         M s m)"
      using True by (simp add: sys_sched_setaffinity_def g M_def)
    moreover have "\<not> length user < min (unat len) 4" using True unfolding k by linarith
    moreover have "sched_setaffinity K alloc ns_capable_nice (c0 # c1 # reads) n M s m =
      Some (case find_process_by_pid K s n of
              None \<Rightarrow> - ESRCH
            | Some p \<Rightarrow>
                if alloc \<noteq> (True, True) then - ENOMEM
                else if \<not> check_same_owner K p s \<and> \<not> ns_capable_nice p then - EPERM
                else if security_setscheduler K p \<noteq> 0 then security_setscheduler K p
                else if 0 < len \<and> bit (hd user) 0 \<and> bit c0 0 \<and> bit c1 0 then 0 else - EINVAL, m)"
    proof (cases "find_process_by_pid K s n")
      case (Some p)
      then have "put_task_struct p (get_task_struct p m) = m" using assms by (simp add: get_put_task_struct)
      moreover have "bit (M AND c0) 0 \<longleftrightarrow> (0 < len \<and> bit (hd user) 0) \<and> bit c0 0"
        using b [OF True] by (simp add: M_def [symmetric] bit_and_iff)
      ultimately show ?thesis
        using Some by (cases alloc) (simp add: sched_setaffinity_def set_again_outcome Let_def del: set_again.simps)
    qed (simp add: sched_setaffinity_def)
    ultimately show ?thesis by (simp only: if_False split: if_split) simp
  next
    case False
    then have "get_user_cpu_mask user len = (- EFAULT, 0)" "length user < min (unat len) 4"
      using k by (simp only: g if_False, linarith)
    then show ?thesis by (simp add: sys_sched_setaffinity_def)
  qed
qed

theorem setaffinity_outcome_witness:
  "sys_sched_setaffinity kernel0 True (True, True) (\<lambda>_. False) [1, 1] 3 4 [1, 0, 0, 0] state0 mm0 = Some (0, mm0) \<and>
   sys_sched_setaffinity kernel0 True (True, True) (\<lambda>_. False) [1, 0] 3 4 [1, 0, 0, 0] state0 mm0 = Some (- EINVAL, mm0) \<and>
   sys_sched_setaffinity kernel0 True (True, True) (\<lambda>_. False) [1, 1] 3 4 [1, 0] state0 mm0 = Some (- EFAULT, mm0)"
proof -
  have u: "\<forall>p. find_process_by_pid kernel0 state0 3 = Some p \<longrightarrow> usage mm0 p \<noteq> 0" by (simp add: mm0_def)
  have f: "find_process_by_pid kernel0 state0 3 = Some 3" by (simp add: find_process_by_pid_def kernel0_def)
  have c: "check_same_owner kernel0 3 state0" "security_setscheduler kernel0 3 = 0"
    by (simp_all add: check_same_owner_def kernel0_def)
  show ?thesis
    unfolding setaffinity_outcome [OF u] by (simp add: f c)
qed

text \<open>\<open>sched_getaffinity\<close> copies out four bytes whatever longer buffer is offered, or nothing with an error.\<close>

lemma getaffinity_outcome:
  assumes "sys_sched_getaffinity K alloc cpus_allowed online n len room s = (r, bytes)" "0 \<le> r"
    and "security_getscheduler K ` UNIV \<subseteq> {x. x \<le> 0}"
  shows "r = 4 \<and> length bytes = 4 \<and> 4 \<le> room"
proof -
  have l: "4 \<le> len" if "\<not> len * 8 < 1" "len AND 3 = 0"
  proof (rule ccontr)
    assume "\<not> 4 \<le> len"
    then have "unat len < 4" by (simp add: not_le word_less_nat_alt)
    then have "unat len \<in> {0, 1, 2, 3}" by auto
    moreover have "len = of_nat (unat len)" by simp
    ultimately have "len = 0 \<or> len = 1 \<or> len = 2 \<or> len = 3" by (elim insertE emptyE) simp_all
    with that show False by (elim disjE) simp_all
  qed
  obtain x y where g: "sched_getaffinity K cpus_allowed online n s = (x, y)" by fastforce
  have "x \<le> 0" using assms(3) g by (auto simp: sched_getaffinity_def split: option.splits if_splits)
  moreover have "min len 4 = 4" if "4 \<le> len" using that by (simp add: min_def)
  ultimately show ?thesis
    using assms(1,2) l by (auto simp: sys_sched_getaffinity_def cpumask_size_def Let_def g split: if_splits)
qed

end
