(* ===== verification/Core_Queues.thy ===== *)
theory Core_Queues
  imports Core_Proofs
begin

text \<open>
  The run queues of all classes together. The abstract state is a map from the queued tasks to
  their classes; \<open>queues\<close> says that the arrays of the real-time class, the list of the race-averse
  class and the counters of the run queue implement it. The locale \<open>class_queues\<close> is what the core
  relies on of every class, and both classes of the repository satisfy it.
\<close>

section \<open>What the real-time class leaves to the others\<close>

definition q_same :: "sched_state \<Rightarrow> sched_state \<Rightarrow> bool" where
  "q_same s s' \<longleftrightarrow> nr_running (rq s') = nr_running (rq s) \<and> cfs_h_nr_running (rq s') = cfs_h_nr_running (rq s) \<and>
     rq_ras (rq s') = rq_ras (rq s) \<and> (\<forall>t. ras (tasks s' t) = ras (tasks s t)) \<and>
     (\<forall>g. tg_rt_se (tgs s' g) = tg_rt_se (tgs s g))"

lemma q_same_refl [simp]: "q_same s s"
  by (simp add: q_same_def)

lemma q_same_trans: "\<lbrakk>q_same s t; q_same t u\<rbrakk> \<Longrightarrow> q_same s u"
  by (simp add: q_same_def)

lemma q_same_if: "\<lbrakk>q_same s a; q_same s b\<rbrakk> \<Longrightarrow> q_same s (if c then a else b)"
  by simp

lemma q_same_upd [simp]:
  "(\<And>t. ras (f t) = ras t) \<Longrightarrow> q_same s (upd_task p f s)"
  "(\<And>r. nr_running (g r) = nr_running r \<and> cfs_h_nr_running (g r) = cfs_h_nr_running r \<and> rq_ras (g r) = rq_ras r) \<Longrightarrow>
    q_same s (upd_rq g s)"
  "q_same s (upd_rt_rq h u s)" "q_same s (upd_rt_se e v s)" "q_same s (emit ev s)" "q_same s (resched_task p s)"
  "q_same s (set_tsk_need_resched p s)" "q_same s (clear_tsk_need_resched p s)" "q_same s (cpuacct_charge p d s)"
  "q_same s (start_rt_bandwidth x s)" "q_same s (upd_leaf_list lf s)" "q_same s (upd_queue x i k s)"
  "q_same s (set_bitmap x i b s)" "q_same s (update_rq_clock K s)"
  by (simp_all add: q_same_def upd_defs resched_task_def set_tsk_need_resched_def clear_tsk_need_resched_def
      start_rt_bandwidth_def upd_leaf_list_def upd_queue_def set_bitmap_def update_rq_clock_def update_rq_clock_task_def Let_def)

lemma q_same_fold: "(\<And>x st. q_same st (f x st)) \<Longrightarrow> q_same s (fold f xs s)"
  by (induction xs arbitrary: s) (simp_all, metis q_same_trans)

lemma q_same_entity1 [simp]: "q_same s (enqueue_rt_entity1 head e s)" "q_same s (dequeue_rt_entity1 e s)"
proof -
  have inc: "q_same st (inc_rt_tasks e g st)" "q_same st (dec_rt_tasks e g st)" for g st
    by (auto simp: q_same_def inc_rt_tasks_def dec_rt_tasks_def inc_rt_group_def dec_rt_group_def Let_def upd_rt_rq_def
        start_rt_bandwidth_def emit_def split: option.split)
  show "q_same s (enqueue_rt_entity1 head e s)"
    unfolding enqueue_rt_entity1_def Let_def
    by (intro q_same_if q_same_refl) (rule q_same_trans [OF _ inc(1)], rule q_same_trans [OF _ q_same_upd(13)],
      rule q_same_trans [OF _ q_same_upd(12)], simp)+
  show "q_same s (dequeue_rt_entity1 e s)"
  proof -
    have d: "q_same s (dec_rt_tasks e g (if c then set_bitmap g i b (upd_rt_rq g u s) else upd_rt_rq g u s))" for g c i b u
      by (rule q_same_trans [OF _ inc(2)]) (simp add: q_same_trans [OF q_same_upd(3) q_same_upd(13)])
    show ?thesis
      unfolding dequeue_rt_entity1_def Let_def by (intro q_same_if d q_same_trans [OF d q_same_upd(11)])
  qed
qed

lemma q_same_entity [simp]:
  "q_same s (enqueue_rt_entity head e s)" "q_same s (dequeue_rt_entity e s)"
proof -
  have st: "q_same s (dequeue_rt_stack e s)" for s e
    unfolding dequeue_rt_stack_def by (rule q_same_fold) simp
  show "q_same s (enqueue_rt_entity head e s)"
    unfolding enqueue_rt_entity_def by (rule q_same_trans [OF st q_same_fold]) simp
  show "q_same s (dequeue_rt_entity e s)"
    unfolding dequeue_rt_entity_def by (rule q_same_trans [OF st q_same_fold]) (simp split: option.split)
qed

text \<open>The real-time entities and the entity of each group, linked to the queue it owns.\<close>

definition rt_linked :: "rt_se set \<Rightarrow> sched_state \<Rightarrow> bool" where
  "rt_linked E s \<longleftrightarrow> rt_inv E s \<and> (\<forall>g. group_linked E g s)"

definition rt_quiet :: "rt_se set \<Rightarrow> sched_state \<Rightarrow> sched_state \<Rightarrow> bool" where
  "rt_quiet E s s' \<longleftrightarrow> rt_keeps E s s' \<and> q_same s s' \<and> (\<forall>p. rt_queued s' (TaskSE p) = rt_queued s (TaskSE p))"

lemma rt_quiet_trans: "\<lbrakk>rt_quiet E s t; rt_quiet E t u\<rbrakk> \<Longrightarrow> rt_quiet E s u"
  unfolding rt_quiet_def using rt_keeps_trans q_same_trans by blast

lemma rt_quiet_same: "\<lbrakk>rt_linked E s; rt_same s s'; q_same s s'\<rbrakk> \<Longrightarrow> rt_quiet E s s'"
  by (simp add: rt_quiet_def rt_linked_def rt_keeps_same rt_same_queued)

lemma rt_linked_keeps:
  assumes "rt_linked E s" "rt_keeps E s s'" "q_same s s'"
  shows "rt_linked E s'"
proof -
  have e: "my_q (rt_ses s' y) = my_q (rt_ses s y)" "tg_rt_se (tgs s' g) = tg_rt_se (tgs s g)" for y g
    using assms(2,3) by (simp_all add: rt_keeps_def q_same_def)
  show ?thesis using assms(1) rt_keeps_inv [OF assms(2)] unfolding rt_linked_def group_linked_def e by simp
qed

lemma rt_quiet_linked: "\<lbrakk>rt_linked E s; rt_quiet E s s'\<rbrakk> \<Longrightarrow> rt_linked E s'"
  by (rule rt_linked_keeps) (auto simp: rt_quiet_def)

lemma rt_linked_group:
  assumes "rt_linked E s" "tg_rt_se (tgs s g) = Some x"
  shows "x \<in> E" "my_q (rt_ses s x) = Some g" "\<exists>h. x = GroupSE h"
proof -
  have "group_linked E g s" using assms(1) by (simp add: rt_linked_def)
  then show x: "x \<in> E" "my_q (rt_ses s x) = Some g" using assms(2) by (auto simp: group_linked_def)
  show "\<exists>h. x = GroupSE h"
    using x(2) hierD(3) [OF rt_invD(3)] assms(1) by (cases x) (auto simp: rt_linked_def)
qed

lemma task_in_chain:
  "TaskSE q \<in> set (se_chain ses (TaskSE p)) \<longleftrightarrow> q = p" "TaskSE q \<notin> set (se_chain ses (GroupSE g))"
  using in_chain_below [of "TaskSE q" ses "TaskSE p"] in_chain_below [of "TaskSE q" ses "GroupSE g"]
  by (auto simp: se_chain.simps [of ses "TaskSE p"])

lemma rt_quiet_group:
  assumes "rt_linked E s" "GroupSE h \<in> E"
  shows "rt_quiet E s (dequeue_rt_entity (GroupSE h) s)" "rt_quiet E s (enqueue_rt_entity head (GroupSE h) s)"
proof -
  have inv: "rt_inv E s" using assms(1) by (simp add: rt_linked_def)
  have q: "my_q (rt_ses s (GroupSE h)) \<noteq> None" using rt_invD(7) [OF inv assms(2)] .
  show "rt_quiet E s (dequeue_rt_entity (GroupSE h) s)"
    using dequeue_rt_entity_inv [OF inv assms(2)] task_in_chain(2) by (simp add: rt_quiet_def rt_keeps_def)
  show "rt_quiet E s (enqueue_rt_entity head (GroupSE h) s)"
    using enqueue_rt_entity_inv [OF inv assms(2)] q task_in_chain(2) by (simp add: rt_quiet_def rt_keeps_def)
qed

lemma rt_quiet_rq_dequeue: "rt_linked E s \<Longrightarrow> rt_quiet E s (sched_rt_rq_dequeue g s)"
  using rt_quiet_same [of E s s] rt_linked_group [of E s] rt_quiet_group(1)
  by (auto simp: sched_rt_rq_dequeue_def split: option.split) metis+

lemma rt_quiet_rq_enqueue:
  assumes l: "rt_linked E s"
  shows "rt_quiet E s (sched_rt_rq_enqueue g s)"
proof -
  have s0: "rt_quiet E s s" by (rule rt_quiet_same [OF l]) simp_all
  have e: "rt_quiet E s (case x of Some x \<Rightarrow> if \<not> on_rt_rq s x then enqueue_rt_entity False x s else s | None \<Rightarrow> s)"
    if "x = (case rt_rq_tg (rt_rqs s g) of None \<Rightarrow> None | Some t \<Rightarrow> tg_rt_se (tgs s t))" for x
    using that s0 rt_linked_group [OF l] rt_quiet_group(2) [OF l] by (auto split: option.splits) metis
  have r: "rt_quiet E s (resched_task c t)" if "rt_quiet E s t" for t c
    using that rt_quiet_trans rt_quiet_same [OF rt_quiet_linked [OF l that] rt_same_ops(4) q_same_upd(6)] by blast
  show ?thesis unfolding sched_rt_rq_enqueue_def Let_def using s0 r e [OF refl] by simp
qed

lemma rt_quiet_fold:
  assumes "\<And>x st. rt_linked E st \<Longrightarrow> rt_quiet E st (f x st)" "rt_linked E s"
  shows "rt_quiet E s (fold f xs s)"
  using assms(2)
proof (induction xs arbitrary: s)
  case Nil
  then show ?case using rt_quiet_same [of E s s] by simp
next
  case (Cons x xs)
  then show ?case using assms(1) rt_quiet_linked rt_quiet_trans by (metis fold_simps(2))
qed

lemma rt_quiet_charge:
  assumes l: "rt_linked E s"
  shows "rt_quiet E s (charge_rt_entity d e s)"
proof -
  let ?g = "rt_rq_of (rt_ses s e)"
  let ?s1 = "upd_rt_rq ?g (\<lambda>r. r\<lparr>rt_time := rt_time r + d\<rparr>) s"
  obtain ex s2 where x: "sched_rt_runtime_exceeded ?g ?s1 = (ex, s2)" by fastforce
  have s1: "rt_quiet E s ?s1" by (rule rt_quiet_same [OF l]) simp_all
  note l1 = rt_quiet_linked [OF l s1]
  have u: "rt_quiet E ?s1 (upd_rt_rq ?g u ?s1) \<and> rt_quiet E ?s1 (sched_rt_rq_dequeue ?g (upd_rt_rq ?g u ?s1))"
    if "\<And>r. queue (u r) = queue r \<and> bitmap (u r) = bitmap r \<and> rt_nr_running (u r) = rt_nr_running r \<and>
      highest_prio_curr (u r) = highest_prio_curr r" for u
  proof -
    have "rt_quiet E ?s1 (upd_rt_rq ?g u ?s1)" using that by (intro rt_quiet_same [OF l1]) simp_all
    then show ?thesis using rt_quiet_rq_dequeue rt_quiet_linked [OF l1] rt_quiet_trans by blast
  qed
  have "rt_quiet E ?s1 (snd (sched_rt_runtime_exceeded ?g ?s1))"
    using rt_quiet_same [OF l1 rt_same_refl q_same_refl] by (auto simp: sched_rt_runtime_exceeded_def Let_def u)
  then have s2: "rt_quiet E s s2" using s1 rt_quiet_trans x by simp
  then have "rt_quiet E s (resched_task (curr (rq s2)) s2)"
    using rt_quiet_trans rt_quiet_same [OF rt_quiet_linked [OF l s2] rt_same_ops(4) q_same_upd(6)] by blast
  with s2 show ?thesis
    using rt_quiet_same [OF l rt_same_refl q_same_refl] by (simp add: charge_rt_entity_def Let_def x)
qed

lemma account_q_same:
  "q_same s (cpuacct_charge p d (upd_task p (\<lambda>t. t\<lparr>se := f t\<rparr>) (emit ev (upd_task p (\<lambda>t. t\<lparr>se := h t\<rparr>) s))))"
  by (simp add: q_same_def upd_defs)

lemma rt_quiet_update_curr:
  assumes l: "rt_linked E s"
  shows "rt_quiet E s (update_curr_rt s)"
proof -
  have f: "rt_quiet E s (if c then s else if b then st else fold (charge_rt_entity d) xs st)" if "rt_quiet E s st" for c b d xs st
  proof -
    have "rt_quiet E st (fold (charge_rt_entity d) xs st)"
      by (rule rt_quiet_fold [OF rt_quiet_charge rt_quiet_linked [OF l that]])
    then have "rt_quiet E s (fold (charge_rt_entity d) xs st)" by (rule rt_quiet_trans [OF that])
    then show ?thesis using that rt_quiet_same [OF l rt_same_refl q_same_refl] by presburger
  qed
  show ?thesis unfolding update_curr_rt_def Let_def by (rule f, rule rt_quiet_same [OF l account_same account_q_same])
qed

lemma rt_quiet_requeue:
  assumes l: "rt_linked E s"
  shows "rt_quiet E s (requeue_task_rt head p s)"
proof -
  have "rt_quiet E st (requeue_rt_entity head e st)" if "rt_linked E st" for e st
  proof -
    have inv: "rt_inv E st" using that by (simp add: rt_linked_def)
    let ?mv = "if head then list_move e else list_move_tail e"
    have m: "x \<in> set (queue (rt_rqs (requeue_rt_entity head e st) g) i) \<longleftrightarrow> x \<in> set (queue (rt_rqs st g) i)" for x g i
      using queued_at(1) [OF inv] on_rt_rq_iff [OF inv] by (auto simp: requeue_rt_entity_def upd_queue_def)
    have "q_same st (requeue_rt_entity head e st)" by (simp add: requeue_rt_entity_def)
    then show ?thesis using requeue_rt_entity_keeps [OF inv] m by (simp add: rt_quiet_def rt_queued_def)
  qed
  then show ?thesis unfolding requeue_task_rt_def using l by (rule rt_quiet_fold)
qed

lemma rt_quiet_tick:
  assumes l: "rt_linked E s"
  shows "rt_quiet E s (task_tick_rt env p s)"
proof -
  let ?s1 = "watchdog_rt env p (update_curr_rt s)"
  note s0 = rt_quiet_update_curr [OF l]
  have w: "q_same t (watchdog_rt env p t)" for t by (simp add: watchdog_rt_def Let_def q_same_def upd_defs)
  have s1: "rt_quiet E s ?s1" by (rule rt_quiet_trans [OF s0 rt_quiet_same [OF rt_quiet_linked [OF l s0] watchdog_rt_same w]])
  note l1 = rt_quiet_linked [OF l s1]
  have same: "rt_quiet E s st" if "rt_same ?s1 st" "q_same ?s1 st" for st
    by (rule rt_quiet_trans [OF s1 rt_quiet_same [OF l1 that]])
  have req: "rt_quiet E s (set_tsk_need_resched p (requeue_task_rt False p st))" if "rt_same ?s1 st" "q_same ?s1 st" for st
  proof -
    have r: "rt_quiet E s (requeue_task_rt False p st)"
      by (rule rt_quiet_trans [OF same [OF that] rt_quiet_requeue [OF rt_quiet_linked [OF l same [OF that]]]])
    show ?thesis by (rule rt_quiet_trans [OF r rt_quiet_same [OF rt_quiet_linked [OF l r] rt_same_ops(5) q_same_upd(7)]])
  qed
  have k: "rt_quiet E s (if c then a else if d then b else e)"
    if "rt_quiet E s a" "rt_quiet E s b" "rt_quiet E s e" for c d a b e
    using that by simp
  have em: "rt_same ?s1 (if c then emit ev ?s1 else ?s1) \<and> q_same ?s1 (if c then emit ev ?s1 else ?s1)" for c ev
    by (simp add: rt_same_def q_same_def upd_defs)
  have u: "rt_same ?s1 (upd_rt_se (TaskSE p) (\<lambda>x. x\<lparr>rt_time_slice := n x\<rparr>) st) \<and> q_same ?s1 (upd_rt_se (TaskSE p) (\<lambda>x. x\<lparr>rt_time_slice := n x\<rparr>) st)"
    if "rt_same ?s1 st \<and> q_same ?s1 st" for st n
    using that by (simp add: rt_same_def q_same_def upd_rt_se_def)
  have r: "rt_quiet E s (if c then set_tsk_need_resched p (requeue_task_rt False p st) else st)"
    if "rt_same ?s1 st \<and> q_same ?s1 st" for st c
    using that same req by simp
  have same': "rt_quiet E s st" if "rt_same ?s1 st \<and> q_same ?s1 st" for st using that same by blast
  show ?thesis
    unfolding task_tick_rt_def Let_def by (intro k) (rule same', rule em, rule same', rule u, rule em, rule r, rule u, rule u, rule em)
qed

section \<open>What the race-averse class leaves to the others\<close>

definition ras_quiet :: "sched_state \<Rightarrow> sched_state \<Rightarrow> bool" where
  "ras_quiet s s' \<longleftrightarrow> rt_same s s' \<and> tgs s' = tgs s \<and> cfs_h_nr_running (rq s') = cfs_h_nr_running (rq s)"

lemma ras_quiet_refl [simp]: "ras_quiet s s"
  by (simp add: ras_quiet_def)

lemma ras_quiet_trans: "\<lbrakk>ras_quiet s t; ras_quiet t u\<rbrakk> \<Longrightarrow> ras_quiet s u"
  unfolding ras_quiet_def using rt_same_trans by force

lemma ras_quiet_if: "\<lbrakk>ras_quiet s a; ras_quiet s b\<rbrakk> \<Longrightarrow> ras_quiet s (if c then a else b)"
  by simp

lemma ras_quiet_simple:
  "(\<And>t. prio (f t) = prio t) \<Longrightarrow> ras_quiet s (upd_task p f s)"
  "ras_quiet s (upd_ras_list h s)" "ras_quiet s (upd_ras_nr n s)" "ras_quiet s (inc_nr_running s)" "ras_quiet s (dec_nr_running s)"
  "ras_quiet s (emit ev s)" "ras_quiet s (set_tsk_need_resched p s)" "ras_quiet s (resched_task p s)"
  "ras_quiet s (update_curr_ras s)" "ras_quiet s (ras_refill env p s)" "ras_quiet s (watchdog_ras env p s)"
  by (simp_all add: ras_quiet_def rt_same_def upd_ras_list_def upd_ras_nr_def inc_nr_running_def dec_nr_running_def
      set_tsk_need_resched_def resched_task_def update_curr_ras_def ras_refill_def watchdog_ras_def Let_def upd_defs)

lemma ras_quiet_ops [simp]:
  "ras_quiet s (enqueue_task_ras env p flags s)" "ras_quiet s (dequeue_task_ras p flags s)"
  "ras_quiet s (put_prev_task_ras p s)" "ras_quiet s (task_tick_ras env p s)" "ras_quiet s (yield_task_ras s)"
  "ras_quiet s (snd (pick_next_task_ras s))" "ras_quiet s (check_preempt_curr_ras p flags s)"
  "ras_quiet s (set_curr_task_ras s)" "ras_quiet s (switched_to_ras p s)" "ras_quiet s (prio_changed_ras p o1 s)"
  "ras_quiet s (snd (get_rr_interval_ras env p s))"
proof -
  have t: "ras_quiet s (g st)" if "ras_quiet s st" "\<And>st. ras_quiet st (g st)" for g s st
    using that ras_quiet_trans by blast
  have u: "ras_quiet st (upd_task q (\<lambda>t. t\<lparr>ras := f t\<rparr>) st)" "ras_quiet st (upd_task q (\<lambda>t. t\<lparr>se := h t\<rparr>) st)" for st q f h
    by (simp_all add: ras_quiet_simple)
  note steps = ras_quiet_if t [OF _ ras_quiet_simple(2)] t [OF _ ras_quiet_simple(3)] t [OF _ ras_quiet_simple(4)]
    t [OF _ ras_quiet_simple(5)] t [OF _ ras_quiet_simple(6)] t [OF _ ras_quiet_simple(7)] t [OF _ ras_quiet_simple(8)] t [OF _ u(1)]
  note base = ras_quiet_simple(9) ras_quiet_simple(10) u ras_quiet_refl
  have w: "ras_quiet s (watchdog_ras env p (update_curr_ras s))"
    by (rule ras_quiet_trans [OF ras_quiet_simple(9) ras_quiet_simple(11)])
  show "ras_quiet s (enqueue_task_ras env p flags s)" unfolding enqueue_task_ras_def Let_def by (intro steps base)
  show "ras_quiet s (dequeue_task_ras p flags s)" unfolding dequeue_task_ras_def Let_def by (intro steps base)
  show "ras_quiet s (put_prev_task_ras p s)" unfolding put_prev_task_ras_def Let_def by (intro steps base)
  show "ras_quiet s (yield_task_ras s)" unfolding yield_task_ras_def by (intro steps base)
  show "ras_quiet s (task_tick_ras env p s)"
    unfolding task_tick_ras_def Let_def by (intro steps t [OF _ ras_quiet_simple(10)] w)
  show "ras_quiet s (snd (pick_next_task_ras s))"
    using base by (simp add: pick_next_task_ras_def split: list.split)
  show "ras_quiet s (check_preempt_curr_ras p flags s)" unfolding check_preempt_curr_ras_def Let_def by (intro steps base)
  show "ras_quiet s (set_curr_task_ras s)" "ras_quiet s (prio_changed_ras p o1 s)" "ras_quiet s (snd (get_rr_interval_ras env p s))"
    using base by (simp_all add: set_curr_task_ras_def prio_changed_ras_def get_rr_interval_ras_def Let_def)
  show "ras_quiet s (switched_to_ras p s)" unfolding switched_to_ras_def by (intro steps base)
qed

section \<open>The queues\<close>

text \<open>
  \<open>A\<close> maps each queued task to its class. A task is on at most one queue; the counters are the
  numbers of queued tasks and of fair ones.
\<close>

definition queues :: "rt_se set \<Rightarrow> kenv \<Rightarrow> (task \<Rightarrow> sched_class_id option) \<Rightarrow> sched_state \<Rightarrow> bool" where
  "queues E env A s \<longleftrightarrow> hz_ok env \<and> rt_linked E s \<and> ras_inv env s \<and>
     (\<forall>p. rt_queued s (TaskSE p) \<longleftrightarrow> A p = Some rt_sched_class) \<and>
     set (ras_q s) = {p. A p = Some ras_sched_class} \<and>
     (\<forall>p c. A p = Some c \<longrightarrow> TaskSE p \<in> E \<and> c \<noteq> idle_sched_class) \<and>
     nr_running (rq s) = of_nat (card (dom A)) \<and>
     cfs_h_nr_running (rq s) = of_nat (card {p. A p = Some fair_sched_class})"

lemma queuesD:
  assumes "queues E env A s"
  shows "hz_ok env" "rt_linked E s" "rt_inv E s" "ras_inv env s" "rt_queued s (TaskSE p) \<longleftrightarrow> A p = Some rt_sched_class"
    "p \<in> set (ras_q s) \<longleftrightarrow> A p = Some ras_sched_class" "A p = Some c \<Longrightarrow> TaskSE p \<in> E" "A p = Some c \<Longrightarrow> c \<noteq> idle_sched_class"
    "nr_running (rq s) = of_nat (card (dom A))" "cfs_h_nr_running (rq s) = of_nat (card {p. A p = Some fair_sched_class})"
    "finite (dom A)" "card (dom A) \<le> card E" "card (dom A) < 2 ^ 32"
proof -
  show "hz_ok env" "rt_linked E s" "rt_inv E s" "ras_inv env s" "rt_queued s (TaskSE p) \<longleftrightarrow> A p = Some rt_sched_class"
    "p \<in> set (ras_q s) \<longleftrightarrow> A p = Some ras_sched_class" "A p = Some c \<Longrightarrow> TaskSE p \<in> E" "A p = Some c \<Longrightarrow> c \<noteq> idle_sched_class"
    "nr_running (rq s) = of_nat (card (dom A))" "cfs_h_nr_running (rq s) = of_nat (card {p. A p = Some fair_sched_class})"
    using assms by (auto simp: queues_def rt_linked_def)
  have E: "TaskSE ` dom A \<subseteq> E" using assms by (auto simp: queues_def)
  have fin: "finite E" "card E < 2 ^ 32" using assms rt_invD(1,2) by (auto simp: queues_def rt_linked_def)
  have inj: "inj_on TaskSE (dom A)" by (simp add: inj_on_def)
  show "finite (dom A)" using E fin(1) finite_subset finite_imageD [OF _ inj] by blast
  show le: "card (dom A) \<le> card E" using card_mono [OF fin(1) E] card_image [OF inj] by simp
  with fin(2) show "card (dom A) < 2 ^ 32" by simp
qed

lemma queues_rt_quiet:
  assumes "queues E env A s" "rt_quiet E s s'"
  shows "queues E env A s'"
proof -
  have q: "q_same s s'" and r: "rt_queued s' (TaskSE p) = rt_queued s (TaskSE p)" for p
    using assms(2) unfolding rt_quiet_def by blast+
  have i: "ras_inv env s'" by (rule ras_invI [OF queuesD(4) [OF assms(1)]]) (use q in \<open>simp_all add: q_same_def\<close>)
  have e: "rq_ras (rq s') = rq_ras (rq s)" "nr_running (rq s') = nr_running (rq s)"
    "cfs_h_nr_running (rq s') = cfs_h_nr_running (rq s)" using q by (simp_all add: q_same_def)
  show ?thesis
    using assms(1) i rt_quiet_linked [OF queuesD(2) [OF assms(1)] assms(2)] unfolding queues_def e r by blast
qed

lemma queues_same: "\<lbrakk>queues E env A s; rt_same s s'; q_same s s'\<rbrakk> \<Longrightarrow> queues E env A s'"
  using queues_rt_quiet rt_quiet_same queuesD(2) by blast

lemma ras_quiet_linked: "\<lbrakk>rt_linked E s; ras_quiet s s'\<rbrakk> \<Longrightarrow> rt_linked E s'"
proof -
  assume l: "rt_linked E s" and q: "ras_quiet s s'"
  have "group_linked E g s' = group_linked E g s" for g
  proof -
    have e: "my_q (rt_ses s' y) = my_q (rt_ses s y)" "tgs s' = tgs s" for y using q by (simp_all add: ras_quiet_def rt_same_def)
    show ?thesis unfolding group_linked_def e ..
  qed
  then show ?thesis using l q rt_same_inv by (auto simp: rt_linked_def ras_quiet_def)
qed

lemma queues_ras_quiet:
  assumes "queues E env A s" "ras_quiet s s'" "ras_inv env s'" "set (ras_q s') = set (ras_q s)" "nr_running (rq s') = nr_running (rq s)"
  shows "queues E env A s'"
proof -
  have "rt_queued s' x = rt_queued s x" for x using assms(2) by (intro rt_same_queued) (simp add: ras_quiet_def)
  then show ?thesis
    using assms ras_quiet_linked [OF queuesD(2) [OF assms(1)] assms(2)] by (simp add: queues_def ras_quiet_def)
qed

text \<open>Adding a task to a queue and removing it.\<close>

lemma queues_add:
  assumes q: "queues E env A s" and p: "A p = None" "TaskSE p \<in> E" "c \<noteq> idle_sched_class"
    and s': "rt_linked E s'" "ras_inv env s'"
      "\<And>x. rt_queued s' (TaskSE x) \<longleftrightarrow> rt_queued s (TaskSE x) \<or> (x = p \<and> c = rt_sched_class)"
      "set (ras_q s') = (if c = ras_sched_class then insert p (set (ras_q s)) else set (ras_q s))"
      "nr_running (rq s') = nr_running (rq s) + 1"
      "cfs_h_nr_running (rq s') = (if c = fair_sched_class then cfs_h_nr_running (rq s) + 1 else cfs_h_nr_running (rq s))"
  shows "queues E env (A(p \<mapsto> c)) s'"
proof -
  have d: "dom (A(p \<mapsto> c)) = insert p (dom A)" "p \<notin> dom A" using p(1) by auto
  have k: "{x. (A(p \<mapsto> c)) x = Some k} = (if c = k then insert p {x. A x = Some k} else {x. A x = Some k})" for k
    using p(1) by auto
  have fin: "finite {x. A x = Some fair_sched_class}" by (rule finite_subset [OF _ queuesD(11) [OF q]]) auto
  have "nr_running (rq s') = of_nat (card (dom (A(p \<mapsto> c))))"
    unfolding d(1) s'(5) queuesD(9) [OF q] using queuesD(11) [OF q] d(2) by (simp add: add.commute)
  moreover have "cfs_h_nr_running (rq s') = of_nat (card {x. (A(p \<mapsto> c)) x = Some fair_sched_class})"
    unfolding k s'(6) queuesD(10) [OF q] using fin p(1) by (simp add: add.commute)
  moreover have "set (ras_q s') = {x. (A(p \<mapsto> c)) x = Some ras_sched_class}"
    unfolding k s'(4) using queuesD(6) [OF q] by auto
  moreover have "rt_queued s' (TaskSE x) \<longleftrightarrow> (A(p \<mapsto> c)) x = Some rt_sched_class" for x
    unfolding s'(3) queuesD(5) [OF q] using p(1) by auto
  ultimately show ?thesis
    unfolding queues_def using queuesD(1) [OF q] s'(1,2) p(2,3) queuesD(7,8) [OF q] by auto
qed

lemma queues_remove:
  assumes q: "queues E env A s" and p: "A p = Some c"
    and s': "rt_linked E s'" "ras_inv env s'"
      "\<And>x. rt_queued s' (TaskSE x) \<longleftrightarrow> rt_queued s (TaskSE x) \<and> \<not> (x = p \<and> c = rt_sched_class)"
      "set (ras_q s') = (if c = ras_sched_class then set (ras_q s) - {p} else set (ras_q s))"
      "nr_running (rq s') = nr_running (rq s) - 1"
      "cfs_h_nr_running (rq s') = (if c = fair_sched_class then cfs_h_nr_running (rq s) - 1 else cfs_h_nr_running (rq s))"
  shows "queues E env (A(p := None)) s'"
proof -
  have less: "(of_nat (card (X - {p})) :: ulong) = of_nat (card X) - 1" if "finite X" "p \<in> X" for X :: "task set"
    using card_Suc_Diff1 [OF that] by (metis add_diff_cancel_left' of_nat_Suc)
  have d: "dom (A(p := None)) = dom A - {p}" "p \<in> dom A" using p by auto
  have k: "{x. (A(p := None)) x = Some k} = (if c = k then {x. A x = Some k} - {p} else {x. A x = Some k})" for k
    using p by auto
  have fin: "finite {x. A x = Some fair_sched_class}" by (rule finite_subset [OF _ queuesD(11) [OF q]]) auto
  have "nr_running (rq s') = of_nat (card (dom (A(p := None))))"
    unfolding d(1) s'(5) queuesD(9) [OF q] using less [OF queuesD(11) [OF q] d(2)] by simp
  moreover have "cfs_h_nr_running (rq s') = of_nat (card {x. (A(p := None)) x = Some fair_sched_class})"
    unfolding k s'(6) queuesD(10) [OF q] using less [OF fin] p by simp
  moreover have "set (ras_q s') = {x. (A(p := None)) x = Some ras_sched_class}"
    unfolding k s'(4) using queuesD(6) [OF q] by auto
  moreover have "rt_queued s' (TaskSE x) \<longleftrightarrow> (A(p := None)) x = Some rt_sched_class" for x
    unfolding s'(3) queuesD(5) [OF q] using p by auto
  ultimately show ?thesis
    unfolding queues_def using queuesD(1) [OF q] s'(1,2) queuesD(7,8) [OF q] by auto
qed

section \<open>The contract of a class\<close>

definition on_queue :: "sched_state \<Rightarrow> task \<Rightarrow> sched_class_id option" where
  "on_queue s p = (if on_rq (tasks s p) then Some (sched_class (tasks s p)) else None)"

lemma on_queue_ids: "ids_same s s' \<Longrightarrow> on_queue s' = on_queue s"
  by (rule ext) (simp add: on_queue_def ids_same_fields(6,8))

text \<open>
  Enqueueing and dequeueing move one task on and off the queue of the class, every other operation
  leaves all queues as they are, and picking always ends, at a queued task of the class or, for the
  idle class, at the idle task.
\<close>

locale class_queues = class_keeps ops for ops :: class_ops +
  fixes c :: sched_class_id and env :: kenv
  assumes q_enqueue: "\<lbrakk>queues E env A s; A p = None; TaskSE p \<in> E; c \<noteq> idle_sched_class;
      c = rt_sched_class \<Longrightarrow> prio (tasks s p) \<in> rt_prios\<rbrakk> \<Longrightarrow> queues E env (A(p \<mapsto> c)) (enqueue_op ops p flags s)"
    and q_dequeue: "\<lbrakk>queues E env A s; A p = Some c\<rbrakk> \<Longrightarrow> queues E env (A(p := None)) (dequeue_op ops p flags s)"
    and q_yield: "queues E env A s \<Longrightarrow> queues E env A (yield_op ops s)"
    and q_check_preempt: "queues E env A s \<Longrightarrow> queues E env A (check_preempt_op ops p flags s)"
    and q_put_prev: "queues E env A s \<Longrightarrow> queues E env A (put_prev_op ops p s)"
    and q_set_curr: "queues E env A s \<Longrightarrow> queues E env A (set_curr_op ops s)"
    and q_task_tick: "queues E env A s \<Longrightarrow> queues E env A (task_tick_op ops p s)"
    and q_switched_from: "\<lbrakk>queues E env A s; switched_from_op ops = Some f\<rbrakk> \<Longrightarrow> queues E env A (f p s)"
    and q_switched_to: "queues E env A s \<Longrightarrow> queues E env A (switched_to_op ops p s)"
    and q_prio_changed: "queues E env A s \<Longrightarrow> queues E env A (prio_changed_op ops p oldprio s)"
    and q_task_fork: "\<lbrakk>queues E env A s; A p = None; task_fork_op ops = Some k\<rbrakk> \<Longrightarrow> queues E env A (k p s)"
    and q_task_move: "\<lbrakk>queues E env A s; A p = None; task_move_group_op ops = Some m\<rbrakk> \<Longrightarrow> queues E env A (m p q s)"
    and q_rr_interval: "queues E env A s \<Longrightarrow> queues E env A (snd (get_rr_interval_op ops p s))"
    and q_pick: "\<lbrakk>queues E env (on_queue s) s; pick_next_op ops s = Some (r, s')\<rbrakk> \<Longrightarrow> queues E env (on_queue s) s'"
    and pick_queued: "\<lbrakk>queues E env (on_queue s) s; pick_next_op ops s = Some (Some p, s')\<rbrakk> \<Longrightarrow>
      on_queue s p = Some c \<or> c = idle_sched_class \<and> p = idle (rq s)"
    and pick_ends: "queues E env (on_queue s) s \<Longrightarrow> \<exists>r s'. pick_next_op ops s = Some (r, s') \<and> (c = idle_sched_class \<longrightarrow> r \<noteq> None)"
begin

text \<open>Putting the previous task of the class back and picking the next one leaves the queues alone.\<close>

lemma q_switch:
  assumes "queues E env (on_queue s) s" "pick_next_op ops (put_prev_op ops p s) = Some (r, s')"
  shows "queues E env (on_queue s) s'"
  using q_pick [OF _ assms(2)] q_put_prev [OF assms(1)] on_queue_ids [OF put_prev_ids] by simp

text \<open>Taking a queued task off and putting it back, as a change of its group does.\<close>

lemma q_requeue:
  assumes q: "queues E env A s" and p: "A p = Some c"
    and pr: "c = rt_sched_class \<Longrightarrow> prio (tasks s p) \<in> rt_prios"
  shows "queues E env A (enqueue_op ops p flags (dequeue_op ops p flags' s))"
proof -
  have "queues E env ((A(p := None))(p \<mapsto> c)) (enqueue_op ops p flags (dequeue_op ops p flags' s))"
  proof (rule q_enqueue [OF q_dequeue [OF q p]])
    show "TaskSE p \<in> E" "c \<noteq> idle_sched_class" using queuesD(7,8) [OF q p] by blast+
    show "prio (tasks (dequeue_op ops p flags' s) p) \<in> rt_prios" if "c = rt_sched_class"
      using pr [OF that] by (simp add: ids_same_fields(4) [OF dequeue_ids])
  qed simp
  moreover have "(A(p := None))(p \<mapsto> c) = A" using p by auto
  ultimately show ?thesis by simp
qed

end

section \<open>The two classes of the repository\<close>

text \<open>The two ends of a change of the real-time queues: the entity, then the counter.\<close>

lemma rt_counted:
  assumes q: "queues E env A s" and l: "rt_linked E t" and qs: "q_same s t"
    and f: "f = inc_nr_running \<or> f = dec_nr_running"
  shows "rt_linked E (f t)" "ras_inv env (f t)" "set (ras_q (f t)) = set (ras_q s)"
    "cfs_h_nr_running (rq (f t)) = cfs_h_nr_running (rq s)" "rt_queued (f t) x = rt_queued t x"
proof -
  show "rt_linked E (f t)" using f ras_quiet_linked [OF l] ras_quiet_simple(4,5) by blast
  have e: "rq_ras (rq (f t)) = rq_ras (rq s)" "ras (tasks (f t) p) = ras (tasks s p)" for p
    using f qs by (auto simp: q_same_def inc_nr_running_def dec_nr_running_def upd_rq_def)
  show "ras_inv env (f t)" by (rule ras_invI [OF queuesD(4) [OF q]]) (simp_all add: e)
  show "set (ras_q (f t)) = set (ras_q s)" by (simp add: e)
  show "cfs_h_nr_running (rq (f t)) = cfs_h_nr_running (rq s)"
    using f qs by (auto simp: q_same_def inc_nr_running_def dec_nr_running_def upd_rq_def)
  show "rt_queued (f t) x = rt_queued t x" using f rt_same_queued rt_same_ops(6,7) by blast
qed

lemma rt_enqueue_queues:
  assumes q: "queues E env A s" and p: "A p = None" "TaskSE p \<in> E" "prio (tasks s p) \<in> rt_prios"
  shows "queues E env (A(p \<mapsto> rt_sched_class)) (enqueue_task_rt p flags s)"
proof -
  define h where "h = flag_set flags ENQUEUE_HEAD"
  define s1 where "s1 = (if flag_set flags ENQUEUE_WAKEUP then upd_rt_se (TaskSE p) (\<lambda>x. x\<lparr>rt_timeout := 0\<rparr>) s else s)"
  define s2 where "s2 = enqueue_rt_entity h (TaskSE p) s1"
  have s1: "rt_same s s1" "q_same s s1" by (simp_all add: s1_def)
  have t1: "tasks s1 = tasks s" by (simp add: s1_def upd_rt_se_def)
  have q1: "queues E env A s1" by (rule queues_same [OF q s1(1,2)])
  have pr: "prio (tasks s1 (rt_task_of (TaskSE p))) \<in> rt_prios" using p(3) t1 by (simp add: rt_task_of_def)
  note e = enqueue_rt_entity_inv [OF queuesD(3) [OF q1] p(2) pr, where head = h, folded s2_def]
  have mq: "my_q (rt_ses s1 (TaskSE p)) = None" using hierD(3) [OF rt_invD(3) [OF queuesD(3) [OF q1]]] .
  have qs: "q_same s1 s2" "q_same s s2" using q_same_trans [OF s1(2)] by (simp_all add: s2_def)
  have l2: "rt_linked E s2"
    by (rule rt_linked_keeps [OF queuesD(2) [OF q1] _ qs(1)]) (simp add: rt_keeps_def e(1-3))
  have rq: "rt_queued s2 (TaskSE x) \<longleftrightarrow> rt_queued s (TaskSE x) \<or> x = p" for x
    using e(4) [of "TaskSE x"] e(5) [OF mq] rt_same_queued [OF s1(1)] task_in_chain(1) by (cases "x = p") auto
  have eq: "enqueue_task_rt p flags s = inc_nr_running s2" by (simp add: enqueue_task_rt_def Let_def s1_def s2_def h_def)
  note c = rt_counted [OF q l2 qs(2) disjI1 [OF refl]]
  have n: "nr_running (rq s2) = nr_running (rq s)" using qs(2) by (simp add: q_same_def)
  show ?thesis
    unfolding eq by (rule queues_add [OF q p(1,2) _ c(1,2)]) (simp_all add: c(3-5) rq n del: nr_running_ops_frame(1-4))
qed

lemma rt_dequeue_queues:
  assumes q: "queues E env A s" and p: "A p = Some rt_sched_class"
  shows "queues E env (A(p := None)) (dequeue_task_rt p flags s)"
proof -
  define s1 where "s1 = update_curr_rt s"
  define s2 where "s2 = dequeue_rt_entity (TaskSE p) s1"
  have s1: "rt_quiet E s s1" using rt_quiet_update_curr [OF queuesD(2) [OF q]] by (simp add: s1_def)
  have q1: "queues E env A s1" by (rule queues_rt_quiet [OF q s1])
  note e = dequeue_rt_entity_inv [OF queuesD(3) [OF q1] queuesD(7) [OF q p], folded s2_def]
  have mq: "my_q (rt_ses s1 (TaskSE p)) = None" using hierD(3) [OF rt_invD(3) [OF queuesD(3) [OF q1]]] .
  have qs: "q_same s1 s2" "q_same s s2" using q_same_trans s1 by (auto simp: s2_def rt_quiet_def)
  have l2: "rt_linked E s2"
    by (rule rt_linked_keeps [OF queuesD(2) [OF q1] _ qs(1)]) (simp add: rt_keeps_def e(1-3))
  have rq1: "rt_queued s1 (TaskSE x) = rt_queued s (TaskSE x)" for x using s1 unfolding rt_quiet_def by blast
  have rq: "rt_queued s2 (TaskSE x) \<longleftrightarrow> rt_queued s (TaskSE x) \<and> x \<noteq> p" for x
    using e(4) [of "TaskSE x"] e(5) [OF mq] rq1 task_in_chain(1) by (cases "x = p") auto
  have eq: "dequeue_task_rt p flags s = dec_nr_running s2" by (simp add: dequeue_task_rt_def s1_def s2_def)
  note c = rt_counted [OF q l2 qs(2) disjI2 [OF refl]]
  have n: "nr_running (rq s2) = nr_running (rq s)" using qs(2) by (simp add: q_same_def)
  show ?thesis
    unfolding eq by (rule queues_remove [OF q p c(1,2)]) (simp_all add: c(3-5) rq n del: nr_running_ops_frame(1-4))
qed

lemma rt_pick_result:
  assumes q: "queues E env A s"
  obtains r s' where "pick_next_task_rt s = Some (r, s')" "queues E env A s'" "\<And>p. r = Some p \<Longrightarrow> A p = Some rt_sched_class"
proof (cases "rt_nr_running (rt_rqs s root_task_group) = 0 \<or> rt_rq_throttled (rt_rqs s root_task_group)")
  case True
  then show thesis using that [of None s] q by (auto simp: pick_next_task_rt_def Let_def)
next
  case False
  then obtain p where p: "pick_rt_loop s root_task_group = Some p" "rt_queued s (TaskSE p)"
    using pick_rt_loop_ok [OF queuesD(3) [OF q]] by blast
  have "queues E env A (upd_task p (\<lambda>t. t\<lparr>se := (se t)\<lparr>exec_start := clock_task (rq s)\<rparr>\<rparr>) s)"
    by (rule queues_same [OF q]) simp_all
  then show thesis using False p that queuesD(5) [OF q] by (simp add: pick_next_task_rt_def Let_def)
qed

interpretation rt_queue: class_queues "rt_class_ops env" rt_sched_class env for env
proof (unfold_locales, goal_cases)
  case (1 E A s p flags)
  then show ?case using rt_enqueue_queues by (simp add: rt_class_ops_def)
next
  case (2 E A s p flags)
  then show ?case using rt_dequeue_queues by (simp add: rt_class_ops_def)
next
  case (3 E A s)
  then show ?case
    using queues_rt_quiet rt_quiet_requeue [OF queuesD(2)] unfolding rt_class_ops_def yield_task_rt_def class_ops.simps by blast
next
  case (5 E A s p)
  then show ?case
    using queues_rt_quiet rt_quiet_update_curr [OF queuesD(2)] unfolding rt_class_ops_def put_prev_task_rt_def class_ops.simps by blast
next
  case (7 E A s p)
  then show ?case using queues_rt_quiet rt_quiet_tick [OF queuesD(2)] unfolding rt_class_ops_def class_ops.simps by blast
next
  case (14 E s r s')
  show ?case using rt_pick_result [OF 14(1)] 14(2) by (fastforce simp: rt_class_ops_def)
next
  case (15 E s p s')
  show ?case using rt_pick_result [OF 15(1)] 15(2) by (fastforce simp: rt_class_ops_def)
next
  case (16 E s)
  show ?case using rt_pick_result [OF 16] by (fastforce simp: rt_class_ops_def)
qed (auto simp: rt_class_ops_def check_preempt_curr_rt_def set_curr_task_rt_def switched_to_rt_def prio_changed_rt_def
    elim!: queues_same)

lemma ras_enqueue_queues:
  assumes q: "queues E env A s" and p: "A p = None" "TaskSE p \<in> E"
  shows "queues E env (A(p \<mapsto> ras_sched_class)) (enqueue_task_ras env p flags s)"
proof -
  have n: "p \<notin> set (ras_q s)" using p(1) queuesD(6) [OF q] by simp
  have "insert p (set (ras_q s)) \<subseteq> {x. TaskSE x \<in> E}" using p(2) queuesD(6,7) [OF q] by auto
  moreover have fin: "finite E" "card E < 2 ^ 32" using rt_invD(1,2) [OF queuesD(3) [OF q]] .
  ultimately have "TaskSE ` insert p (set (ras_q s)) \<subseteq> E" by auto
  from card_mono [OF fin(1) this] have "card (insert p (set (ras_q s))) \<le> card E" by (subst (asm) card_image) (auto simp: inj_on_def)
  then have "ras_room s"
    using n fin(2) queuesD(4) [OF q] by (simp add: ras_room_def ras_inv_def distinct_card)
  then have i: "ras_inv env (enqueue_task_ras env p flags s)" using ras_inv_enqueue [OF queuesD(1,4) [OF q] _ n] by blast
  have rs: "ras_quiet s (enqueue_task_ras env p flags s)" by simp
  show ?thesis
    by (rule queues_add [OF q p _ ras_quiet_linked [OF queuesD(2) [OF q] rs] i])
      (use rs in \<open>simp_all add: ras_quiet_def rt_same_queued\<close>)
qed

lemma ras_dequeue_queues:
  assumes q: "queues E env A s" and p: "A p = Some ras_sched_class"
  shows "queues E env (A(p := None)) (dequeue_task_ras p flags s)"
proof -
  have rs: "ras_quiet s (dequeue_task_ras p flags s)" by simp
  have d: "distinct (ras_q s)" using queuesD(4) [OF q] by (simp add: ras_inv_def)
  show ?thesis
    by (rule queues_remove [OF q p ras_quiet_linked [OF queuesD(2) [OF q] rs] ras_inv_dequeue [OF queuesD(4) [OF q]]])
      (use rs d in \<open>simp_all add: ras_quiet_def rt_same_queued set_remove1_eq\<close>)
qed

lemma ras_pick_result:
  assumes q: "queues E env A s"
  shows "queues E env A (snd (pick_next_task_ras s))" "fst (pick_next_task_ras s) = Some p \<Longrightarrow> A p = Some ras_sched_class"
proof -
  show "queues E env A (snd (pick_next_task_ras s))"
    by (rule queues_ras_quiet [OF q ras_quiet_ops(6) ras_inv_pick_next [OF queuesD(4) [OF q]]]) simp_all
  show "A p = Some ras_sched_class" if "fst (pick_next_task_ras s) = Some p"
    using that queuesD(6) [OF q, of p] by (auto simp: pick_next_task_ras_def split: if_splits list.splits)
qed

lemma ras_queues_keep:
  assumes q: "queues E env A s"
  shows "queues E env A (put_prev_task_ras p s)" "queues E env A (task_tick_ras env p s)" "queues E env A (yield_task_ras s)"
    "queues E env A (check_preempt_curr_ras p flags s)" "queues E env A (set_curr_task_ras s)"
    "queues E env A (switched_to_ras p s)" "queues E env A (prio_changed_ras p oldprio s)"
    "queues E env A (snd (get_rr_interval_ras env p s))"
proof -
  note i = ras_inv_ops queuesD(1,4) [OF q]
  show "queues E env A (prio_changed_ras p oldprio s)" using q by (simp add: prio_changed_ras_def)
  show "queues E env A (put_prev_task_ras p s)" "queues E env A (task_tick_ras env p s)" "queues E env A (yield_task_ras s)"
    "queues E env A (check_preempt_curr_ras p flags s)" "queues E env A (set_curr_task_ras s)"
    "queues E env A (switched_to_ras p s)" "queues E env A (snd (get_rr_interval_ras env p s))"
    by (rule queues_ras_quiet [OF q]; simp add: i)+
qed

interpretation ras_queue: class_queues "ras_class_ops env" ras_sched_class env for env
proof (unfold_locales, goal_cases)
  case (1 E A s p flags)
  then show ?case using ras_enqueue_queues by (simp add: ras_class_ops_def)
next
  case (2 E A s p flags)
  then show ?case using ras_dequeue_queues by (simp add: ras_class_ops_def)
next
  case (14 E s r s')
  then show ?case using ras_pick_result(1) [OF 14(1)] by (auto simp: ras_class_ops_def)
next
  case (15 E s p s')
  then show ?case using ras_pick_result(2) [OF 15(1)] by (auto simp: ras_class_ops_def)
qed (simp_all add: ras_class_ops_def ras_queues_keep)

text \<open>The classes outside the repository keep the contract, each on its own queue.\<close>

definition ext_queues :: "kservices \<Rightarrow> bool" where
  "ext_queues K \<longleftrightarrow> ext_ok K \<and>
     (\<forall>c \<in> {stop_sched_class, fair_sched_class, idle_sched_class}. class_queues (ext_class K c) c (kernel K))"

lemma class_of_queues: "ext_queues K \<Longrightarrow> class_queues (class_of K c) c (kernel K)"
  using rt_queue.class_queues_axioms ras_queue.class_queues_axioms
  by (cases c) (simp_all add: class_of_def ext_queues_def)

lemma ext_queues_ok: "ext_queues K \<Longrightarrow> ext_ok K"
  by (simp add: ext_queues_def)

end
