(* ===== verification/Core_System.thy ===== *)
theory Core_System
  imports Core_Queues
begin

text \<open>
  The scheduler as a whole: what waking, sleeping, picking and a scheduling pass do to the queues of
  all classes together. The invariant of the system says that a task of the real-time or race-averse
  class is on the queue of its class, once, exactly when its flag \<open>on_rq\<close> is set, and that the
  counters of the run queue agree with the flags.
\<close>

section \<open>Changes of one task\<close>

lemma upd_task_queues:
  assumes q: "queues E env A s" and rt: "A p = Some rt_sched_class \<Longrightarrow> prio (f (tasks s p)) = prio (tasks s p)"
    and ra: "A p = Some ras_sched_class \<Longrightarrow> ras (f (tasks s p)) = ras (tasks s p)"
  shows "queues E env A (upd_task p f s)"
proof -
  let ?n = "prio (f (tasks s p))"
  let ?s1 = "upd_task p (\<lambda>t. t\<lparr>prio := ?n\<rparr>) s"
  have same: "rt_same ?s1 (upd_task p f s)" by (simp add: rt_same_def upd_task_def)
  have r1: "rt_inv E ?s1"
  proof (cases "rt_queued s (TaskSE p)")
    case True
    then have "prio (f (tasks s p)) = prio (tasks s p)" using rt queuesD(5) [OF q] by blast
    then have "rt_same s ?s1" by (simp add: rt_same_def upd_task_def)
    then show ?thesis using rt_same_inv queuesD(3) [OF q] by blast
  next
    case False
    then show ?thesis using set_prio_inv [OF queuesD(3) [OF q]] on_rt_rq_iff [OF queuesD(3) [OF q]] by blast
  qed
  have e: "rt_ses (upd_task p f s) = rt_ses s" "tgs (upd_task p f s) = tgs s" by (simp_all add: upd_task_def)
  have "group_linked E g (upd_task p f s) = group_linked E g s" for g
    unfolding group_linked_def e ..
  then have l: "rt_linked E (upd_task p f s)"
    using rt_same_inv [OF same r1] queuesD(2) [OF q] by (simp add: rt_linked_def)
  have i: "ras_inv env (upd_task p f s)"
    by (rule ras_invI [OF queuesD(4) [OF q]]) (use ra queuesD(6) [OF q] in \<open>auto simp: upd_task_def\<close>)
  have "rt_queued (upd_task p f s) x = rt_queued s x" "rq (upd_task p f s) = rq s" for x
    by (simp_all add: rt_queued_def upd_task_def)
  then show ?thesis using q l i by (simp add: queues_def)
qed

text \<open>The priorities a task may have, whatever its policy; no task of the stop class exists on one CPU.\<close>

definition task_fit :: "task_struct \<Rightarrow> bool" where
  "task_fit t \<longleftrightarrow> 100 \<le> static_prio t \<and> static_prio t \<le> 139 \<and> 0 \<le> rt_priority t \<and> rt_priority t \<le> 99 \<and>
     0 \<le> normal_prio t \<and> 0 \<le> prio t \<and> (sched_class t = rt_sched_class \<longrightarrow> prio t < 100) \<and> sched_class t \<noteq> stop_sched_class"

lemma task_fit_cong: "sched_id t' = sched_id t \<Longrightarrow> task_fit t' = task_fit t"
  by (simp add: sched_id_def task_fit_def)

lemma ids_same_fit: "ids_same s s' \<Longrightarrow> task_fit (tasks s' p) = task_fit (tasks s p)"
  by (rule task_fit_cong) (simp add: ids_same_def)

lemma task_fit_prio: "\<lbrakk>task_fit t; sched_class t = rt_sched_class\<rbrakk> \<Longrightarrow> prio t \<in> rt_prios"
  by (simp add: task_fit_def prio_defs)

text \<open>Only task \<open>p\<close> changes.\<close>

definition others_same :: "task \<Rightarrow> sched_state \<Rightarrow> sched_state \<Rightarrow> bool" where
  "others_same p s s' \<longleftrightarrow> (\<forall>q. q \<noteq> p \<longrightarrow> sched_id (tasks s' q) = sched_id (tasks s q)) \<and>
     curr (rq s') = curr (rq s) \<and> idle (rq s') = idle (rq s) \<and> stop (rq s') = stop (rq s)"

lemma others_same_trans: "\<lbrakk>others_same p s t; others_same p t u\<rbrakk> \<Longrightarrow> others_same p s u"
  by (simp add: others_same_def)

lemma others_same_upd [simp]: "others_same p s (upd_task p f s)"
  by (simp add: others_same_def upd_task_def)

lemma ids_others: "ids_same s s' \<Longrightarrow> others_same p s s'"
  by (simp add: ids_same_def others_same_def)

lemma on_queue_upd:
  "on_queue (upd_task p f s) = (on_queue s)(p := if on_rq (f (tasks s p)) then Some (sched_class (f (tasks s p))) else None)"
  by (rule ext) (simp add: on_queue_def upd_task_def)

text \<open>The queues agree with the flags of the tasks, and every existing task is fit.\<close>

definition core_inv :: "kservices \<Rightarrow> rt_se set \<Rightarrow> sched_state \<Rightarrow> bool" where
  "core_inv K E s \<longleftrightarrow> queues E (kernel K) (on_queue s) s \<and> (\<forall>p. TaskSE p \<in> E \<longrightarrow> task_fit (tasks s p))"

lemma core_inv_ids:
  assumes "core_inv K E s" "ids_same s s'" "queues E (kernel K) (on_queue s) s'"
  shows "core_inv K E s'"
proof -
  show ?thesis using assms on_queue_ids [OF assms(2)] ids_same_fit [OF assms(2)] by (simp add: core_inv_def)
qed

lemma core_inv_others:
  assumes "core_inv K E s" "others_same p s s'" "queues E (kernel K) (on_queue s') s'" "TaskSE p \<in> E \<Longrightarrow> task_fit (tasks s' p)"
  shows "core_inv K E s'"
proof -
  have "task_fit (tasks s' q) = task_fit (tasks s q)" if "q \<noteq> p" for q
    using assms(2) that by (intro task_fit_cong) (simp add: others_same_def)
  then show ?thesis using assms unfolding core_inv_def by metis
qed

section \<open>Queueing\<close>

lemma q_update_rq_clock: "queues E env A s \<Longrightarrow> queues E env A (update_rq_clock K s)"
  by (erule queues_same) (simp add: update_rq_clock_def update_rq_clock_task_def Let_def rt_same_def upd_rq_def, simp)

lemma q_upd_rq:
  assumes "queues E env A s" "\<And>r. nr_running (g r) = nr_running r \<and> cfs_h_nr_running (g r) = cfs_h_nr_running r \<and> rq_ras (g r) = rq_ras r"
  shows "queues E env A (upd_rq g s)"
  using assms(1) by (rule queues_same) (simp_all add: assms(2))

lemma q_enqueue_task:
  assumes K: "ext_queues K" and q: "queues E (kernel K) A s" and p: "A p = None" "TaskSE p \<in> E"
    "sched_class (tasks s p) \<noteq> idle_sched_class" "task_fit (tasks s p)"
  shows "queues E (kernel K) (A(p \<mapsto> sched_class (tasks s p))) (enqueue_task K p flags s)"
proof -
  let ?s1 = "update_rq_clock K s"
  have t: "tasks ?s1 = tasks s" by (simp add: update_rq_clock_def update_rq_clock_task_def Let_def upd_rq_def)
  have "queues E (kernel K) (A(p \<mapsto> sched_class (tasks s p))) (enqueue_op (class_of K (sched_class (tasks s p))) p flags ?s1)"
    using p task_fit_prio [OF p(4)] t
    by (intro class_queues.q_enqueue [OF class_of_queues [OF K] q_update_rq_clock [OF q]]) auto
  then show ?thesis by (simp add: enqueue_task_def Let_def task_class_def t)
qed

lemma q_dequeue_task:
  assumes K: "ext_queues K" and q: "queues E (kernel K) A s" and p: "A p = Some (sched_class (tasks s p))"
  shows "queues E (kernel K) (A(p := None)) (dequeue_task K p flags s)"
proof -
  let ?s1 = "update_rq_clock K s"
  have t: "tasks ?s1 = tasks s" by (simp add: update_rq_clock_def update_rq_clock_task_def Let_def upd_rq_def)
  have "queues E (kernel K) (A(p := None)) (dequeue_op (class_of K (sched_class (tasks s p))) p flags ?s1)"
    by (rule class_queues.q_dequeue [OF class_of_queues [OF K] q_update_rq_clock [OF q] p])
  then show ?thesis by (simp add: dequeue_task_def Let_def task_class_def t)
qed

lemma q_suspend_task:
  assumes K: "ext_queues K" and q: "queues E (kernel K) (on_queue s) s"
  shows "queues E (kernel K) ((on_queue s)(p := None)) (suspend_task K p (on_rq (tasks s p)) running s)"
proof -
  let ?s1 = "if on_rq (tasks s p) then dequeue_task K p 0 s else s"
  have "queues E (kernel K) ((on_queue s)(p := None)) ?s1"
  proof (cases "on_rq (tasks s p)")
    case True
    then show ?thesis using q_dequeue_task [OF K q] by (simp add: on_queue_def)
  next
    case False
    then have "(on_queue s)(p := None) = on_queue s" by (auto simp: on_queue_def)
    with False q show ?thesis by simp
  qed
  then show ?thesis
    unfolding suspend_task_def Let_def task_class_def using class_queues.q_put_prev [OF class_of_queues [OF K]] by simp
qed

lemma q_resume_task:
  assumes K: "ext_queues K" and q: "queues E (kernel K) A s" and p: "A p = None"
    "queued \<Longrightarrow> TaskSE p \<in> E \<and> sched_class (tasks s p) \<noteq> idle_sched_class \<and> task_fit (tasks s p)"
  shows "queues E (kernel K) (A(p := if queued then Some (sched_class (tasks s p)) else None)) (resume_task K p flags queued running s)"
proof -
  let ?s1 = "if running then set_curr_op (task_class K s p) s else s"
  have q1: "queues E (kernel K) A ?s1"
    using q class_queues.q_set_curr [OF class_of_queues [OF K] q] by (simp add: task_class_def)
  have i: "ids_same s ?s1"
    using class_keeps.set_curr_ids [OF task_class_keeps [OF ext_queues_ok [OF K]]] by simp
  note f = ids_same_fit [OF i, of p]
  show ?thesis
  proof (cases queued)
    case True
    have "queues E (kernel K) (A(p \<mapsto> sched_class (tasks ?s1 p))) (enqueue_task K p flags ?s1)"
      using p True f ids_same_fields(6) [OF i] by (intro q_enqueue_task [OF K q1]) auto
    then show ?thesis using True ids_same_fields(6) [OF i] by (simp add: resume_task_def Let_def)
  next
    case False
    have "A(p := None) = A" using p(1) by auto
    with False q1 show ?thesis by (simp add: resume_task_def Let_def)
  qed
qed

lemma q_class_changed:
  assumes K: "ext_queues K" and q: "queues E (kernel K) A s"
  shows "queues E (kernel K) A (check_class_changed K p c oldprio s)"
proof -
  note C = class_of_queues [OF K]
  have f: "queues E (kernel K) A (case switched_from_op (class_of K c) of None \<Rightarrow> s | Some f \<Rightarrow> f p s)"
    using q class_queues.q_switched_from [OF C q] by (simp split: option.split)
  show ?thesis
    unfolding check_class_changed_def Let_def task_class_def
    using q class_queues.q_switched_to [OF C f] class_queues.q_prio_changed [OF C q] by simp
qed

lemma check_preempt_curr_keeps:
  assumes K: "ext_queues K"
  shows "queues E (kernel K) A s \<Longrightarrow> queues E (kernel K) A (check_preempt_curr K p flags s)"
    "ids_same s (check_preempt_curr K p flags s)"
proof -
  let ?c = "curr (rq s)"
  let ?s1 = "if sched_class (tasks s p) = sched_class (tasks s ?c) then check_preempt_op (task_class K s ?c) p flags s
    else if class_before (sched_class (tasks s p)) (sched_class (tasks s ?c)) all_classes then resched_task ?c s else s"
  have i: "ids_same s ?s1"
    using class_keeps.check_preempt_ids [OF task_class_keeps [OF ext_queues_ok [OF K]]] by simp
  have u: "ids_same st (upd_rq (\<lambda>r. r\<lparr>skip_clock_update := 1\<rparr>) st)" for st by (rule ids_same_upd(2)) simp
  show "ids_same s (check_preempt_curr K p flags s)"
    unfolding check_preempt_curr_def Let_def using i ids_same_trans [OF i u] by simp
  assume q: "queues E (kernel K) A s"
  have "queues E (kernel K) A (resched_task ?c s)" by (rule queues_same [OF q]) simp_all
  then have "queues E (kernel K) A ?s1"
    using q class_queues.q_check_preempt [OF class_of_queues [OF K] q] by (simp add: task_class_def)
  then show "queues E (kernel K) A (check_preempt_curr K p flags s)"
    unfolding check_preempt_curr_def Let_def using q_upd_rq [of E "kernel K" A ?s1 "\<lambda>r. r\<lparr>skip_clock_update := 1\<rparr>"] by simp
qed

section \<open>Waking\<close>

lemma q_load_count:
  "queues E env A s \<Longrightarrow> queues E env A (if b then upd_rq (\<lambda>r. r\<lparr>nr_uninterruptible := n r\<rparr>) s else s)"
  using q_upd_rq [of E env A s "\<lambda>r. r\<lparr>nr_uninterruptible := n r\<rparr>"] by simp

lemma load_count_ids: "ids_same s (if b then upd_rq (\<lambda>r. r\<lparr>nr_uninterruptible := n r\<rparr>) s else s)"
  by (simp add: ids_same_upd)

lemma activate_task_effect:
  assumes K: "ext_queues K" and c: "core_inv K E s" and p: "\<not> on_rq (tasks s p)" "TaskSE p \<in> E" "sched_class (tasks s p) \<noteq> idle_sched_class"
  shows "queues E (kernel K) ((on_queue s)(p \<mapsto> sched_class (tasks s p))) (activate_task K p flags s)" "ids_same s (activate_task K p flags s)"
proof -
  let ?s1 = "if task_contributes_to_load (tasks s p) then upd_rq (\<lambda>r. r\<lparr>nr_uninterruptible := nr_uninterruptible r - 1\<rparr>) s else s"
  have q1: "queues E (kernel K) (on_queue s) ?s1" using c by (intro q_load_count) (simp add: core_inv_def)
  have t: "tasks ?s1 = tasks s" by (simp add: upd_rq_def)
  have fit: "task_fit (tasks s p)" using c p(2) by (simp add: core_inv_def)
  have "queues E (kernel K) ((on_queue s)(p \<mapsto> sched_class (tasks ?s1 p))) (enqueue_task K p flags ?s1)"
    by (rule q_enqueue_task [OF K q1]) (use p fit t in \<open>simp_all add: on_queue_def\<close>)
  then show "queues E (kernel K) ((on_queue s)(p \<mapsto> sched_class (tasks s p))) (activate_task K p flags s)"
    by (simp add: activate_task_def Let_def t)
  show "ids_same s (activate_task K p flags s)"
    unfolding activate_task_def Let_def
    by (rule ids_same_trans [OF load_count_ids ids_same_enqueue [OF ext_queues_ok [OF K]]])
qed

text \<open>A task on its queue: what activating a task and setting its flag does.\<close>

lemma activated:
  assumes K: "ext_queues K" and c: "core_inv K E s" and p: "\<not> on_rq (tasks s p)" "TaskSE p \<in> E" "sched_class (tasks s p) \<noteq> idle_sched_class"
    and s': "s' = upd_task p (\<lambda>t. t\<lparr>on_rq := True\<rparr>) (activate_task K p flags s)"
  shows "core_inv K E s'" "others_same p s s'" "on_rq (tasks s' p)" "tstate (tasks s' p) = tstate (tasks s p)"
    "sched_class (tasks s' p) = sched_class (tasks s p)"
proof -
  let ?a = "activate_task K p flags s"
  note a = activate_task_effect [OF K c p, of flags]
  show o: "others_same p s s'" unfolding s' by (rule others_same_trans [OF ids_others [OF a(2)] others_same_upd])
  have f: "sched_class (tasks s' p) = sched_class (tasks s p)" "on_rq (tasks s' p)" "tstate (tasks s' p) = tstate (tasks s p)"
    using ids_same_fields(6,7) [OF a(2), of p] by (simp_all add: s' upd_task_def)
  then show "on_rq (tasks s' p)" "tstate (tasks s' p) = tstate (tasks s p)" "sched_class (tasks s' p) = sched_class (tasks s p)" by blast+
  have oq: "on_queue s' = (on_queue s)(p \<mapsto> sched_class (tasks s p))"
    using ids_same_fields(6) [OF a(2)] on_queue_ids [OF a(2)] by (simp add: s' on_queue_upd)
  have "queues E (kernel K) (on_queue s') s'" unfolding oq unfolding s' by (rule upd_task_queues [OF a(1)]) simp_all
  moreover have "task_fit (tasks ?a p)" using c p(2) ids_same_fit [OF a(2)] by (simp add: core_inv_def)
  then have "task_fit (tasks s' p)" by (simp add: s' upd_task_def task_fit_def)
  ultimately show "core_inv K E s'" by (intro core_inv_others [OF c o])
qed

lemma core_inv_upd:
  assumes c: "core_inv K E s" and f: "\<And>t. sched_class (f t) = sched_class t \<and> on_rq (f t) = on_rq t \<and> prio (f t) = prio t \<and> ras (f t) = ras t"
    "TaskSE p \<in> E \<Longrightarrow> task_fit (tasks s p) \<Longrightarrow> task_fit (f (tasks s p))"
  shows "core_inv K E (upd_task p f s)"
proof (rule core_inv_others [OF c others_same_upd])
  have "on_queue (upd_task p f s) = on_queue s" by (rule ext) (simp add: on_queue_def upd_task_def f)
  then show "queues E (kernel K) (on_queue (upd_task p f s)) (upd_task p f s)"
    using upd_task_queues [of E "kernel K" "on_queue s" s p f] c f(1) by (simp add: core_inv_def)
  show "task_fit (tasks (upd_task p f s) p)" if "TaskSE p \<in> E"
    using f(2) [OF that] c that by (simp add: core_inv_def upd_task_def)
qed

lemma core_inv_emit: "core_inv K E s \<Longrightarrow> core_inv K E (emit ev s)"
proof -
  assume c: "core_inv K E s"
  have "queues E (kernel K) (on_queue s) (emit ev s)"
    by (rule queues_same [of E "kernel K" "on_queue s" s]) (use c in \<open>simp_all add: core_inv_def\<close>)
  then show ?thesis by (rule core_inv_ids [OF c ids_same_upd(5)])
qed

lemma woken:
  assumes K: "ext_queues K" and c: "core_inv K E s" and s': "s' = ttwu_do_wakeup K p flags s"
  shows "core_inv K E s'" "others_same p s s'" "on_rq (tasks s' p) = on_rq (tasks s p)" "tstate (tasks s' p) = TASK_RUNNING"
    "sched_class (tasks s' p) = sched_class (tasks s p)"
proof -
  let ?a = "check_preempt_curr K p flags s"
  note a = check_preempt_curr_keeps [OF K, where s = s and p = p and flags = flags]
  have "core_inv K E ?a" using c a by (intro core_inv_ids [OF c]) (simp_all add: core_inv_def)
  then show "core_inv K E s'" unfolding s' ttwu_do_wakeup_def by (rule core_inv_upd) (simp_all add: task_fit_def)
  show "others_same p s s'" unfolding s' ttwu_do_wakeup_def by (rule others_same_trans [OF ids_others [OF a(2)] others_same_upd])
  show "on_rq (tasks s' p) = on_rq (tasks s p)" "tstate (tasks s' p) = TASK_RUNNING" "sched_class (tasks s' p) = sched_class (tasks s p)"
    using ids_same_fields(6,8) [OF a(2), of p] by (simp_all add: s' ttwu_do_wakeup_def upd_task_def)
qed

lemma ttwu_activated:
  assumes K: "ext_queues K" and c: "core_inv K E s" and p: "\<not> on_rq (tasks s p)" "TaskSE p \<in> E" "sched_class (tasks s p) \<noteq> idle_sched_class"
    and s': "s' = ttwu_activate K p flags s"
  shows "core_inv K E s'" "others_same p s s'" "on_rq (tasks s' p)" "sched_class (tasks s' p) = sched_class (tasks s p)"
proof -
  let ?a = "upd_task p (\<lambda>t. t\<lparr>on_rq := True\<rparr>) (activate_task K p flags s)"
  note a = activated [OF K c p refl, of flags]
  have "s' = ?a \<or> s' = emit (Wq_worker_waking_up p) ?a" by (simp add: s' ttwu_activate_def Let_def)
  then show "core_inv K E s'" "others_same p s s'" "on_rq (tasks s' p)" "sched_class (tasks s' p) = sched_class (tasks s p)"
    using a core_inv_emit [OF a(1)] by (auto simp: emit_def others_same_def)
qed

lemma try_to_wake_up_effect:
  assumes K: "ext_queues K" and c: "core_inv K E s" and p: "TaskSE p \<in> E" "sched_class (tasks s p) \<noteq> idle_sched_class"
    and s': "s' = snd (try_to_wake_up K p states flags s)"
  shows "core_inv K E s'" "others_same p s s'" "on_rq (tasks s p) \<Longrightarrow> on_rq (tasks s' p)"
    "tstate (tasks s' p) \<in> {tstate (tasks s p), TASK_RUNNING}" "sched_class (tasks s' p) = sched_class (tasks s p)"
proof -
  let ?f = "ENQUEUE_WAKEUP OR ENQUEUE_WAKING"
  consider "s' = s" | "on_rq (tasks s p)" "s' = ttwu_do_wakeup K p flags s"
    | "\<not> on_rq (tasks s p)" "s' = ttwu_do_wakeup K p 0 (ttwu_activate K p ?f s)"
    unfolding s' try_to_wake_up_def ttwu_remote_def ttwu_queue_def ttwu_do_activate_def
    by (cases "flag_set (tstate (tasks s p)) states"; cases "on_rq (tasks s p)") auto
  then have "core_inv K E s' \<and> others_same p s s' \<and> (on_rq (tasks s p) \<longrightarrow> on_rq (tasks s' p)) \<and>
    tstate (tasks s' p) \<in> {tstate (tasks s p), TASK_RUNNING} \<and> sched_class (tasks s' p) = sched_class (tasks s p)"
  proof cases
    case 1
    then show ?thesis using c by (simp add: others_same_def)
  next
    case 2
    then show ?thesis using woken [OF K c 2(2)] by simp
  next
    case 3
    note a = ttwu_activated [OF K c 3(1) p refl, of ?f]
    show ?thesis using woken [OF K a(1) 3(2)] a(2-4) others_same_trans 3(1) by auto
  qed
  then show "core_inv K E s'" "others_same p s s'" "on_rq (tasks s p) \<Longrightarrow> on_rq (tasks s' p)"
    "tstate (tasks s' p) \<in> {tstate (tasks s p), TASK_RUNNING}" "sched_class (tasks s' p) = sched_class (tasks s p)"
    by blast+
qed

section \<open>Sleeping\<close>

lemma deactivated:
  assumes K: "ext_queues K" and c: "core_inv K E s" and p: "on_rq (tasks s p)"
    and s': "s' = upd_task p (\<lambda>t. t\<lparr>on_rq := False\<rparr>) (deactivate_task K p flags s)"
  shows "core_inv K E s'" "others_same p s s'" "tstate (tasks s' p) = tstate (tasks s p)" "sched_class (tasks s' p) = sched_class (tasks s p)"
proof -
  let ?s1 = "if task_contributes_to_load (tasks s p) then upd_rq (\<lambda>r. r\<lparr>nr_uninterruptible := nr_uninterruptible r + 1\<rparr>) s else s"
  let ?d = "deactivate_task K p flags s"
  have q1: "queues E (kernel K) (on_queue s) ?s1" using c by (intro q_load_count) (simp add: core_inv_def)
  have t: "tasks ?s1 = tasks s" by (simp add: upd_rq_def)
  have "queues E (kernel K) ((on_queue s)(p := None)) (dequeue_task K p flags ?s1)"
    by (rule q_dequeue_task [OF K q1]) (use p t in \<open>simp add: on_queue_def\<close>)
  then have q2: "queues E (kernel K) ((on_queue s)(p := None)) ?d" by (simp add: deactivate_task_def Let_def)
  have i: "ids_same s ?d"
    unfolding deactivate_task_def Let_def by (rule ids_same_trans [OF load_count_ids ids_same_dequeue [OF ext_queues_ok [OF K]]])
  show o: "others_same p s s'" unfolding s' by (rule others_same_trans [OF ids_others [OF i] others_same_upd])
  show "tstate (tasks s' p) = tstate (tasks s p)" "sched_class (tasks s' p) = sched_class (tasks s p)"
    using ids_same_fields(6,7) [OF i, of p] by (simp_all add: s' upd_task_def)
  have oq: "on_queue s' = (on_queue s)(p := None)" by (simp add: s' on_queue_upd on_queue_ids [OF i])
  have "queues E (kernel K) (on_queue s') s'" unfolding oq unfolding s' by (rule upd_task_queues [OF q2]) simp_all
  moreover have "task_fit (tasks s' p)" if "TaskSE p \<in> E"
  proof -
    have "task_fit (tasks ?d p)" using c that ids_same_fit [OF i] by (simp add: core_inv_def)
    then show ?thesis by (simp add: s' upd_task_def task_fit_def)
  qed
  ultimately show "core_inv K E s'" by (rule core_inv_others [OF c o])
qed

text \<open>What sleeping and waking leave alone in every task.\<close>

definition sched_frame :: "sched_state \<Rightarrow> sched_state \<Rightarrow> bool" where
  "sched_frame s s' \<longleftrightarrow> curr (rq s') = curr (rq s) \<and> idle (rq s') = idle (rq s) \<and>
     (\<forall>q. sched_class (tasks s' q) = sched_class (tasks s q) \<and> tstate (tasks s' q) \<in> {tstate (tasks s q), TASK_RUNNING})"

lemma sched_frame_trans: "\<lbrakk>sched_frame s t; sched_frame t u\<rbrakk> \<Longrightarrow> sched_frame s u"
  unfolding sched_frame_def by (metis insert_iff singletonD)

lemma sched_frame_ids: "ids_same s s' \<Longrightarrow> sched_frame s s'"
  by (simp add: sched_frame_def ids_same_fields(6,7)) (simp add: ids_same_def)

lemma sched_frame_others:
  assumes "others_same p s s'" "sched_class (tasks s' p) = sched_class (tasks s p)" "tstate (tasks s' p) \<in> {tstate (tasks s p), TASK_RUNNING}"
  shows "sched_frame s s'"
proof -
  have "sched_class (tasks s' q) = sched_class (tasks s q) \<and> tstate (tasks s' q) \<in> {tstate (tasks s q), TASK_RUNNING}" for q
    using assms by (cases "q = p") (simp_all add: others_same_def sched_id_def)
  then show ?thesis using assms(1) by (simp add: sched_frame_def others_same_def)
qed

lemma wake_up_local_effect:
  assumes K: "ext_queues K" and c: "core_inv K E s" and p: "TaskSE p \<in> E" "sched_class (tasks s p) \<noteq> idle_sched_class"
  shows "core_inv K E (try_to_wake_up_local K p s) \<and> sched_frame s (try_to_wake_up_local K p s)"
proof -
  define s' where "s' = try_to_wake_up_local K p s"
  consider "s' = s" | "on_rq (tasks s p)" "s' = ttwu_do_wakeup K p 0 s"
    | "\<not> on_rq (tasks s p)" "s' = ttwu_do_wakeup K p 0 (ttwu_activate K p ENQUEUE_WAKEUP s)"
    unfolding s'_def try_to_wake_up_local_def Let_def
    by (cases "p = curr (rq s)"; cases "flag_set (tstate (tasks s p)) TASK_NORMAL"; cases "on_rq (tasks s p)") auto
  then have "core_inv K E s' \<and> sched_frame s s'"
  proof cases
    case 1
    then show ?thesis using c by (simp add: sched_frame_def)
  next
    case 2
    note w = woken [OF K c 2(2)]
    then show ?thesis using sched_frame_others [OF w(2) w(5)] by simp
  next
    case 3
    note a = ttwu_activated [OF K c 3(1) p refl, of ENQUEUE_WAKEUP]
    note w = woken [OF K a(1) 3(2)]
    have "sched_class (tasks s' p) = sched_class (tasks s p)" "tstate (tasks s' p) = TASK_RUNNING" using w(4,5) a(4) by simp_all
    then show ?thesis using w(1) sched_frame_others [OF others_same_trans [OF a(2) w(2)]] by simp
  qed
  then show ?thesis unfolding s'_def .
qed

lemma sched_sleep_effect:
  assumes K: "ext_queues K" and c: "core_inv K E s" and p: "on_rq (tasks s p)"
    and w: "\<forall>t w. wq_worker_sleeping K p t = Some w \<longrightarrow> TaskSE w \<in> E \<and> w \<noteq> idle (rq s)"
    and cl: "\<forall>q. sched_class (tasks s q) = idle_sched_class \<longrightarrow> q = idle (rq s)"
  shows "core_inv K E (sched_sleep K p s) \<and> sched_frame s (sched_sleep K p s)"
proof (cases "signal_pending_state (tstate (tasks s p)) (tasks s p)")
  case True
  let ?u = "upd_task p (\<lambda>t. t\<lparr>tstate := TASK_RUNNING\<rparr>) s"
  have "core_inv K E ?u" by (rule core_inv_upd [OF c]) (simp_all add: task_fit_def)
  moreover have "sched_frame s ?u" by (rule sched_frame_others [OF others_same_upd]) (simp_all add: upd_task_def)
  ultimately show ?thesis using True by (simp add: sched_sleep_def)
next
  case False
  define s1 where "s1 = upd_task p (\<lambda>t. t\<lparr>on_rq := False\<rparr>) (deactivate_task K p DEQUEUE_SLEEP s)"
  note d = deactivated [OF K c p s1_def]
  have f1: "sched_frame s s1" by (rule sched_frame_others [OF d(2) d(4)]) (simp add: d(3))
  have e: "sched_sleep K p s = (if flag_set (tflags (tasks s1 p)) PF_WQ_WORKER
      then (case wq_worker_sleeping K p s1 of None \<Rightarrow> s1 | Some w \<Rightarrow> try_to_wake_up_local K w s1) else s1)"
    using False unfolding sched_sleep_def Let_def s1_def [symmetric] by simp
  have "core_inv K E (try_to_wake_up_local K q s1) \<and> sched_frame s (try_to_wake_up_local K q s1)"
    if "wq_worker_sleeping K p s1 = Some q" for q
  proof -
    have q: "TaskSE q \<in> E" "q \<noteq> idle (rq s)" using w that by blast+
    then have "sched_class (tasks s1 q) \<noteq> idle_sched_class" using cl f1 by (auto simp: sched_frame_def)
    from wake_up_local_effect [OF K d(1) q(1) this] sched_frame_trans [OF f1] show ?thesis by blast
  qed
  then show ?thesis using d(1) f1 e by (auto split: option.split)
qed

section \<open>Picking\<close>

lemma pick_from_effect:
  assumes K: "ext_queues K"
  shows "queues E (kernel K) (on_queue s) s \<Longrightarrow> idle_sched_class \<in> set cs \<Longrightarrow>
    \<exists>p s'. pick_from K cs s = Some (p, s') \<and> queues E (kernel K) (on_queue s) s' \<and> ids_same s s' \<and>
      (p \<noteq> idle (rq s) \<longrightarrow> on_rq (tasks s p))"
proof (induction cs arbitrary: s)
  case (Cons c cs)
  note C = class_of_queues [OF K, of c] and q = Cons.prems(1)
  obtain r s1 where r: "pick_next_op (class_of K c) s = Some (r, s1)" "c = idle_sched_class \<longrightarrow> r \<noteq> None"
    using class_queues.pick_ends [OF C q] by blast
  have q1: "queues E (kernel K) (on_queue s) s1" by (rule class_queues.q_pick [OF C q r(1)])
  have i: "ids_same s s1" by (rule class_keeps.pick_next_ids [OF class_of_keeps [OF ext_queues_ok [OF K]] r(1)])
  show ?case
  proof (cases r)
    case (Some p)
    have "on_rq (tasks s p)" if "p \<noteq> idle (rq s)"
      using class_queues.pick_queued [OF C q] r(1) Some that by (auto simp: on_queue_def split: if_splits)
    then show ?thesis using Some r(1) q1 i by simp
  next
    case None
    then have m: "idle_sched_class \<in> set cs" using r(2) Cons.prems(2) by auto
    have "queues E (kernel K) (on_queue s1) s1" using q1 on_queue_ids [OF i] by simp
    from Cons.IH [OF this m] obtain p s' where p: "pick_from K cs s1 = Some (p, s')" "queues E (kernel K) (on_queue s1) s'"
      "ids_same s1 s'" "p \<noteq> idle (rq s1) \<longrightarrow> on_rq (tasks s1 p)" by blast
    moreover have "idle (rq s1) = idle (rq s)" using i by (simp add: ids_same_def)
    ultimately show ?thesis
      using None r(1) ids_same_trans [OF i p(3)] on_queue_ids [OF i] ids_same_fields(8) [OF i, of p] by simp
  qed
qed simp

lemma pick_next_task_effect:
  assumes K: "ext_queues K" and q: "queues E (kernel K) (on_queue s) s"
  shows "\<exists>p s'. pick_next_task K s = Some (p, s') \<and> queues E (kernel K) (on_queue s) s' \<and> ids_same s s' \<and>
      (p \<noteq> idle (rq s) \<longrightarrow> on_rq (tasks s p))"
proof -
  let ?a = "[fair_sched_class] @ all_classes"
  have "pick_next_task K s = pick_from K ?a s \<or> pick_next_task K s = pick_from K all_classes s"
    by (auto simp: pick_next_task_def simp del: pick_rt_ext split: option.split prod.split)
  then show ?thesis
    using pick_from_effect [OF K q, of ?a] pick_from_effect [OF K q, of all_classes] by (auto simp: all_classes_def)
qed

lemma queues_counted:
  assumes q: "queues E env A s" and st: "\<forall>p. A p \<noteq> Some stop_sched_class"
  shows "rq_counted s"
proof -
  let ?S = "\<lambda>c. {p. A p = Some c}"
  have "A p = Some c \<Longrightarrow> c \<in> {rt_sched_class, ras_sched_class, fair_sched_class}" for p c
    using st queuesD(8) [OF q, of p c] by (cases c) auto
  then have d: "dom A = ?S fair_sched_class \<union> (?S rt_sched_class \<union> ?S ras_sched_class)" by (auto simp: dom_def)
  have fin: "finite (?S c)" for c by (rule finite_subset [OF _ queuesD(11) [OF q]]) auto
  have "card (dom A) = card (?S fair_sched_class) + card (?S rt_sched_class \<union> ?S ras_sched_class)"
    unfolding d by (rule card_Un_disjoint) (auto simp: fin)
  also have "card (?S rt_sched_class \<union> ?S ras_sched_class) = card (?S rt_sched_class) + card (?S ras_sched_class)"
    by (rule card_Un_disjoint) (auto simp: fin)
  finally have n: "card (dom A) = card (?S fair_sched_class) + card (?S rt_sched_class) + card (?S ras_sched_class)" by simp
  have "unat (nr_running (rq s)) = card (dom A)"
    using queuesD(9,13) [OF q] by (simp add: unat_of_nat)
  moreover have "unat (cfs_h_nr_running (rq s)) = card (?S fair_sched_class)"
    using queuesD(10,13) [OF q] n by (simp add: unat_of_nat)
  moreover have "{p. rt_queued s (TaskSE p)} = ?S rt_sched_class" using queuesD(5) [OF q] by auto
  moreover have "length (ras_q s) = card (?S ras_sched_class)"
    using queuesD(4,6) [OF q] by (metis (mono_tags) Collect_cong Collect_mem_eq distinct_card ras_inv_def)
  ultimately show ?thesis using n by (simp add: rq_counted_def)
qed

text \<open>While a race-averse task is queued, the next task is a real-time or a race-averse one.\<close>

lemma pick_over_fair:
  assumes K: "ext_queues K" and q: "queues E (kernel K) (on_queue s) s" and st: "\<forall>p. on_queue s p \<noteq> Some stop_sched_class"
    and r: "on_queue s r = Some ras_sched_class" and p: "pick_next_task K s = Some (p, s')"
  shows "on_queue s p \<in> {Some rt_sched_class, Some ras_sched_class}"
proof -
  note C = class_of_queues [OF K]
  have ne: "ras_q s \<noteq> []" using queuesD(6) [OF q, of r] r by auto
  have nf: "pick_next_task K s = pick_from K all_classes s" using not_fast [OF queuesD(3) [OF q] queues_counted [OF q st]] ne by blast
  obtain r1 s1 where s1: "pick_next_op (class_of K stop_sched_class) s = Some (r1, s1)"
    using class_queues.pick_ends [OF C q] by blast
  have r1: "r1 = None" using class_queues.pick_queued [OF C q] s1 st by (cases r1) fastforce+
  have i1: "ids_same s s1" by (rule class_keeps.pick_next_ids [OF class_of_keeps [OF ext_queues_ok [OF K]] s1])
  have q1: "queues E (kernel K) (on_queue s1) s1" using class_queues.q_pick [OF C q s1] on_queue_ids [OF i1] by simp
  obtain r2 s2 where s2: "pick_next_task_rt s1 = Some (r2, s2)" "queues E (kernel K) (on_queue s1) s2"
    "\<And>p. r2 = Some p \<Longrightarrow> on_queue s1 p = Some rt_sched_class" using rt_pick_result [OF q1] by metis
  have ras2: "fst (pick_next_task_ras s2) = Some (hd (ras_q s2))"
    "on_queue s1 (hd (ras_q s2)) = Some ras_sched_class"
  proof -
    have m: "ras_q s2 \<noteq> []" using queuesD(6) [OF s2(2), of r] on_queue_ids [OF i1] r by auto
    show "fst (pick_next_task_ras s2) = Some (hd (ras_q s2))"
      using pick_next_task_ras_hd [OF queuesD(4) [OF s2(2)]] m by (simp split: list.splits)
    show "on_queue s1 (hd (ras_q s2)) = Some ras_sched_class" using queuesD(6) [OF s2(2), of "hd (ras_q s2)"] m by simp
  qed
  have "on_queue s1 p \<in> {Some rt_sched_class, Some ras_sched_class}"
  proof (cases r2)
    case (Some x)
    then have "p = x" using p nf s1 r1 s2(1) by (simp add: all_classes_def)
    then show ?thesis using s2(3) Some by simp
  next
    case None
    obtain x s3 where x: "pick_next_task_ras s2 = (x, s3)" by fastforce
    then have "p = hd (ras_q s2)" using p nf s1 r1 s2(1) None ras2(1) by (simp add: all_classes_def)
    then show ?thesis using ras2(2) by simp
  qed
  then show ?thesis using on_queue_ids [OF i1] by simp
qed

section \<open>The invariant of the system\<close>

text \<open>
  The running task is the idle task or on its queue, the idle task never sleeps, and only it may
  belong to the idle class.
\<close>

definition sys_inv :: "kservices \<Rightarrow> rt_se set \<Rightarrow> sched_state \<Rightarrow> bool" where
  "sys_inv K E s \<longleftrightarrow> core_inv K E s \<and> TaskSE (curr (rq s)) \<in> E \<and> TaskSE (idle (rq s)) \<in> E \<and>
     (curr (rq s) \<noteq> idle (rq s) \<longrightarrow> on_rq (tasks s (curr (rq s)))) \<and> tstate (tasks s (idle (rq s))) = TASK_RUNNING \<and>
     (\<forall>q. sched_class (tasks s q) = idle_sched_class \<longrightarrow> q = idle (rq s))"

lemma sys_invD:
  assumes "sys_inv K E s"
  shows "core_inv K E s" "queues E (kernel K) (on_queue s) s" "TaskSE p \<in> E \<Longrightarrow> task_fit (tasks s p)"
    "TaskSE (curr (rq s)) \<in> E" "TaskSE (idle (rq s)) \<in> E" "curr (rq s) \<noteq> idle (rq s) \<Longrightarrow> on_rq (tasks s (curr (rq s)))"
    "tstate (tasks s (idle (rq s))) = TASK_RUNNING" "sched_class (tasks s q) = idle_sched_class \<Longrightarrow> q = idle (rq s)"
    "on_queue s q \<noteq> Some stop_sched_class" "on_queue s q \<noteq> Some idle_sched_class"
proof -
  show f: "core_inv K E s" "queues E (kernel K) (on_queue s) s" "TaskSE p \<in> E \<Longrightarrow> task_fit (tasks s p)" for p
    using assms by (simp_all add: sys_inv_def core_inv_def)
  show "TaskSE (curr (rq s)) \<in> E" "TaskSE (idle (rq s)) \<in> E" "curr (rq s) \<noteq> idle (rq s) \<Longrightarrow> on_rq (tasks s (curr (rq s)))"
    "tstate (tasks s (idle (rq s))) = TASK_RUNNING" "sched_class (tasks s q) = idle_sched_class \<Longrightarrow> q = idle (rq s)"
    using assms by (simp_all add: sys_inv_def)
  show "on_queue s q \<noteq> Some stop_sched_class"
  proof
    assume a: "on_queue s q = Some stop_sched_class"
    then have "sched_class (tasks s q) = stop_sched_class" by (simp add: on_queue_def split: if_splits)
    then show False using f(3) queuesD(7) [OF f(2) a] by (simp add: task_fit_def)
  qed
  show "on_queue s q \<noteq> Some idle_sched_class" using queuesD(8) [OF f(2)] by blast
qed

text \<open>A step that changes one task only.\<close>

lemma sys_inv_others:
  assumes i: "sys_inv K E s" and c: "core_inv K E s'" and o: "others_same p s s'"
    and p: "on_rq (tasks s p) \<Longrightarrow> on_rq (tasks s' p) \<or> p \<noteq> curr (rq s)"
      "tstate (tasks s' p) \<in> {tstate (tasks s p), TASK_RUNNING} \<or> p \<noteq> idle (rq s)"
      "sched_class (tasks s' p) = idle_sched_class \<Longrightarrow> p = idle (rq s)"
  shows "sys_inv K E s'"
proof -
  have f: "on_rq (tasks s' q) = on_rq (tasks s q)" "tstate (tasks s' q) = tstate (tasks s q)"
    "sched_class (tasks s' q) = sched_class (tasks s q)" if "q \<noteq> p" for q
    using o that by (simp_all add: others_same_def sched_id_def)
  have r: "curr (rq s') = curr (rq s)" "idle (rq s') = idle (rq s)" using o by (simp_all add: others_same_def)
  have "on_rq (tasks s' (curr (rq s)))" if "curr (rq s) \<noteq> idle (rq s)"
    using f(1) p(1) sys_invD(6) [OF i that] by (cases "curr (rq s) = p") auto
  moreover have "tstate (tasks s' (idle (rq s))) = TASK_RUNNING"
    using f(2) p(2) sys_invD(7) [OF i] by (cases "idle (rq s) = p") auto
  moreover have "sched_class (tasks s' q) = idle_sched_class \<Longrightarrow> q = idle (rq s)" for q
    using f(3) p(3) sys_invD(8) [OF i] by (cases "q = p") auto
  ultimately show ?thesis using c sys_invD(4,5) [OF i] unfolding sys_inv_def r by blast
qed

lemma sys_inv_ids: "\<lbrakk>sys_inv K E s; ids_same s s'; queues E (kernel K) (on_queue s) s'\<rbrakk> \<Longrightarrow> sys_inv K E s'"
  using core_inv_ids [of K E s s'] ids_same_fields(6-9) [of s s'] sys_invD(1)
  by (simp add: sys_inv_def) (simp add: ids_same_def)

section \<open>A scheduling pass\<close>

lemma schedule_once_effect:
  assumes K: "ext_queues K" and i: "sys_inv K E s"
    and w: "\<forall>t w. wq_worker_sleeping K (curr (rq s)) t = Some w \<longrightarrow> TaskSE w \<in> E \<and> w \<noteq> idle (rq s)"
  shows "\<exists>s'. schedule_once K act s = Some s' \<and> sys_inv K E s' \<and>
    ((\<exists>r. on_queue s' r = Some ras_sched_class) \<longrightarrow> on_queue s' (curr (rq s')) \<in> {Some rt_sched_class, Some ras_sched_class})"
proof -
  let ?p = "curr (rq s)"
  define vol where "vol = (tstate (tasks s ?p) \<noteq> 0 \<and> \<not> act ?p)"
  define s1 where "s1 = (if vol then sched_sleep K ?p s else s)"
  have s1: "core_inv K E s1 \<and> sched_frame s s1"
  proof (cases vol)
    case True
    then have "?p \<noteq> idle (rq s)" using sys_invD(7) [OF i] by (auto simp: vol_def TASK_RUNNING_def)
    then have "on_rq (tasks s ?p)" by (rule sys_invD(6) [OF i])
    from sched_sleep_effect [OF K sys_invD(1) [OF i] this w] sys_invD(8) [OF i] True show ?thesis by (simp add: s1_def)
  qed (use sys_invD(1) [OF i] in \<open>simp add: s1_def sched_frame_def\<close>)
  define s2 where "s2 = put_prev_task K ?p s1"
  note ok = ext_queues_ok [OF K]
  have q1: "queues E (kernel K) (on_queue s1) s1" using s1 by (simp add: core_inv_def)
  have s2: "ids_same s1 s2" "queues E (kernel K) (on_queue s1) s2"
  proof -
    let ?t = "if on_rq (tasks s1 ?p) \<or> skip_clock_update (rq s1) < 0 then update_rq_clock K s1 else s1"
    have t: "ids_same s1 ?t" "queues E (kernel K) (on_queue s1) ?t" using q1 q_update_rq_clock by simp_all
    have e: "s2 = put_prev_op (task_class K ?t ?p) ?p ?t" by (simp add: s2_def put_prev_task_def Let_def)
    show "ids_same s1 s2" unfolding e by (rule ids_same_trans [OF t(1) class_keeps.put_prev_ids [OF task_class_keeps [OF ok]]])
    show "queues E (kernel K) (on_queue s1) s2"
      unfolding e task_class_def by (rule class_queues.q_put_prev [OF class_of_queues [OF K] t(2)])
  qed
  then have q2: "queues E (kernel K) (on_queue s2) s2" by (simp add: on_queue_ids)
  obtain nxt s3 where s3: "pick_next_task K s2 = Some (nxt, s3)" "queues E (kernel K) (on_queue s2) s3" "ids_same s2 s3"
    "nxt \<noteq> idle (rq s2) \<longrightarrow> on_rq (tasks s2 nxt)"
    using pick_next_task_effect [OF K q2] by blast
  define s4 where "s4 = upd_rq (\<lambda>r. r\<lparr>skip_clock_update := 0\<rparr>) (clear_tsk_need_resched ?p s3)"
  define s5 where "s5 = (if ?p \<noteq> nxt
      then upd_task ?p (\<lambda>t. if vol then t\<lparr>nvcsw := nvcsw t + 1\<rparr> else t\<lparr>nivcsw := nivcsw t + 1\<rparr>)
             (upd_rq (\<lambda>r. r\<lparr>nr_switches := nr_switches r + 1, curr := nxt\<rparr>) s4) else s4)"
  have run: "schedule_once K act s = Some s5"
    unfolding schedule_once_def Let_def vol_def [symmetric] s1_def [symmetric] s2_def [symmetric] s3(1)
    by (simp add: s4_def s5_def)
  have i13: "ids_same s1 s3" by (rule ids_same_trans [OF s2(1) s3(3)])
  have t5: "sched_id (tasks s5 q) = sched_id (tasks s1 q)" for q
    using i13 by (simp add: s5_def s4_def clear_tsk_need_resched_def upd_defs sched_id_def ids_same_def)
  have t5f: "on_rq (tasks s5 q) = on_rq (tasks s1 q)" "sched_class (tasks s5 q) = sched_class (tasks s1 q)"
    "tstate (tasks s5 q) = tstate (tasks s1 q)" "task_fit (tasks s5 q) = task_fit (tasks s1 q)" for q
    using t5 [of q] task_fit_cong [OF t5 [of q]] by (simp_all add: sched_id_def)
  have r5: "curr (rq s5) = nxt" "idle (rq s5) = idle (rq s)"
    using i13 s1 by (auto simp: s5_def s4_def clear_tsk_need_resched_def upd_defs ids_same_def sched_frame_def)
  have o5: "on_queue s5 = on_queue s1" by (rule ext) (simp add: on_queue_def t5f)
  have q3: "queues E (kernel K) (on_queue s1) s3" using s3(2) on_queue_ids [OF s2(1)] by simp
  have "queues E (kernel K) (on_queue s1) (clear_tsk_need_resched ?p s3)"
    by (rule queues_same [OF q3]) (simp_all add: clear_tsk_need_resched_def)
  then have q4: "queues E (kernel K) (on_queue s1) s4" unfolding s4_def by (rule q_upd_rq) simp
  have "queues E (kernel K) (on_queue s1) (upd_rq (\<lambda>r. r\<lparr>nr_switches := nr_switches r + 1, curr := nxt\<rparr>) s4)"
    by (rule q_upd_rq [OF q4]) simp
  then have q5: "queues E (kernel K) (on_queue s5) s5"
    unfolding o5 unfolding s5_def using q4 upd_task_queues [of E "kernel K" "on_queue s1"] by simp
  have "on_rq (tasks s1 nxt)" if "nxt \<noteq> idle (rq s)"
    using s3(4) that s2(1) ids_same_fields(8) [OF s2(1)] s1 by (simp add: ids_same_def sched_frame_def)
  moreover have "TaskSE nxt \<in> E"
  proof (cases "nxt = idle (rq s)")
    case False
    then have "on_queue s1 nxt = Some (sched_class (tasks s1 nxt))" using calculation by (simp add: on_queue_def)
    then show ?thesis by (rule queuesD(7) [OF q1])
  qed (simp add: sys_invD(5) [OF i])
  moreover have "tstate (tasks s1 (idle (rq s))) = TASK_RUNNING"
    using conjunct2 [OF s1] sys_invD(7) [OF i] unfolding sched_frame_def by (metis empty_iff insert_iff)
  moreover have "q = idle (rq s)" if "sched_class (tasks s1 q) = idle_sched_class" for q
    using that s1 sys_invD(8) [OF i] by (simp add: sched_frame_def)
  moreover have "task_fit (tasks s1 p)" if "TaskSE p \<in> E" for p using s1 that by (simp add: core_inv_def)
  ultimately have i5: "sys_inv K E s5"
    using q5 sys_invD(5) [OF i] by (simp add: sys_inv_def core_inv_def t5f r5)
  have "on_queue s5 nxt \<in> {Some rt_sched_class, Some ras_sched_class}" if r: "on_queue s5 r = Some ras_sched_class" for r
  proof -
    have o2: "on_queue s2 = on_queue s5" using on_queue_ids [OF s2(1)] o5 by simp
    have "on_queue s2 nxt \<in> {Some rt_sched_class, Some ras_sched_class}"
      by (rule pick_over_fair [OF K q2 _ _ s3(1)]) (use r sys_invD(9) [OF i5] in \<open>simp_all add: o2\<close>)
    then show ?thesis by (simp add: o2)
  qed
  then show ?thesis using run i5 r5(1) by blast
qed

end
