(* ===== verification/Core_Kernel.thy ===== *)
theory Core_Kernel
  imports Core_System Core_Boot_Proofs
begin

text \<open>
  Every state the scheduler reaches from its start: the entry points that change priorities,
  policies and groups, forking, ticks, the period timer and new groups keep the invariant of the
  system, which \<open>sched_init\<close> establishes.
\<close>

section \<open>Changes of priority, policy and group\<close>

lemma changed:
  assumes K: "ext_queues K" and i: "sys_inv K E s" and p: "TaskSE p \<in> E"
    and q2: "queues E (kernel K) ((on_queue s)(p := None)) s2" and o2: "others_same p s s2"
    and f2: "task_fit (tasks s2 p)" "on_rq (tasks s2 p) = on_rq (tasks s p)" "tstate (tasks s2 p) = tstate (tasks s p)"
      "sched_class (tasks s2 p) = idle_sched_class \<Longrightarrow> sched_class (tasks s p) = idle_sched_class"
    and s3: "s3 = resume_task K p flags (on_rq (tasks s p)) running s2"
  shows "sys_inv K E s3" "others_same p s s3" "task_fit (tasks s3 p)"
proof -
  have id: "ids_same s2 s3" unfolding s3 by (rule ids_same_resume [OF ext_queues_ok [OF K]])
  note f3 = ids_same_fields(6-8) [OF id]
  have nq: "sched_class (tasks s2 p) \<noteq> idle_sched_class" if "on_rq (tasks s p)"
    using f2(4) sys_invD(10) [OF i, of p] that by (auto simp: on_queue_def)
  have q3: "queues E (kernel K) ((on_queue s)(p := None, p := if on_rq (tasks s p) then Some (sched_class (tasks s2 p)) else None)) s3"
    unfolding s3 by (rule q_resume_task [OF K q2]) (use p f2(1) nq in simp_all)
  show o: "others_same p s s3" by (rule others_same_trans [OF o2 ids_others [OF id]])
  have "on_queue s3 x = ((on_queue s)(p := if on_rq (tasks s p) then Some (sched_class (tasks s2 p)) else None)) x" for x
    using o f3 f2(2) by (cases "x = p") (simp_all add: on_queue_def others_same_def sched_id_def)
  then have oq: "on_queue s3 = (on_queue s)(p := if on_rq (tasks s p) then Some (sched_class (tasks s2 p)) else None)" by (rule ext)
  show f: "task_fit (tasks s3 p)" using f2(1) ids_same_fit [OF id] by simp
  have "queues E (kernel K) (on_queue s3) s3" using q3 unfolding oq fun_upd_upd .
  from core_inv_others [OF sys_invD(1) [OF i] o this f]
  show "sys_inv K E s3"
    by (rule sys_inv_others [OF i _ o]) (use f2 f3 sys_invD(8) [OF i] in auto)
qed

lemma suspended:
  assumes K: "ext_queues K" and i: "sys_inv K E s"
  shows "queues E (kernel K) ((on_queue s)(p := None)) (suspend_task K p (on_rq (tasks s p)) running s)"
    "ids_same s (suspend_task K p (on_rq (tasks s p)) running s)"
  using q_suspend_task [OF K sys_invD(2) [OF i]] ids_same_suspend [OF ext_queues_ok [OF K]] by blast+

lemma sys_inv_class_changed:
  assumes "ext_queues K" "sys_inv K E s"
  shows "sys_inv K E (check_class_changed K p c oldprio s)"
  by (rule sys_inv_ids [OF assms(2) ids_same_class_changed [OF ext_queues_ok [OF assms(1)]] q_class_changed [OF assms(1) sys_invD(2) [OF assms(2)]]])

lemma q_off_queue: "\<lbrakk>queues E env A s; A p = None\<rbrakk> \<Longrightarrow> queues E env A (upd_task p f s)"
  by (rule upd_task_queues) simp_all

lemma class_for_fit: "class_for pol pr \<noteq> idle_sched_class" "class_for pol pr \<noteq> stop_sched_class"
  "class_for pol pr = rt_sched_class \<Longrightarrow> pr < 100"
  by (auto simp: class_for_def rt_prio_def prio_defs split: if_splits)

lemma rt_mutex_setprio_inv:
  assumes K: "ext_queues K" and i: "sys_inv K E s" and p: "TaskSE p \<in> E" and pr: "0 \<le> pr" "pr \<le> MAX_PRIO"
  shows "\<exists>s'. rt_mutex_setprio K p pr s = Some s' \<and> sys_inv K E s'"
proof (cases "p = idle (rq s)")
  case True
  then show ?thesis using i pr by (simp add: rt_mutex_setprio_def)
next
  case False
  define s1 where "s1 = suspend_task K p (on_rq (tasks s p)) (task_current s p) s"
  define s2 where "s2 = upd_task p (\<lambda>t. t\<lparr>sched_class := class_for (policy t) pr, prio := pr\<rparr>) s1"
  define s3 where "s3 = resume_task K p (if prio (tasks s p) < pr then ENQUEUE_HEAD else 0) (on_rq (tasks s p)) (task_current s p) s2"
  note s1 = suspended [OF K i, of p "task_current s p", folded s1_def]
  have q2: "queues E (kernel K) ((on_queue s)(p := None)) s2" unfolding s2_def by (rule q_off_queue [OF s1(1)]) simp
  have o2: "others_same p s s2" unfolding s2_def by (rule others_same_trans [OF ids_others [OF s1(2)] others_same_upd])
  have "task_fit (tasks s1 p)" using sys_invD(3) [OF i p] ids_same_fit [OF s1(2)] by simp
  then have f2: "task_fit (tasks s2 p)" using pr class_for_fit by (simp add: s2_def upd_task_def task_fit_def)
  have g2: "on_rq (tasks s2 p) = on_rq (tasks s p)" "tstate (tasks s2 p) = tstate (tasks s p)" "sched_class (tasks s2 p) \<noteq> idle_sched_class"
    using ids_same_fields(7,8) [OF s1(2)] class_for_fit by (simp_all add: s2_def upd_task_def)
  have "sys_inv K E s3" by (rule changed [OF K i p q2 o2 f2 g2(1,2) _ s3_def]) (simp add: g2(3))
  from sys_inv_class_changed [OF K this] show ?thesis
    using False pr by (simp add: rt_mutex_setprio_def Let_def s1_def s2_def s3_def)
qed

lemma set_load_weight_queues:
  assumes "queues E env A s" "100 \<le> static_prio (tasks s p) \<and> static_prio (tasks s p) \<le> 139"
  shows "\<exists>s'. set_load_weight p s = Some s' \<and> ids_same s s' \<and> queues E env A s'"
proof -
  have "queues E env A (upd_task p (\<lambda>t. t\<lparr>se := f t\<rparr>) s)" for f by (rule upd_task_queues [OF assms(1)]) simp_all
  then show ?thesis
    using assms(2) by (simp add: set_load_weight_def Let_def prio_defs ids_same_se)
qed

lemma setscheduler_change:
  assumes K: "getprio_ok K" and q: "queues E env A s" "A p = None" and f: "task_fit (tasks s p)" and pr: "0 \<le> pr" "pr \<le> 99"
  shows "\<exists>s'. setscheduler K p pol pr s = Some s' \<and> queues E env A s' \<and> others_same p s s' \<and> task_fit (tasks s' p) \<and>
    sched_class (tasks s' p) \<noteq> idle_sched_class \<and> on_rq (tasks s' p) = on_rq (tasks s p) \<and> tstate (tasks s' p) = tstate (tasks s p)"
proof -
  define s2 where "s2 = upd_task p (\<lambda>t. t\<lparr>normal_prio := normal_prio_of t\<rparr>) (upd_task p (\<lambda>t. t\<lparr>policy := pol, rt_priority := pr\<rparr>) s)"
  define g where "g = rt_mutex_getprio K p s2"
  define s4 where "s4 = upd_task p (\<lambda>t. t\<lparr>sched_class := class_for pol (prio t)\<rparr>) (upd_task p (\<lambda>t. t\<lparr>prio := g\<rparr>) s2)"
  have n: "normal_prio (tasks s2 p) = normal_prio_of (tasks s2 p)" "rt_priority (tasks s2 p) = pr" "static_prio (tasks s2 p) = static_prio (tasks s p)"
    by (simp_all add: s2_def upd_task_def normal_prio_of_def task_has_rt_policy_def)
  have "0 \<le> normal_prio (tasks s2 p)" using normal_prio_range [of "tasks s2 p"] n pr f by (simp add: task_fit_def)
  then have g: "0 \<le> g" using K unfolding getprio_ok_def g_def by blast
  have f4: "task_fit (tasks s4 p)"
    using f g pr n class_for_fit \<open>0 \<le> normal_prio (tasks s2 p)\<close> by (simp add: s4_def upd_task_def task_fit_def)
  have q4: "queues E env A s4" unfolding s4_def s2_def by (intro q_off_queue q)
  have o4: "others_same p s s4" unfolding s4_def s2_def by (simp add: others_same_def upd_task_def)
  have g4: "sched_class (tasks s4 p) \<noteq> idle_sched_class" "on_rq (tasks s4 p) = on_rq (tasks s p)" "tstate (tasks s4 p) = tstate (tasks s p)"
    using class_for_fit by (simp_all add: s4_def s2_def upd_task_def)
  obtain s' where s': "set_load_weight p s4 = Some s'" "ids_same s4 s'" "queues E env A s'"
    using set_load_weight_queues [OF q4, of p] f4 by (auto simp: task_fit_def)
  have "setscheduler K p pol pr s = Some s'" using s'(1) by (simp add: setscheduler_def Let_def s4_def s2_def g_def)
  then show ?thesis
    using s'(3) others_same_trans [OF o4 ids_others [OF s'(2)]] f4 g4 ids_same_fit [OF s'(2)] ids_same_fields(6-8) [OF s'(2)] by simp
qed

lemma change_scheduler_inv:
  assumes K: "ext_queues K" "getprio_ok K" and i: "sys_inv K E s" and p: "TaskSE p \<in> E" and pr: "0 \<le> pr" "pr \<le> 99"
  shows "\<exists>s'. change_scheduler K p pol pr reset s = Some (0, s') \<and> sys_inv K E s'"
proof -
  define s1 where "s1 = suspend_task K p (on_rq (tasks s p)) (task_current s p) s"
  define s2 where "s2 = upd_task p (\<lambda>t. t\<lparr>sched_reset_on_fork := reset\<rparr>) s1"
  note s1 = suspended [OF K(1) i, of p "task_current s p", folded s1_def]
  have q2: "queues E (kernel K) ((on_queue s)(p := None)) s2" unfolding s2_def by (rule q_off_queue [OF s1(1)]) simp
  have o2: "others_same p s s2" unfolding s2_def by (rule others_same_trans [OF ids_others [OF s1(2)] others_same_upd])
  have f1: "task_fit (tasks s1 p)" using sys_invD(3) [OF i p] ids_same_fit [OF s1(2)] by simp
  then have f2: "task_fit (tasks s2 p)" by (simp add: s2_def upd_task_def task_fit_def)
  have g2: "on_rq (tasks s2 p) = on_rq (tasks s p)" "tstate (tasks s2 p) = tstate (tasks s p)"
    using ids_same_fields(7,8) [OF s1(2)] by (simp_all add: s2_def upd_task_def)
  obtain s3 where s3: "setscheduler K p pol pr s2 = Some s3" "queues E (kernel K) ((on_queue s)(p := None)) s3" "others_same p s2 s3"
    "task_fit (tasks s3 p)" "sched_class (tasks s3 p) \<noteq> idle_sched_class" "on_rq (tasks s3 p) = on_rq (tasks s2 p)"
    "tstate (tasks s3 p) = tstate (tasks s2 p)"
    using setscheduler_change [OF K(2) q2 _ f2 pr] by auto
  define s4 where "s4 = resume_task K p 0 (on_rq (tasks s p)) (task_current s p) s3"
  have i4: "sys_inv K E s4"
    by (rule changed [OF K(1) i p s3(2) others_same_trans [OF o2 s3(3)] s3(4) _ _ _ s4_def]) (simp_all add: s3(5-7) g2)
  define s5 where "s5 = check_class_changed K p (sched_class (tasks s2 p)) (prio (tasks s2 p)) s4"
  have i5: "sys_inv K E s5" unfolding s5_def by (rule sys_inv_class_changed [OF K(1) i4])
  have "sys_inv K E (emit (Rt_mutex_adjust_pi p) s5)"
    by (rule sys_inv_ids [OF i5 ids_same_upd(5) queues_same [OF sys_invD(2) [OF i5]]]) simp_all
  moreover have "change_scheduler K p pol pr reset s = Some (0, emit (Rt_mutex_adjust_pi p) s5)"
    using s3(1) by (simp add: change_scheduler_def Let_def s1_def s2_def s4_def s5_def)
  ultimately show ?thesis by blast
qed

lemma sched_setscheduler1_inv:
  assumes K: "ext_queues K" "getprio_ok K" and i: "sys_inv K E s" and p: "TaskSE p \<in> E"
  shows "\<exists>r s'. sched_setscheduler1 K p asked pr user s = Some (r, s') \<and> sys_inv K E s'"
proof -
  have "\<exists>r s'. change_scheduler K p pol pr reset s = Some (r, s') \<and> sys_inv K E s'" if "0 \<le> pr" "pr \<le> 99" for pol reset
    using change_scheduler_inv [OF K i p that] by blast
  then show ?thesis unfolding sched_setscheduler1_def Let_def using i by (auto simp: prio_defs)
qed

lemma set_user_nice_inv:
  assumes K: "ext_queues K" and i: "sys_inv K E s" and p: "TaskSE p \<in> E"
  shows "\<exists>s'. set_user_nice K p nice s = Some s' \<and> sys_inv K E s'"
proof (cases "TASK_NICE (tasks s p) = nice \<or> nice < - 20 \<or> nice > 19")
  case True
  then show ?thesis using i by (simp add: set_user_nice_def)
next
  case False
  then have n: "- 20 \<le> nice" "nice \<le> 19" by auto
  note fit = sys_invD(3) [OF i p]
  show ?thesis
  proof (cases "task_has_rt_policy (tasks s p)")
    case True
    let ?u = "upd_task p (\<lambda>t. t\<lparr>static_prio := NICE_TO_PRIO nice\<rparr>) s"
    have "core_inv K E ?u"
      by (rule core_inv_upd [OF sys_invD(1) [OF i]]) (use n in \<open>simp_all add: task_fit_def NICE_TO_PRIO_def prio_defs\<close>)
    then have "sys_inv K E ?u"
      by (rule sys_inv_others [OF i _ others_same_upd]) (use sys_invD(8) [OF i] in \<open>auto simp: upd_task_def\<close>)
    then show ?thesis using False True by (simp add: set_user_nice_def)
  next
    case nrt: False
    define s1 where "s1 = (if on_rq (tasks s p) then dequeue_task K p 0 s else s)"
    have e1: "s1 = suspend_task K p (on_rq (tasks s p)) False s" by (simp add: s1_def suspend_task_def)
    note s1 = suspended [OF K i, of p False, folded e1]
    define u where "u = upd_task p (\<lambda>t. t\<lparr>static_prio := NICE_TO_PRIO nice\<rparr>) s1"
    have fu: "task_fit (tasks u p)"
      using fit ids_same_fit [OF s1(2), of p] n by (simp add: u_def upd_task_def task_fit_def NICE_TO_PRIO_def prio_defs)
    have qu: "queues E (kernel K) ((on_queue s)(p := None)) u" unfolding u_def by (rule q_off_queue [OF s1(1)]) simp
    obtain s2 where s2: "set_load_weight p u = Some s2" "ids_same u s2" "queues E (kernel K) ((on_queue s)(p := None)) s2"
      using set_load_weight_queues [OF qu, of p] fu by (auto simp: task_fit_def)
    obtain pr s3 where s3: "effective_prio p s2 = (pr, s3)" by fastforce
    define s4 where "s4 = upd_task p (\<lambda>t. t\<lparr>prio := pr\<rparr>) s3"
    have s3e: "s3 = upd_task p (\<lambda>t. t\<lparr>normal_prio := normal_prio_of t\<rparr>) s2"
      "pr = (if \<not> rt_prio (prio (tasks s2 p)) then normal_prio_of (tasks s2 p) else prio (tasks s2 p))"
      using s3 by (auto simp: effective_prio_def Let_def upd_task_def)
    have q4: "queues E (kernel K) ((on_queue s)(p := None)) s4" unfolding s4_def s3e(1) by (intro q_off_queue s2(3)) simp_all
    have o4: "others_same p s s4"
      unfolding s4_def s3e(1)
      by (intro others_same_trans [OF _ others_same_upd] others_same_trans [OF _ ids_others [OF s2(2)]])
        (simp add: u_def others_same_trans [OF ids_others [OF s1(2)] others_same_upd])
    have f2: "task_fit (tasks s2 p)" using fu ids_same_fit [OF s2(2)] by simp
    have "0 \<le> normal_prio_of (tasks s2 p)" using normal_prio_range [of "tasks s2 p"] f2 by (simp add: task_fit_def)
    then have f4: "task_fit (tasks s4 p)"
      using f2 by (auto simp: s4_def s3e upd_task_def task_fit_def rt_prio_def prio_defs)
    have g4: "on_rq (tasks s4 p) = on_rq (tasks s p)" "tstate (tasks s4 p) = tstate (tasks s p)" "sched_class (tasks s4 p) = sched_class (tasks s p)"
      using ids_same_fields(6-8) [OF s2(2), of p] ids_same_fields(6-8) [OF s1(2), of p] by (simp_all add: s4_def s3e(1) u_def upd_task_def)
    define s5 where "s5 = resume_task K p 0 (on_rq (tasks s p)) False s4"
    have i5: "sys_inv K E s5" by (rule changed [OF K i p q4 o4 f4 g4(1,2) _ s5_def]) (simp add: g4(3))
    have i6: "sys_inv K E (resched_task c s5)" for c
      by (rule sys_inv_ids [OF i5 ids_same_simple(1) queues_same [OF sys_invD(2) [OF i5]]]) simp_all
    have "\<exists>s'. set_user_nice K p nice s = Some s' \<and> (s' = s5 \<or> (\<exists>c. s' = resched_task c s5))"
      using False nrt s2(1) s3
      by (auto simp: set_user_nice_def Let_def s1_def [symmetric] u_def [symmetric] s4_def [symmetric] s5_def resume_task_def)
    then show ?thesis using i5 i6 by blast
  qed
qed

lemma q_set_task_rq:
  assumes q: "queues E env A s" and p: "A p = None"
  shows "queues E env A (set_task_rq p s)" "ids_same s (set_task_rq p s)"
proof -
  let ?s' = "set_task_rq p s"
  have n: "\<not> on_rt_rq s (TaskSE p)" using on_rt_rq_iff [OF queuesD(3) [OF q]] queuesD(5) [OF q] p by simp
  have g: "group_linked E g s" for g using queuesD(2) [OF q] by (simp add: rt_linked_def)
  have e: "my_q (rt_ses ?s' y) = my_q (rt_ses s y)" "tgs ?s' = tgs s" "rt_rqs ?s' = rt_rqs s" "tasks ?s' = tasks s" "rq ?s' = rq s" for y
    by (simp_all add: set_task_rq_def Let_def upd_rt_se_def)
  have "group_linked E h ?s' = group_linked E h s" for h unfolding group_linked_def e ..
  then have l: "rt_linked E ?s'" using set_task_rq_inv [OF queuesD(3) [OF q] n g] g by (simp add: rt_linked_def)
  have "ras_inv env ?s'" by (rule ras_invI [OF queuesD(4) [OF q]]) (simp_all add: e)
  then show "queues E env A ?s'" using q l by (simp add: queues_def rt_queued_def e)
  show "ids_same s ?s'" by (simp add: ids_same_def e)
qed

lemma sched_move_task_inv:
  assumes K: "ext_queues K" and i: "sys_inv K E s" and p: "TaskSE p \<in> E"
  shows "sys_inv K E (sched_move_task K p g s)"
proof -
  define s1 where "s1 = suspend_task K p (on_rq (tasks s p)) (task_current s p) s"
  define s2 where "s2 = upd_task p (\<lambda>t. t\<lparr>sched_task_group := g\<rparr>) s1"
  define s3 where "s3 = (case task_move_group_op (task_class K s2 p) of None \<Rightarrow> set_task_rq p s2 | Some f \<Rightarrow> f p (on_rq (tasks s p)) s2)"
  note s1 = suspended [OF K i, of p "task_current s p", folded s1_def]
  have q2: "queues E (kernel K) ((on_queue s)(p := None)) s2" unfolding s2_def by (rule q_off_queue [OF s1(1)]) simp
  have i2: "ids_same s s2"
    unfolding s2_def by (rule ids_same_trans [OF s1(2) ids_same_upd(1)]) (simp add: sched_id_def)
  define A where "A = (on_queue s)(p := None)"
  have n: "A p = None" "queues E (kernel K) A s2" using q2 by (simp_all add: A_def)
  have q3: "queues E (kernel K) A s3" "ids_same s2 s3"
    using q_set_task_rq [OF n(2,1)] class_queues.q_task_move [OF class_of_queues [OF K] n(2,1)]
      class_keeps.task_move_ids [OF class_of_keeps [OF ext_queues_ok [OF K]]]
    by (auto simp: s3_def task_class_def split: option.split)
  have i3: "ids_same s s3" by (rule ids_same_trans [OF i2 q3(2)])
  have "sys_inv K E (resume_task K p 0 (on_rq (tasks s p)) (task_current s p) s3)"
    by (rule changed [OF K i p q3(1) [unfolded A_def] ids_others [OF i3] _ _ _ _ refl])
      (simp_all add: ids_same_fit [OF i3] sys_invD(3) [OF i p] ids_same_fields(6-8) [OF i3])
  then show ?thesis unfolding sched_move_task_def Let_def s1_def [symmetric] s2_def [symmetric] s3_def [symmetric] .
qed

section \<open>Forking\<close>

text \<open>The copy of the running task that \<open>fork.c\<close> makes before it calls \<open>sched_fork\<close>.\<close>

definition copy_current :: "task \<Rightarrow> sched_state \<Rightarrow> sched_state" where
  "copy_current p s = s\<lparr>tasks := (tasks s)(p := tasks s (curr (rq s))),
     rt_ses := (rt_ses s)(TaskSE p := rt_ses s (TaskSE (curr (rq s))))\<rparr>"

lemma copied_entity:
  assumes q: "queues E env A s" and p: "A p = None" and c: "TaskSE c \<in> E" and card: "card (insert (TaskSE p) E) < 2 ^ 32"
    and s': "s' = s\<lparr>rt_ses := (rt_ses s)(TaskSE p := rt_ses s (TaskSE c))\<rparr>"
  shows "queues (insert (TaskSE p) E) env A s'"
proof -
  let ?E = "insert (TaskSE p) E"
  note inv = queuesD(3) [OF q]
  note hi = rt_invD(3) [OF inv]
  have e: "my_q (rt_ses s' y) = my_q (rt_ses s y)" "tgs s' = tgs s" "rt_rqs s' = rt_rqs s" "tasks s' = tasks s" "rq s' = rq s"
    "y \<noteq> TaskSE p \<Longrightarrow> rt_ses s' y = rt_ses s y" "rt_ses s' (TaskSE p) = rt_ses s (TaskSE c)" for y
    using hierD(3) [OF hi] by (simp_all add: s')
  have b: "se_below (TaskSE p) x" if "rt_parent (rt_ses s (TaskSE c)) = Some x" for x
    using hierD(1) [OF hi that] by (cases x) simp_all
  have "se_below a x" if "rt_parent (rt_ses s' a) = Some x" for a x
    using that e(6,7) b hierD(1) [OF hi, of a x] by (cases "a = TaskSE p") auto
  moreover have "rt_parent (rt_ses s' a) = Some x \<longleftrightarrow> my_q (rt_ses s' x) = Some (rt_rq_of (rt_ses s' a))" for a x
    using e hierD(2) [OF hi] by (cases "a = TaskSE p") simp_all
  ultimately have h: "hier (rt_ses s')" using e(1) hierD(3) [OF hi] unfolding hier_def by simp
  have up: "x \<in> ?E" if "a \<in> ?E" "rt_parent (rt_ses s' a) = Some x" for a x
    using that e(6,7) rt_invD(5) [OF inv, of a x] rt_invD(5) [OF inv c, of x] by (cases "a = TaskSE p") auto
  have "rt_se_prio s' a = rt_se_prio s a" for a unfolding rt_se_prio_def e ..
  moreover have "a \<noteq> TaskSE p" if "a \<in> set (queue (rt_rqs s g) k)" for a g k
    using that queuesD(5) [OF q, of p] p by (auto simp: rt_queued_def)
  ultimately have qd: "a \<in> ?E \<and> rt_rq_of (rt_ses s' a) = g \<and> rt_se_prio s' a = k" if "a \<in> set (queue (rt_rqs s' g) k)" for a g k
    using that rt_invD(6) [OF inv, of a g k] e(3,6) by auto
  have "my_q (rt_ses s' (GroupSE g)) \<noteq> None" if "GroupSE g \<in> ?E" for g using that e(1) rt_invD(7) [OF inv] by auto
  then have r: "rt_inv ?E s'"
    unfolding rt_inv_def using card rt_invD(1) [OF inv] h up qd rt_invD(4) [OF inv] e(3) by auto
  have "group_linked ?E g s'" for g
  proof -
    have "group_linked E g s" using queuesD(2) [OF q] by (simp add: rt_linked_def)
    then show ?thesis unfolding group_linked_def e by (auto split: option.splits)
  qed
  then have l: "rt_linked ?E s'" using r by (simp add: rt_linked_def)
  have "ras_inv env s'" by (rule ras_invI [OF queuesD(4) [OF q]]) (simp_all add: e)
  then show ?thesis using q l by (simp add: queues_def rt_queued_def e)
qed

text \<open>A child on its way: its class may not fit its priority yet.\<close>

definition child_fit :: "task_struct \<Rightarrow> bool" where
  "child_fit t \<longleftrightarrow> 100 \<le> static_prio t \<and> static_prio t \<le> 139 \<and> 0 \<le> rt_priority t \<and> rt_priority t \<le> 99 \<and>
     0 \<le> normal_prio t \<and> 0 \<le> prio t \<and> sched_class t \<notin> {stop_sched_class, idle_sched_class} \<and>
     \<not> on_rq t \<and> tstate t = TASK_RUNNING"

lemma child_fit_ids: "ids_same s s' \<Longrightarrow> child_fit (tasks s' p) = child_fit (tasks s p)"
  by (simp add: child_fit_def ids_same_fields)

lemma reset_on_fork_effect:
  assumes q: "queues E env A s" "A p = None" and f: "child_fit (tasks s p)"
  shows "\<exists>s'. reset_on_fork p s = Some s' \<and> queues E env A s' \<and> others_same p s s' \<and> child_fit (tasks s' p)"
proof (cases "sched_reset_on_fork (tasks s p)")
  case False
  then show ?thesis using q f by (simp add: reset_on_fork_def others_same_def)
next
  case True
  define s1 where "s1 = (if task_has_rt_policy (tasks s p)
      then upd_task p (\<lambda>t. t\<lparr>policy := SCHED_NORMAL, static_prio := NICE_TO_PRIO 0, rt_priority := 0\<rparr>) s
      else if PRIO_TO_NICE (static_prio (tasks s p)) < 0 then upd_task p (\<lambda>t. t\<lparr>static_prio := NICE_TO_PRIO 0\<rparr>) s else s)"
  define s2 where "s2 = upd_task p (\<lambda>t. t\<lparr>prio := static_prio t, normal_prio := static_prio t\<rparr>) s1"
  have q2: "queues E env A s2" unfolding s2_def s1_def using q_off_queue q by simp
  have f2: "child_fit (tasks s2 p)" using f by (simp add: s2_def s1_def upd_task_def child_fit_def NICE_TO_PRIO_def prio_defs)
  have o2: "others_same p s s2" by (simp add: s2_def s1_def upd_task_def others_same_def)
  obtain s3 where s3: "set_load_weight p s2 = Some s3" "ids_same s2 s3" "queues E env A s3"
    using set_load_weight_queues [OF q2, of p] f2 by (auto simp: child_fit_def)
  let ?s4 = "upd_task p (\<lambda>t. t\<lparr>sched_reset_on_fork := False\<rparr>) s3"
  have "reset_on_fork p s = Some ?s4" using True s3(1) by (simp add: reset_on_fork_def Let_def s1_def s2_def)
  moreover have "child_fit (tasks ?s4 p)" using f2 child_fit_ids [OF s3(2), of p] by (simp add: upd_task_def child_fit_def)
  moreover have "others_same p s ?s4"
    by (rule others_same_trans [OF others_same_trans [OF o2 ids_others [OF s3(2)]] others_same_upd])
  ultimately show ?thesis using q_off_queue [OF s3(3) q(2)] by blast
qed

lemma sched_fork_inv:
  assumes K: "ext_queues K" and i: "sys_inv K E s"
    and p: "\<not> on_rq (tasks s p)" "p \<noteq> curr (rq s)" "p \<noteq> idle (rq s)" "card (insert (TaskSE p) E) < 2 ^ 32"
    and c: "sched_class (tasks s (curr (rq s))) \<noteq> idle_sched_class"
  shows "\<exists>s'. sched_fork K p (copy_current p s) = Some s' \<and> sys_inv K (insert (TaskSE p) E) s' \<and>
    others_same p s s' \<and> \<not> on_rq (tasks s' p)"
proof -
  let ?c = "curr (rq s)" and ?E = "insert (TaskSE p) E"
  define s1 where "s1 = sched_fork1 p (copy_current p s)"
  define s2 where "s2 = upd_task p (\<lambda>t. t\<lparr>tstate := TASK_RUNNING, prio := normal_prio (tasks s1 (curr (rq s1)))\<rparr>) s1"
  have np: "on_queue s p = None" using p(1) by (simp add: on_queue_def)
  define r where "r = s\<lparr>rt_ses := (rt_ses s)(TaskSE p := rt_ses s (TaskSE ?c))\<rparr>"
  have qr: "queues ?E (kernel K) (on_queue s) r" by (rule copied_entity [OF sys_invD(2) [OF i] np sys_invD(4) [OF i] p(4) r_def])
  have "s1 = upd_task p (\<lambda>_. tasks s1 p) r"
    by (simp add: s1_def r_def copy_current_def sched_fork1_def upd_task_def)
  then have q1: "queues ?E (kernel K) (on_queue s) s1" using q_off_queue [OF qr np] by metis
  have q2: "queues ?E (kernel K) (on_queue s) s2" unfolding s2_def by (rule q_off_queue [OF q1 np])
  have o2: "others_same p s s2"
    by (simp add: s2_def s1_def copy_current_def sched_fork1_def upd_task_def others_same_def)
  have fc: "task_fit (tasks s ?c)" by (rule sys_invD(3) [OF i sys_invD(4) [OF i]])
  have f2: "child_fit (tasks s2 p)"
    using fc c p(2) by (simp add: s2_def s1_def copy_current_def sched_fork1_def upd_task_def child_fit_def task_fit_def)
  obtain s3 where s3: "reset_on_fork p s2 = Some s3" "queues ?E (kernel K) (on_queue s) s3" "others_same p s2 s3" "child_fit (tasks s3 p)"
    using reset_on_fork_effect [OF q2 np f2] by blast
  define s4 where "s4 = (if \<not> rt_prio (prio (tasks s3 p)) then upd_task p (\<lambda>t. t\<lparr>sched_class := fair_sched_class\<rparr>) s3 else s3)"
  have q4: "queues ?E (kernel K) (on_queue s) s4" using s3(2) q_off_queue [OF s3(2) np] by (simp add: s4_def)
  have f4: "child_fit (tasks s4 p)" "task_fit (tasks s4 p)"
    using s3(4) by (auto simp: s4_def upd_task_def child_fit_def task_fit_def rt_prio_def prio_defs)
  define s5 where "s5 = (case task_fork_op (task_class K s4 p) of None \<Rightarrow> s4 | Some f \<Rightarrow> f p s4)"
  have s5: "queues ?E (kernel K) (on_queue s) s5" "ids_same s4 s5"
    using q4 class_queues.q_task_fork [OF class_of_queues [OF K] q4 np] class_keeps.task_fork_ids [OF class_of_keeps [OF ext_queues_ok [OF K]]]
    by (auto simp: s5_def task_class_def split: option.split)
  have run: "sched_fork K p (copy_current p s) = Some s5"
    unfolding sched_fork_def Let_def s1_def [symmetric] s2_def [symmetric] s3(1) option.case s4_def [symmetric] s5_def [symmetric] ..
  have o4: "others_same p s s4" using others_same_trans [OF o2 s3(3)] others_same_trans [OF _ others_same_upd] by (simp add: s4_def)
  have o5: "others_same p s s5" by (rule others_same_trans [OF o4 ids_others [OF s5(2)]])
  have f5: "child_fit (tasks s5 p)" "task_fit (tasks s5 p)" using f4 child_fit_ids [OF s5(2)] ids_same_fit [OF s5(2)] by simp_all
  have ot: "sched_id (tasks s5 q) = sched_id (tasks s q)" if "q \<noteq> p" for q using o5 that by (simp add: others_same_def)
  have off: "\<not> on_rq (tasks s5 p)" "sched_class (tasks s5 p) \<noteq> idle_sched_class" using f5(1) by (simp_all add: child_fit_def)
  have fld: "on_rq (tasks s5 q) = on_rq (tasks s q)" "sched_class (tasks s5 q) = sched_class (tasks s q)" "tstate (tasks s5 q) = tstate (tasks s q)"
    if "q \<noteq> p" for q using ot [OF that] by (simp_all add: sched_id_def)
  have "on_queue s5 q = on_queue s q" for q
    using fld [of q] off(1) p(1) by (cases "q = p") (simp_all add: on_queue_def)
  then have oq: "on_queue s5 = on_queue s" by (rule ext)
  have fit: "task_fit (tasks s5 q)" if "TaskSE q \<in> ?E" for q
    using that f5(2) sys_invD(3) [OF i, of q] task_fit_cong [OF ot, of q] by (cases "q = p") auto
  have rq: "curr (rq s5) = ?c" "idle (rq s5) = idle (rq s)" using o5 by (simp_all add: others_same_def)
  have idl: "q = idle (rq s)" if "sched_class (tasks s5 q) = idle_sched_class" for q
    using that off(2) fld(2) [of q] sys_invD(8) [OF i, of q] by (cases "q = p") auto
  have "sys_inv K ?E s5"
    using s5(1) oq fit rq sys_invD(4-7) [OF i] fld(1) [of ?c] fld(3) [of "idle (rq s)"] p(2,3) idl
    unfolding sys_inv_def core_inv_def by simp
  then show ?thesis using run o5 off(1) by blast
qed

section \<open>The other entry points\<close>

lemma wake_up_new_task_inv:
  assumes K: "ext_queues K" and i: "sys_inv K E s" and p: "TaskSE p \<in> E" "p \<noteq> idle (rq s)" "\<not> on_rq (tasks s p)"
  shows "sys_inv K E (wake_up_new_task K p s)" "on_rq (tasks (wake_up_new_task K p s) p)"
proof -
  have c: "sched_class (tasks s p) \<noteq> idle_sched_class" using sys_invD(8) [OF i] p(2) by blast
  define s1 where "s1 = upd_task p (\<lambda>t. t\<lparr>on_rq := True\<rparr>) (activate_task K p 0 s)"
  note a = activated [OF K sys_invD(1) [OF i] p(3,1) c s1_def]
  have i1: "sys_inv K E s1" by (rule sys_inv_others [OF i a(1,2)]) (simp_all add: a(3-5) c)
  note k = check_preempt_curr_keeps [OF K, where s = s1 and p = p and flags = WF_FORK]
  have e: "wake_up_new_task K p s = check_preempt_curr K p WF_FORK s1" by (simp add: wake_up_new_task_def s1_def)
  show "sys_inv K E (wake_up_new_task K p s)" unfolding e by (rule sys_inv_ids [OF i1 k(2) k(1) [OF sys_invD(2) [OF i1]]])
  show "on_rq (tasks (wake_up_new_task K p s) p)" unfolding e ids_same_fields(8) [OF k(2)] by (rule a(3))
qed

lemma try_to_wake_up_inv:
  assumes K: "ext_queues K" and i: "sys_inv K E s" and p: "TaskSE p \<in> E" "p \<noteq> idle (rq s)"
  shows "sys_inv K E (snd (try_to_wake_up K p states flags s))"
proof -
  have c: "sched_class (tasks s p) \<noteq> idle_sched_class" using sys_invD(8) [OF i] p(2) by blast
  note w = try_to_wake_up_effect [OF K sys_invD(1) [OF i] p(1) c refl, of states flags]
  show ?thesis by (rule sys_inv_others [OF i w(1,2)]) (use w(3,5) c p(2) in auto)
qed

lemma yield_inv:
  assumes "ext_queues K" and "sys_inv K E s"
  shows "sys_inv K E (yield_op (task_class K s c) s)"
  using assms by (intro sys_inv_ids [OF assms(2)] class_keeps.yield_ids [OF task_class_keeps [OF ext_queues_ok]])
    (simp_all add: task_class_def class_queues.q_yield [OF class_of_queues] sys_invD(2))

lemma scheduler_tick_inv:
  assumes K: "ext_queues K" and i: "sys_inv K E s" and t: "scheduler_tick K (s, l) = Some (s', l')"
  shows "sys_inv K E s'"
proof -
  let ?s1 = "update_rq_clock K s" and ?c = "curr (rq s)"
  have e: "s' = task_tick_op (task_class K ?s1 ?c) ?c ?s1" using t by (auto simp: scheduler_tick_def Let_def)
  have "ids_same s s'"
    unfolding e by (rule ids_same_trans [OF ids_same_simple(11) class_keeps.task_tick_ids [OF task_class_keeps [OF ext_queues_ok [OF K]]]])
  moreover have "queues E (kernel K) (on_queue s) s'"
    unfolding e task_class_def by (rule class_queues.q_task_tick [OF class_of_queues [OF K] q_update_rq_clock [OF sys_invD(2) [OF i]]])
  ultimately show ?thesis by (rule sys_inv_ids [OF i])
qed

lemma period_timer_inv:
  assumes i: "sys_inv K E s"
  shows "sys_inv K E (snd (do_sched_rt_period_timer g n s))"
proof -
  note l = queuesD(2) [OF sys_invD(2) [OF i]]
  have k: "rt_quiet E s st \<and> rt_quiet E s (sched_rt_rq_enqueue g st) \<and> ids_same s st"
    if "rt_same s st" "q_same s st" "ids_same s st" for st
    using rt_quiet_same [OF l that(1,2)] rt_quiet_rq_enqueue [OF rt_quiet_linked [OF l rt_quiet_same [OF l that(1,2)]]]
      rt_quiet_trans that(3) by blast
  have e: "ids_same st (sched_rt_rq_enqueue g st)" for st
  proof -
    have "ids_same st (case x of Some x \<Rightarrow> if \<not> on_rt_rq st x then enqueue_rt_entity False x st else st | None \<Rightarrow> st)" for x
      by (simp split: option.split)
    then show ?thesis unfolding sched_rt_rq_enqueue_def Let_def using ids_same_trans [OF _ ids_same_simple(1)] by simp
  qed
  have s3: "rt_same s st \<and> q_same s st \<and> ids_same s st"
    if "st \<in> {s, upd_rt_rq g (\<lambda>x. x\<lparr>rt_time := a\<rparr>) s,
      upd_rt_rq g (\<lambda>x. x\<lparr>rt_throttled := False\<rparr>) (upd_rt_rq g (\<lambda>x. x\<lparr>rt_time := a\<rparr>) s),
      upd_rq (\<lambda>q. q\<lparr>skip_clock_update := - 1\<rparr>)
        (upd_rt_rq g (\<lambda>x. x\<lparr>rt_throttled := False\<rparr>) (upd_rt_rq g (\<lambda>x. x\<lparr>rt_time := a\<rparr>) s))}" for st a
    using that by (auto simp: rt_same_def q_same_def ids_same_def upd_defs)
  have both: "sys_inv K E st" "sys_inv K E (sched_rt_rq_enqueue g st)" if "rt_same s st \<and> q_same s st \<and> ids_same s st" for st
  proof -
    have t: "rt_quiet E s st" "rt_quiet E s (sched_rt_rq_enqueue g st)" "ids_same s st" using k that by blast+
    show "sys_inv K E st" by (rule sys_inv_ids [OF i t(3) queues_rt_quiet [OF sys_invD(2) [OF i] t(1)]])
    show "sys_inv K E (sched_rt_rq_enqueue g st)"
      by (rule sys_inv_ids [OF i ids_same_trans [OF t(3) e] queues_rt_quiet [OF sys_invD(2) [OF i] t(2)]])
  qed
  have "\<exists>st a. (rt_same s st \<and> q_same s st \<and> ids_same s st) \<and>
    (snd (do_sched_rt_period_timer g n s) = st \<or> snd (do_sched_rt_period_timer g n s) = sched_rt_rq_enqueue g st)"
  proof -
    let ?a = "rt_time (rt_rqs s g) - min (rt_time (rt_rqs s g)) (n * rt_runtime (rt_rqs s g))"
    have "snd (do_sched_rt_period_timer g n s) \<in> S \<union> sched_rt_rq_enqueue g ` S"
      if "S = {s, upd_rt_rq g (\<lambda>x. x\<lparr>rt_time := ?a\<rparr>) s,
        upd_rt_rq g (\<lambda>x. x\<lparr>rt_throttled := False\<rparr>) (upd_rt_rq g (\<lambda>x. x\<lparr>rt_time := ?a\<rparr>) s),
        upd_rq (\<lambda>q. q\<lparr>skip_clock_update := - 1\<rparr>)
          (upd_rt_rq g (\<lambda>x. x\<lparr>rt_throttled := False\<rparr>) (upd_rt_rq g (\<lambda>x. x\<lparr>rt_time := ?a\<rparr>) s))}" for S
      unfolding do_sched_rt_period_timer_def Let_def that by (simp split: prod.split)
    from this [OF refl] s3 show ?thesis by blast
  qed
  then show ?thesis using both by metis
qed

text \<open>A new group, made by the real-time part of \<open>sched_create_group\<close>.\<close>

lemma new_group_inv:
  assumes i: "sys_inv K E s" and f: "fresh_group E g parent s"
  shows "sys_inv K (insert (GroupSE g) E) (snd (alloc_rt_sched_group True g parent s))"
proof -
  define s' where "s' = snd (alloc_rt_sched_group True g parent s)"
  let ?E = "insert (GroupSE g) E"
  note q = sys_invD(2) [OF i]
  note eff = alloc_rt_sched_group_effect [OF f s'_def]
  have r: "rq s' = rq s" "tg_rt_se (tgs s' h) = (if h = g then Some (GroupSE g) else tg_rt_se (tgs s h))" for h
    by (simp_all add: s'_def alloc_rt_sched_group_def Let_def init_tg_rt_entry_def upd_defs split: option.split)
  have fr: "my_q (rt_ses s e) \<noteq> Some g" "rt_rq_of (rt_ses s e) \<noteq> g" for e using f by (auto simp: fresh_group_def)
  have my: "my_q (rt_ses s' y) = (if y = GroupSE g then Some g else my_q (rt_ses s y))" for y using eff(4,5) by (cases "y = GroupSE g") auto
  have ng: "my_q (rt_ses s (GroupSE g)) = None" using f by (simp add: fresh_group_def)
  have "group_linked ?E h s'" for h
  proof (cases "h = g")
    case True
    then show ?thesis using r(2) my fr(1) by (simp add: group_linked_def)
  next
    case False
    have "group_linked E h s" using queuesD(2) [OF q] by (simp add: rt_linked_def)
    moreover have "tg_rt_se (tgs s h) \<noteq> Some (GroupSE g)" using rt_linked_group(2) [OF queuesD(2) [OF q]] ng by fastforce
    ultimately show ?thesis using False r(2) my ng by (auto simp: group_linked_def split: option.splits)
  qed
  moreover have "rt_inv ?E s'" unfolding s'_def by (rule alloc_rt_sched_group_inv [OF queuesD(3) [OF q] f])
  ultimately have l: "rt_linked ?E s'" by (simp add: rt_linked_def)
  have "e \<notin> set (queue (rt_rqs s g) k)" for e k using rt_invD(6) [OF queuesD(3) [OF q], of e g k] fr(2) by auto
  then have qe: "(e \<in> set (queue (rt_rqs s' h) k)) = (e \<in> set (queue (rt_rqs s h) k))" for e h k
    using eff(1,2) by (cases "h = g") (auto simp: empty_rq_def)
  have o: "on_queue s' = on_queue s" by (rule ext) (simp add: on_queue_def eff(3))
  have "ras_inv (kernel K) s'" by (rule ras_invI [OF queuesD(4) [OF q]]) (simp_all add: r eff(3))
  then have "queues ?E (kernel K) (on_queue s') s'" unfolding o using q l by (simp add: queues_def rt_queued_def qe r(1))
  then show ?thesis using i unfolding s'_def [symmetric] by (auto simp: sys_inv_def core_inv_def r(1) eff(3))
qed

section \<open>Reachable states\<close>

text \<open>
  One entry point of the scheduler at a time, with interrupts off, as the run queue lock makes it on one CPU; \<open>E\<close> are
  the tasks and groups that exist. The arguments are arbitrary, except that a task exists, that the idle task is not
  woken, and that a new task or group has a free number. Between the entry points a task sets its own state, writes to
  traced memory change its counter, and start-up turns the first task into the idle task.
\<close>

inductive sys_step :: "kservices \<Rightarrow> rt_se set \<Rightarrow> sched_state \<Rightarrow> rt_se set \<Rightarrow> sched_state \<Rightarrow> bool" for K where
  wake: "\<lbrakk>TaskSE p \<in> E; p \<noteq> idle (rq s)\<rbrakk> \<Longrightarrow> sys_step K E s E (snd (try_to_wake_up K p states flags s))"
| wake_new: "\<lbrakk>TaskSE p \<in> E; p \<noteq> idle (rq s); \<not> on_rq (tasks s p)\<rbrakk> \<Longrightarrow> sys_step K E s E (wake_up_new_task K p s)"
| fork: "\<lbrakk>\<not> on_rq (tasks s p); p \<noteq> curr (rq s); p \<noteq> idle (rq s); card (insert (TaskSE p) E) < 2 ^ 32;
    sched_class (tasks s (curr (rq s))) \<noteq> idle_sched_class; sched_fork K p (copy_current p s) = Some s'\<rbrakk> \<Longrightarrow>
    sys_step K E s (insert (TaskSE p) E) s'"
| pass: "\<lbrakk>\<forall>t w. wq_worker_sleeping K (curr (rq s)) t = Some w \<longrightarrow> TaskSE w \<in> E \<and> w \<noteq> idle (rq s);
    schedule_once K act s = Some s'\<rbrakk> \<Longrightarrow> sys_step K E s E s'"
| yield: "sys_step K E s E (yield_op (task_class K s (curr (rq s))) s)"
| tick: "scheduler_tick K (s, l) = Some (s', l') \<Longrightarrow> sys_step K E s E s'"
| nice: "\<lbrakk>TaskSE p \<in> E; set_user_nice K p n s = Some s'\<rbrakk> \<Longrightarrow> sys_step K E s E s'"
| setprio: "\<lbrakk>TaskSE p \<in> E; 0 \<le> pr; pr \<le> MAX_PRIO; rt_mutex_setprio K p pr s = Some s'\<rbrakk> \<Longrightarrow> sys_step K E s E s'"
| setscheduler: "\<lbrakk>TaskSE p \<in> E; sched_setscheduler1 K p pol pr user s = Some (r, s')\<rbrakk> \<Longrightarrow> sys_step K E s E s'"
| move: "TaskSE p \<in> E \<Longrightarrow> sys_step K E s E (sched_move_task K p g s)"
| period: "sys_step K E s E (snd (do_sched_rt_period_timer g n s))"
| group: "fresh_group E g parent s \<Longrightarrow> sys_step K E s (insert (GroupSE g) E) (snd (alloc_rt_sched_group True g parent s))"
| set_state: "curr (rq s) \<noteq> idle (rq s) \<Longrightarrow> sys_step K E s E (upd_task (curr (rq s)) (\<lambda>t. t\<lparr>tstate := st\<rparr>) s)"
| count_write: "sys_step K E s E (upd_task p (\<lambda>t. t\<lparr>wcounts := n\<rparr>) s)"
| bootup: "\<not> on_rq (tasks s (idle (rq s))) \<Longrightarrow> sys_step K E s E (init_idle_bootup_task (idle (rq s)) s)"

inductive sys_reachable :: "kservices \<Rightarrow> sched_state \<Rightarrow> rt_se set \<Rightarrow> sched_state \<Rightarrow> bool" for K s0 where
  init: "sys_reachable K s0 {TaskSE (curr (rq s0))} s0"
| step: "\<lbrakk>sys_reachable K s0 E s; sys_step K E s E' s'\<rbrakk> \<Longrightarrow> sys_reachable K s0 E' s'"

lemma sys_step_inv:
  assumes K: "ext_queues K" "getprio_ok K"
  shows "\<lbrakk>sys_step K E s E' s'; sys_inv K E s\<rbrakk> \<Longrightarrow> sys_inv K E' s'"
proof (induction rule: sys_step.induct)
  case (wake p E s states flags)
  then show ?case by (intro try_to_wake_up_inv [OF K(1)])
next
  case (wake_new p E s)
  then show ?case by (intro wake_up_new_task_inv(1) [OF K(1)])
next
  case (fork s p E s')
  then show ?case using sched_fork_inv [OF K(1) fork(7,1-5)] by auto
next
  case (pass s E act s')
  obtain u where "schedule_once K act s = Some u" "sys_inv K E u" using schedule_once_effect [OF K(1) pass(3,1), of act] by blast
  then show ?case using pass(2) by simp
next
  case (yield E s)
  then show ?case by (rule yield_inv [OF K(1)])
next
  case (tick s l s' l' E)
  show ?case by (rule scheduler_tick_inv [OF K(1) tick(2,1)])
next
  case (nice p E n s s')
  then show ?case using set_user_nice_inv [OF K(1) nice(3,1), of n] by auto
next
  case (setprio p E pr s s')
  then show ?case using rt_mutex_setprio_inv [OF K(1) setprio(5,1-3)] by auto
next
  case (setscheduler p E pol pr user s r s')
  then show ?case using sched_setscheduler1_inv [OF K setscheduler(3,1), of pol pr user] by auto
next
  case (move p E s g)
  then show ?case by (intro sched_move_task_inv [OF K(1)])
next
  case (period E s g n)
  then show ?case by (rule period_timer_inv)
next
  case (group E g parent s)
  then show ?case by (intro new_group_inv)
next
  case (set_state s E st)
  then have "core_inv K E (upd_task (curr (rq s)) (\<lambda>t. t\<lparr>tstate := st\<rparr>) s)"
    by (intro core_inv_upd [OF sys_invD(1)]) (simp_all add: task_fit_def)
  then show ?case
    by (rule sys_inv_others [OF set_state(2) _ others_same_upd])
      (use set_state sys_invD(8) [OF set_state(2)] in \<open>auto simp: upd_task_def\<close>)
next
  case (count_write E s p n)
  then have "core_inv K E (upd_task p (\<lambda>t. t\<lparr>wcounts := n\<rparr>) s)"
    by (intro core_inv_upd [OF sys_invD(1)]) (simp_all add: task_fit_def)
  then show ?case
    by (rule sys_inv_others [OF count_write _ others_same_upd]) (use sys_invD(8) [OF count_write] in \<open>auto simp: upd_task_def\<close>)
next
  case (bootup s E)
  let ?i = "idle (rq s)" and ?s' = "init_idle_bootup_task (idle (rq s)) s"
  have n: "on_queue s ?i = None" using bootup(1) by (simp add: on_queue_def)
  have "on_queue ?s' = on_queue s"
    by (rule ext) (use bootup(1) in \<open>simp add: on_queue_def init_idle_bootup_task_def upd_task_def\<close>)
  then have q: "queues E (kernel K) (on_queue ?s') ?s'"
    using q_off_queue [OF sys_invD(2) [OF bootup(2)] n] by (simp add: init_idle_bootup_task_def)
  have f: "task_fit (tasks ?s' ?i)"
    using sys_invD(3) [OF bootup(2) sys_invD(5) [OF bootup(2)]] by (simp add: init_idle_bootup_task_def upd_task_def task_fit_def)
  have o: "others_same ?i s ?s'" by (simp add: init_idle_bootup_task_def)
  show ?case
    by (rule sys_inv_others [OF bootup(2) core_inv_others [OF sys_invD(1) [OF bootup(2)] o q f] o])
      (use bootup(1) in \<open>simp_all add: init_idle_bootup_task_def upd_task_def\<close>)
qed

lemma sys_reachable_inv:
  assumes "ext_queues K" "getprio_ok K" "sys_inv K {TaskSE (curr (rq s0))} s0"
  shows "sys_reachable K s0 E s \<Longrightarrow> sys_inv K E s"
  by (induction rule: sys_reachable.induct) (use assms(3) sys_step_inv [OF assms(1,2)] in blast)+

text \<open>
  The memory of tasks and groups that do not exist yet is zero: no task is on a queue, none has a class, and no group
  has an entity.
\<close>

definition blank_tasks :: "sched_state \<Rightarrow> bool" where
  "blank_tasks s \<longleftrightarrow> (\<forall>q. \<not> on_rq (tasks s q) \<and> sched_class (tasks s q) \<noteq> idle_sched_class) \<and> (\<forall>g. tg_rt_se (tgs s g) = None)"

lemma boot_sys_inv:
  assumes hz: "hz_ok (kernel K)" and bm: "boot_memory (HZ (kernel K)) p i (s, l, a, m)" and bt: "blank_tasks s"
    and run: "sched_init K now p i (INIT_TASK (HZ (kernel K)) p s, l, a, INIT_TASK_mm p i m) = Some (s0, l0, a0, m0)"
  shows "sys_inv K {TaskSE (curr (rq s0))} s0"
proof -
  let ?hz = "HZ (kernel K)" and ?i = "INIT_TASK (HZ (kernel K)) p s"
  have "static_prio (tasks ?i p) = 120" by (simp add: INIT_TASK_def upd_defs prio_defs)
  then obtain e where r: "s0 = fst (sched_init_idle ?hz now p
        (upd_task p (\<lambda>t. t\<lparr>se := e\<rparr>) (init_cpu_rq ((init_root_group ?i)\<lparr>cpuusage := (cpuusage ?i)(root_cpuacct := 0)\<rparr>)), l))"
    using sched_init_run [of ?i p K now i l a "INIT_TASK_mm p i m"] run by auto
  note b = boot_sched_state [OF bm r]
  note defs = r sched_init_idle_def init_idle_def sched_fork1_def set_task_rq_def init_cpu_rq_def init_root_group_def
    INIT_TASK_def init_tg_rt_entry_def upd_tg_def upd_defs Let_def
  have t: "\<not> on_rq (tasks s0 q)" "sched_class (tasks s0 q) \<noteq> idle_sched_class" "tg_rt_se (tgs s0 g) = None" for q g
    using bt by (simp_all add: blank_tasks_def defs)
  let ?E = "{TaskSE p}"
  have inv: "rt_inv ?E s0" using b(1,2) by (intro rt_init_inv) (simp add: rt_init_def)
  have "group_linked ?E g s0" for g using t(3) b(1) by (simp add: group_linked_def)
  then have ln: "rt_linked ?E s0" using inv by (simp add: rt_linked_def)
  have o: "on_queue s0 = (\<lambda>_. None)" using t(1) by (simp add: on_queue_def fun_eq_iff)
  have nq: "\<not> rt_queued s0 e" for e using b(2) by (simp add: rt_queued_def empty_rq_def)
  have "queues ?E (kernel K) (on_queue s0) s0"
    unfolding o queues_def using hz ln ras_inv_init [OF b(3)] nq b(3,4,7) by (simp add: init_ras_rq_def)
  moreover have "task_fit (tasks s0 p)"
    using b(8,9) normal_prio_range [of "tasks s0 p"] by (simp add: task_typed_def task_fit_def)
  ultimately show ?thesis unfolding b(5) using t(2) b(5,6,10) by (simp add: sys_inv_def core_inv_def)
qed

text \<open>C5: from \<open>sched_init\<close> on, in every state that any sequence of wake-ups, forks, scheduling passes, yields, ticks,
  changes of priority, policy, class and group, runs of the period timer and creations of groups reaches, a real-time or
  race-averse task is on the queue of its class exactly when its flag \<open>on_rq\<close> is set and on no other queue,
  \<open>nr_running\<close> is the number of tasks with that flag, and the invariants of both classes hold. The classes outside the
  repository are assumed to count their own tasks and to leave the rest alone, and priority inheritance not to lower a
  priority.\<close>

theorem kernel_queues_consistent:
  assumes "ext_queues K" and "getprio_ok K" and "hz_ok (kernel K)"
    and "boot_memory (HZ (kernel K)) p i (s, l, a, m)" and "blank_tasks s"
    and "sched_init K now p i (INIT_TASK (HZ (kernel K)) p s, l, a, INIT_TASK_mm p i m) = Some (s0, l0, a0, m0)"
    and "sys_reachable K s0 E t"
  shows "(\<forall>q. rt_queued t (TaskSE q) \<longleftrightarrow> on_rq (tasks t q) \<and> sched_class (tasks t q) = rt_sched_class) \<and>
    (\<forall>q. q \<in> set (ras_q t) \<longleftrightarrow> on_rq (tasks t q) \<and> sched_class (tasks t q) = ras_sched_class) \<and>
    unat (nr_running (rq t)) = card {q. on_rq (tasks t q)} \<and> rq_counted t \<and> rt_inv E t \<and> ras_inv (kernel K) t"
proof -
  have i: "sys_inv K E t" by (rule sys_reachable_inv [OF assms(1,2) boot_sys_inv [OF assms(3-6)] assms(7)])
  note q = sys_invD(2) [OF i]
  have o: "on_queue t x = Some c \<longleftrightarrow> on_rq (tasks t x) \<and> sched_class (tasks t x) = c" for x c by (auto simp: on_queue_def)
  have d: "dom (on_queue t) = {q. on_rq (tasks t q)}" by (auto simp: on_queue_def split: if_splits)
  have "unat (nr_running (rq t)) = card {q. on_rq (tasks t q)}" using queuesD(9,13) [OF q] d by (simp add: unat_of_nat)
  moreover have "rq_counted t" using queues_counted [OF q] sys_invD(9) [OF i] by blast
  ultimately show ?thesis using queuesD(3-6) [OF q] o by simp
qed

text \<open>C6: from every reachable state a scheduling pass returns and leaves a reachable one; the new current task is the idle
  task or on its queue, and while any race-averse task is ready no fair task and not the idle task runs. The workqueues are
  assumed to name an existing task when a worker sleeps.\<close>

theorem kernel_schedules:
  assumes "ext_queues K" and "getprio_ok K" and "hz_ok (kernel K)"
    and "boot_memory (HZ (kernel K)) p i (s, l, a, m)" and "blank_tasks s"
    and "sched_init K now p i (INIT_TASK (HZ (kernel K)) p s, l, a, INIT_TASK_mm p i m) = Some (s0, l0, a0, m0)"
    and "sys_reachable K s0 E t"
    and "\<forall>u w. wq_worker_sleeping K (curr (rq t)) u = Some w \<longrightarrow> TaskSE w \<in> E \<and> w \<noteq> idle (rq t)"
  shows "\<exists>t'. schedule_once K act t = Some t' \<and> sys_reachable K s0 E t' \<and>
    (curr (rq t') = idle (rq t') \<or> on_rq (tasks t' (curr (rq t')))) \<and>
    ((\<exists>r. on_rq (tasks t' r) \<and> sched_class (tasks t' r) = ras_sched_class) \<longrightarrow>
      on_rq (tasks t' (curr (rq t'))) \<and> sched_class (tasks t' (curr (rq t'))) \<in> {rt_sched_class, ras_sched_class})"
proof -
  have i: "sys_inv K E t" by (rule sys_reachable_inv [OF assms(1,2) boot_sys_inv [OF assms(3-6)] assms(7)])
  obtain t' where t': "schedule_once K act t = Some t'" "sys_inv K E t'"
    "(\<exists>r. on_queue t' r = Some ras_sched_class) \<longrightarrow> on_queue t' (curr (rq t')) \<in> {Some rt_sched_class, Some ras_sched_class}"
    using schedule_once_effect [OF assms(1) i assms(8)] by blast
  have o: "on_queue t' x = Some c \<longleftrightarrow> on_rq (tasks t' x) \<and> sched_class (tasks t' x) = c" for x c by (auto simp: on_queue_def)
  have "sys_reachable K s0 E t'" by (rule sys_reachable.step [OF assms(7) sys_step.pass [OF assms(8) t'(1)]])
  moreover have "on_rq (tasks t' (curr (rq t'))) \<and> sched_class (tasks t' (curr (rq t'))) \<in> {rt_sched_class, ras_sched_class}"
    if "on_rq (tasks t' r) \<and> sched_class (tasks t' r) = ras_sched_class" for r
    using t'(3) that o by blast
  ultimately show ?thesis using t'(1) sys_invD(6) [OF t'(2)] by blast
qed

section \<open>A kernel whose other classes count their tasks\<close>

text \<open>
  Classes that keep the contract: they count the tasks they queue, and pick the first of the tasks 0 to 9 that is on
  their queue; the idle class picks its task.
\<close>

definition count_tasks :: "sched_class_id \<Rightarrow> (ulong \<Rightarrow> ulong) \<Rightarrow> sched_state \<Rightarrow> sched_state" where
  "count_tasks c f = upd_rq (\<lambda>r. r\<lparr>nr_running := f (nr_running r),
     cfs_h_nr_running := (if c = fair_sched_class then f (cfs_h_nr_running r) else cfs_h_nr_running r)\<rparr>)"

definition count_ops :: "sched_class_id \<Rightarrow> class_ops" where
  "count_ops c = (noop_ops (\<lambda>s. if c = idle_sched_class then Some (idle (rq s))
       else find (\<lambda>p. on_rq (tasks s p) \<and> sched_class (tasks s p) = c) [0..<10]))
     \<lparr>enqueue_op := (\<lambda>p f. count_tasks c (\<lambda>n. n + 1)), dequeue_op := (\<lambda>p f. count_tasks c (\<lambda>n. n - 1))\<rparr>"

definition kernel1 :: kservices where
  "kernel1 = kernel0\<lparr>ext_class := count_ops\<rparr>"

lemma count_tasks_frame:
  "ids_same s (count_tasks c f s)" "rt_same s (count_tasks c f s)" "ras_q (count_tasks c f s) = ras_q s" "ras_nr (count_tasks c f s) = ras_nr s"
  "tasks (count_tasks c f s) = tasks s" "tgs (count_tasks c f s) = tgs s" "nr_running (rq (count_tasks c f s)) = f (nr_running (rq s))"
  "cfs_h_nr_running (rq (count_tasks c f s)) = (if c = fair_sched_class then f (cfs_h_nr_running (rq s)) else cfs_h_nr_running (rq s))"
  by (simp_all add: count_tasks_def ids_same_upd) (simp_all add: upd_rq_def)

lemma count_tasks_linked:
  assumes "queues E env A s"
  shows "rt_linked E (count_tasks c f s)" "ras_inv env (count_tasks c f s)"
    "rt_queued (count_tasks c f s) (TaskSE x) = rt_queued s (TaskSE x)"
proof -
  have e: "rt_ses (count_tasks c f s) = rt_ses s" "tgs (count_tasks c f s) = tgs s" by (simp_all add: count_tasks_def upd_rq_def)
  have "group_linked E g (count_tasks c f s) = group_linked E g s" for g unfolding group_linked_def e ..
  then show "rt_linked E (count_tasks c f s)"
    using queuesD(2) [OF assms] rt_same_inv [OF count_tasks_frame(2)] by (simp add: rt_linked_def)
  show "ras_inv env (count_tasks c f s)" by (rule ras_invI [OF queuesD(4) [OF assms]]) (simp_all add: count_tasks_frame)
  show "rt_queued (count_tasks c f s) (TaskSE x) = rt_queued s (TaskSE x)" by (rule rt_same_queued [OF count_tasks_frame(2)])
qed

lemma count_ops_queues:
  assumes "c \<in> {stop_sched_class, fair_sched_class, idle_sched_class}"
  shows "class_queues (count_ops c) c env"
proof unfold_locales
  fix E A s p fl
  note simps = count_tasks_frame count_tasks_linked
  show "queues E env (A(p \<mapsto> c)) (enqueue_op (count_ops c) p fl s)"
    if "queues E env A s" "A p = None" "TaskSE p \<in> E" "c \<noteq> idle_sched_class"
    by (rule queues_add [OF that(1-4)]) (use assms that(1) in \<open>auto simp: count_ops_def simps\<close>)
  show "queues E env (A(p := None)) (dequeue_op (count_ops c) p fl s)" if "queues E env A s" "A p = Some c"
    by (rule queues_remove [OF that]) (use assms that(1) in \<open>auto simp: count_ops_def simps\<close>)
next
  fix E s p s'
  show "on_queue s p = Some c \<or> c = idle_sched_class \<and> p = idle (rq s)"
    if "pick_next_op (count_ops c) s = Some (Some p, s')"
    using that by (auto simp: count_ops_def noop_ops_def on_queue_def find_Some_iff split: if_splits)
qed (auto simp: count_ops_def noop_ops_def count_tasks_frame)

lemma kernel1_ok: "ext_queues kernel1" "getprio_ok kernel1" "hz_ok (kernel kernel1)" "HZ (kernel kernel1) = 100"
proof -
  have "class_keeps (count_ops c)" for c by unfold_locales (auto simp: count_ops_def noop_ops_def count_tasks_frame)
  then show "ext_queues kernel1" using count_ops_queues by (simp add: ext_queues_def ext_ok_def kernel1_def)
qed (simp_all add: getprio_ok_def kernel1_def kernel0_def hz_ok_env0, simp add: env0_def)

text \<open>Start-up, after which the first task has forked task 1 and woken it.\<close>

lemma kernel1_boot:
  "boot_memory (HZ (kernel kernel1)) 0 0 (boot0, load0, acct0, mm0)" "blank_tasks boot0"
  unfolding kernel1_ok(4) using mm_boot0
  by (simp_all add: boot_memory_def boot0_def state0_def task0_def rt_rq0_def root_task_group_def empty_rq_def load0_def fun_eq_iff
      blank_tasks_def)

lemma kernel1_run:
  obtains s0 l0 a0 m0 t where "sched_init kernel1 5 0 0 (INIT_TASK (HZ (kernel kernel1)) 0 boot0, load0, acct0, INIT_TASK_mm 0 0 mm0) =
      Some (s0, l0, a0, m0)"
    "sys_reachable kernel1 s0 {TaskSE 1, TaskSE 0} t" "on_rq (tasks t 1)"
proof -
  obtain s0 l0 a0 m0 where i: "sched_init kernel1 5 0 0 (INIT_TASK (HZ (kernel kernel1)) 0 boot0, load0, acct0, INIT_TASK_mm 0 0 mm0) =
      Some (s0, l0, a0, m0)" and b: "idle_cpu s0" "curr (rq s0) = 0" "sched_class (tasks s0 0) = fair_sched_class"
    using sched_init_establishes [OF kernel1_boot(1), of "{}" 5] by auto
  have si: "sys_inv kernel1 {TaskSE 0} s0" using boot_sys_inv [OF kernel1_ok(3) kernel1_boot i] b(2) by simp
  have r0: "sys_reachable kernel1 s0 {TaskSE 0} s0" using sys_reachable.init [of kernel1 s0] b(2) by simp
  have n1: "\<not> on_rq (tasks s0 1)"
    using queuesD(7) [OF sys_invD(2) [OF si], of 1] by (auto simp: on_queue_def)
  have g: "1 \<noteq> curr (rq s0)" "1 \<noteq> idle (rq s0)" "card (insert (TaskSE 1) {TaskSE 0}) < 2 ^ 32"
    "sched_class (tasks s0 (curr (rq s0))) \<noteq> idle_sched_class"
    using b by (auto simp: idle_cpu_def)
  obtain s1 where s1: "sched_fork kernel1 1 (copy_current 1 s0) = Some s1" "sys_inv kernel1 {TaskSE 1, TaskSE 0} s1"
    "others_same 1 s0 s1" "\<not> on_rq (tasks s1 1)"
    using sched_fork_inv [OF kernel1_ok(1) si n1 g] by blast
  have r1: "sys_reachable kernel1 s0 {TaskSE 1, TaskSE 0} s1"
    by (rule sys_reachable.step [OF r0 sys_step.fork [OF n1 g s1(1)]])
  have p1: "TaskSE 1 \<in> {TaskSE 1, TaskSE 0}" "1 \<noteq> idle (rq s1)" using g(2) s1(3) by (simp_all add: others_same_def)
  show thesis
    by (rule that [OF i sys_reachable.step [OF r1 sys_step.wake_new [OF p1 s1(4)]] wake_up_new_task_inv(2) [OF kernel1_ok(1) s1(2) p1 s1(4)]])
qed

theorem kernel_queues_consistent_witness:
  "\<exists>s0 l0 a0 m0 E t. sched_init kernel1 5 0 0 (INIT_TASK (HZ (kernel kernel1)) 0 boot0, load0, acct0, INIT_TASK_mm 0 0 mm0) =
      Some (s0, l0, a0, m0) \<and> sys_reachable kernel1 s0 E t \<and> on_rq (tasks t 1) \<and> unat (nr_running (rq t)) = card {q. on_rq (tasks t q)}"
proof -
  obtain s0 l0 a0 m0 t where t: "sched_init kernel1 5 0 0 (INIT_TASK (HZ (kernel kernel1)) 0 boot0, load0, acct0, INIT_TASK_mm 0 0 mm0) =
      Some (s0, l0, a0, m0)" "sys_reachable kernel1 s0 {TaskSE 1, TaskSE 0} t" "on_rq (tasks t 1)" by (rule kernel1_run)
  from kernel_queues_consistent [OF kernel1_ok(1-3) kernel1_boot t(1,2)] t show ?thesis by blast
qed

theorem kernel_schedules_witness:
  "\<exists>s0 l0 a0 m0 E t t'. sched_init kernel1 5 0 0 (INIT_TASK (HZ (kernel kernel1)) 0 boot0, load0, acct0, INIT_TASK_mm 0 0 mm0) =
      Some (s0, l0, a0, m0) \<and> sys_reachable kernel1 s0 E t \<and> on_rq (tasks t 1) \<and> schedule_once kernel1 (\<lambda>_. False) t = Some t' \<and>
      (curr (rq t') = idle (rq t') \<or> on_rq (tasks t' (curr (rq t'))))"
proof -
  obtain s0 l0 a0 m0 t where t: "sched_init kernel1 5 0 0 (INIT_TASK (HZ (kernel kernel1)) 0 boot0, load0, acct0, INIT_TASK_mm 0 0 mm0) =
      Some (s0, l0, a0, m0)" "sys_reachable kernel1 s0 {TaskSE 1, TaskSE 0} t" "on_rq (tasks t 1)" by (rule kernel1_run)
  have "\<forall>u w. wq_worker_sleeping kernel1 (curr (rq t)) u = Some w \<longrightarrow> TaskSE w \<in> {TaskSE 1, TaskSE 0} \<and> w \<noteq> idle (rq t)"
    by (simp add: kernel1_def kernel0_def)
  from kernel_schedules [OF kernel1_ok(1-3) kernel1_boot t(1,2) this] t show ?thesis by blast
qed

end
