(* ===== verification/Page_Trace.thy ===== *)
theory Page_Trace
  imports Sched_Types
begin

text \<open>
  Page access tracing: the system calls of \<open>page-trace/\<close>, \<open>set_wcounts/\<close> and
  \<open>rr_fifo_trace/\<close>, and the ARM fault handlers of \<open>arch/arm/mm/fault.c\<close> that count the
  writes. Process lookup (\<open>pid_task (find_vpid pid)\<close>) and the memory manager
  (\<open>find_vma\<close>, \<open>mprotect_fixup\<close>, \<open>handle_mm_fault\<close>, the page table
  accessors) are outside the repository: they are the arguments \<open>pids\<close>, \<open>mm_ops\<close>,
  \<open>pt_ops\<close> and \<open>fault_ctx\<close>.
\<close>

section \<open>Memory areas and constants\<close>

text \<open>The fields of a memory area that the code reads. An area is named by a number.\<close>

record vm_area_struct =
  vm_start :: ulong
  vm_end :: ulong
  vm_flags :: ulong
  vm_prev :: "nat option"
  vm_next :: "nat option"

record mm_struct =
  vmas :: "nat \<Rightarrow> vm_area_struct"

record mm_ops =
  find_vma :: "mm_struct \<Rightarrow> ulong \<Rightarrow> nat option"
  security_file_mprotect :: "mm_struct \<Rightarrow> nat \<Rightarrow> ulong \<Rightarrow> ulong \<Rightarrow> int"
  mprotect_fixup :: "mm_struct \<Rightarrow> nat \<Rightarrow> nat option \<Rightarrow> ulong \<Rightarrow> ulong \<Rightarrow> ulong \<Rightarrow> int \<times> nat option \<times> mm_struct"
  arch_validate_prot :: "ulong \<Rightarrow> bool"
  calc_vm_prot_bits :: "ulong \<Rightarrow> ulong"
  handle_mm_fault :: "mm_struct \<Rightarrow> nat \<Rightarrow> ulong \<Rightarrow> u32 \<Rightarrow> u32 \<times> mm_struct"
  expand_stack :: "mm_struct \<Rightarrow> nat \<Rightarrow> ulong \<Rightarrow> int \<times> mm_struct"

text \<open>Values of kernel headers outside the repository (Linux 3.4, ARM).\<close>

definition PROT_READ :: ulong where "PROT_READ = 1"
definition PROT_EXEC :: ulong where "PROT_EXEC = 4"
definition PROT_GROWSDOWN :: ulong where "PROT_GROWSDOWN = 0x01000000"
definition PROT_GROWSUP :: ulong where "PROT_GROWSUP = 0x02000000"
definition PAGE_SIZE :: ulong where "PAGE_SIZE = 0x1000"
definition PAGE_MASK :: ulong where "PAGE_MASK = NOT (PAGE_SIZE - 1)"
definition VM_READ :: ulong where "VM_READ = 1"
definition VM_WRITE :: ulong where "VM_WRITE = 2"
definition VM_EXEC :: ulong where "VM_EXEC = 4"
definition VM_GROWSDOWN :: ulong where "VM_GROWSDOWN = 0x100"
definition VM_GROWSUP :: ulong where "VM_GROWSUP = 0"
definition FIRST_USER_ADDRESS :: ulong where "FIRST_USER_ADDRESS = PAGE_SIZE"
definition TASK_SIZE :: ulong where "TASK_SIZE = 0xBF000000"

lemmas vm_consts = PROT_READ_def PROT_EXEC_def PROT_GROWSDOWN_def PROT_GROWSUP_def PAGE_SIZE_def
  PAGE_MASK_def VM_READ_def VM_WRITE_def VM_EXEC_def VM_GROWSDOWN_def VM_GROWSUP_def
  FIRST_USER_ADDRESS_def TASK_SIZE_def

definition PAGE_ALIGN :: "ulong \<Rightarrow> ulong" where
  "PAGE_ALIGN a = (a + PAGE_SIZE - 1) AND PAGE_MASK"

section \<open>Changing the protection of a range\<close>

text \<open>The flags an area gets, whether they exceed its \<open>VM_MAY\<close> flags, and where the part of
  the range inside an area ends.\<close>

definition new_vm_flags :: "ulong \<Rightarrow> vm_area_struct \<Rightarrow> ulong" where
  "new_vm_flags vmf area = vmf OR (vm_flags area AND NOT (VM_READ OR VM_WRITE OR VM_EXEC))"

definition exceeds_may :: "ulong \<Rightarrow> bool" where
  "exceeds_may newflags \<longleftrightarrow>
     (newflags AND NOT (drop_bit 4 newflags)) AND (VM_READ OR VM_WRITE OR VM_EXEC) \<noteq> 0"

definition part_end :: "ulong \<Rightarrow> vm_area_struct \<Rightarrow> ulong" where
  "part_end end area = (if vm_end area > end then end else vm_end area)"

text \<open>
  The loop of \<open>mprotect_s\<close> over the areas of the range, from the area \<open>v\<close> that
  contains \<open>nstart\<close>. \<open>None\<close> is a loop that does not end or a dereference of a null
  \<open>prev\<close>.
\<close>

partial_function (option) mprotect_loop ::
  "mm_ops \<Rightarrow> ulong \<Rightarrow> ulong \<Rightarrow> ulong \<Rightarrow> ulong \<Rightarrow> nat \<Rightarrow> nat option \<Rightarrow> ulong \<Rightarrow> mm_struct \<Rightarrow> (int \<times> mm_struct) option" where
  "mprotect_loop ops vmf reqprot prot end v prv nstart mm =
     (let area = vmas mm v;
          newflags = new_vm_flags vmf area
      in if exceeds_may newflags
         then Some (- EACCES, mm)
         else if security_file_mprotect ops mm v reqprot prot \<noteq> 0
         then Some (security_file_mprotect ops mm v reqprot prot, mm)
         else
           let tmp = part_end end area;
               r = mprotect_fixup ops mm v prv nstart tmp newflags;
               error = fst r; mm' = snd (snd r)
           in if error \<noteq> 0 then Some (error, mm')
              else case fst (snd r) of
                None \<Rightarrow> None
              | Some p \<Rightarrow>
                  (let ns = (if tmp < vm_end (vmas mm' p) then vm_end (vmas mm' p) else tmp)
                   in if ns \<ge> end then Some (0, mm')
                      else case vm_next (vmas mm' p) of
                        None \<Rightarrow> Some (- ENOMEM, mm')
                      | Some w \<Rightarrow>
                          if vm_start (vmas mm' w) \<noteq> ns then Some (- ENOMEM, mm')
                          else mprotect_loop ops vmf reqprot prot end w (Some p) ns mm'))"

definition mprotect_s :: "mm_ops \<Rightarrow> bool \<Rightarrow> ulong \<Rightarrow> ulong \<Rightarrow> ulong \<Rightarrow> mm_struct \<Rightarrow> (int \<times> mm_struct) option" where
  "mprotect_s ops read_implies_exec start len prot0 mm =
     (let grows = prot0 AND (PROT_GROWSDOWN OR PROT_GROWSUP);
          prot1 = prot0 AND NOT (PROT_GROWSDOWN OR PROT_GROWSUP)
      in if grows = (PROT_GROWSDOWN OR PROT_GROWSUP) then Some (- EINVAL, mm)
         else if start AND NOT PAGE_MASK \<noteq> 0 then Some (- EINVAL, mm)
         else if len = 0 then Some (0, mm)
         else
           let end0 = start + PAGE_ALIGN len in
           if end0 \<le> start then Some (- ENOMEM, mm)
           else if \<not> arch_validate_prot ops prot1 then Some (- EINVAL, mm)
           else
             let reqprot = prot1;
                 prot = (if prot1 AND PROT_READ \<noteq> 0 \<and> read_implies_exec then prot1 OR PROT_EXEC else prot1);
                 vmf = calc_vm_prot_bits ops prot
             in case find_vma ops mm start of
                  None \<Rightarrow> Some (- ENOMEM, mm)
                | Some v \<Rightarrow>
                    let area = vmas mm v;
                        go = (\<lambda>st en. mprotect_loop ops vmf reqprot prot en v
                               (if st > vm_start area then Some v else vm_prev area) st mm)
                    in if grows AND PROT_GROWSDOWN \<noteq> 0 then
                         if vm_start area \<ge> end0 then Some (- ENOMEM, mm)
                         else if vm_flags area AND VM_GROWSDOWN = 0 then Some (- EINVAL, mm)
                         else go (vm_start area) end0
                       else if vm_start area > start then Some (- ENOMEM, mm)
                       else if grows AND PROT_GROWSUP \<noteq> 0 then
                         if vm_flags area AND VM_GROWSUP = 0 then Some (- EINVAL, mm)
                         else go start (vm_end area)
                       else go start end0)"

section \<open>The tracing system calls\<close>

text \<open>
  \<open>pids\<close> is the process table; \<open>current\<close> is the running task. A result is the
  return value, the scheduler state and, where memory is changed, the memory state.
\<close>

definition sys_start_trace ::
  "mm_ops \<Rightarrow> bool \<Rightarrow> (pid_t \<Rightarrow> task option) \<Rightarrow> pid_t \<Rightarrow> ulong \<Rightarrow> ulong \<Rightarrow> sched_state \<Rightarrow> mm_struct \<Rightarrow>
   (int \<times> sched_state \<times> mm_struct) option" where
  "sys_start_trace ops rie pids p start len s mm =
     (case pids p of
        None \<Rightarrow> Some (- 1, s, mm)
      | Some tsk \<Rightarrow>
          if pid (tasks s tsk) \<noteq> pid (tasks s (curr (rq s))) then Some (- 1, s, mm)
          else if trace_flag (tasks s tsk) = 1 then Some (- EINVAL, s, mm)
          else
            let s1 = upd_task tsk (\<lambda>t. t\<lparr>trace_flag := 1\<rparr>) s;
                s2 = upd_task tsk (\<lambda>t. t\<lparr>wcounts := 0\<rparr>) s1
            in case mprotect_s ops rie start len PROT_READ mm of
                 None \<Rightarrow> None
               | Some (r, mm') \<Rightarrow> if r < 0 then Some (- 1, s2, mm') else Some (0, s2, mm'))"

definition sys_stop_trace :: "(pid_t \<Rightarrow> task option) \<Rightarrow> pid_t \<Rightarrow> sched_state \<Rightarrow> int \<times> sched_state" where
  "sys_stop_trace pids p s =
     (case pids p of
        None \<Rightarrow> (- 1, s)
      | Some tsk \<Rightarrow>
          if trace_flag (tasks s tsk) = 0 then (- EINVAL, s)
          else (0, upd_task tsk (\<lambda>t. t\<lparr>trace_flag := 0\<rparr>) s))"

text \<open>
  \<open>put_user\<close> stores the count at the address when it is writable; its result is not looked
  at. User memory is a map from addresses to values, an address outside it is not writable.
\<close>

definition put_user :: "'v \<Rightarrow> ulong \<Rightarrow> (ulong \<Rightarrow> 'v option) \<Rightarrow> int \<times> (ulong \<Rightarrow> 'v option)" where
  "put_user v a um = (if um a = None then (- EFAULT, um) else (0, um(a := Some v)))"

definition sys_get_trace ::
  "(pid_t \<Rightarrow> task option) \<Rightarrow> pid_t \<Rightarrow> ulong \<Rightarrow> sched_state \<Rightarrow> (ulong \<Rightarrow> u32 option) \<Rightarrow>
   int \<times> (ulong \<Rightarrow> u32 option)" where
  "sys_get_trace pids p addr s um =
     (case pids p of
        None \<Rightarrow> (- 1, um)
      | Some tsk \<Rightarrow> (0, snd (put_user (wcounts (tasks s tsk)) addr um)))"

definition sys_set_wcounts :: "(pid_t \<Rightarrow> task option) \<Rightarrow> pid_t \<Rightarrow> int \<Rightarrow> sched_state \<Rightarrow> int \<times> sched_state" where
  "sys_set_wcounts pids p n s =
     (case pids p of
        None \<Rightarrow> (- 1, s)
      | Some tsk \<Rightarrow> (0, upd_task tsk (\<lambda>t. t\<lparr>wcounts := word_of_int n\<rparr>) s))"

definition sys_rr_fifo_trace :: "(pid_t \<Rightarrow> task option) \<Rightarrow> pid_t \<Rightarrow> sched_state \<Rightarrow> int \<times> sched_state" where
  "sys_rr_fifo_trace pids p s =
     (case pids p of
        None \<Rightarrow> (- 1, s)
      | Some tsk \<Rightarrow> (0, upd_task tsk (\<lambda>t. t\<lparr>rr_fifo_trace := 1\<rparr>) s))"

section \<open>Fault handling\<close>

text \<open>
  Constants of \<open>asm/fault.h\<close> and \<open>linux/mm.h\<close>; the two \<open>VM_FAULT_BAD\<close> codes are
  those of \<open>fault.c\<close>.
\<close>

definition FSR_LNX_PF :: u32 where "FSR_LNX_PF = 0x80000000"
definition FSR_WRITE :: u32 where "FSR_WRITE = 0x800"
definition VM_FAULT_OOM :: u32 where "VM_FAULT_OOM = 1"
definition VM_FAULT_SIGBUS :: u32 where "VM_FAULT_SIGBUS = 2"
definition VM_FAULT_MAJOR :: u32 where "VM_FAULT_MAJOR = 4"
definition VM_FAULT_RETRY :: u32 where "VM_FAULT_RETRY = 0x400"
definition VM_FAULT_ERROR :: u32 where "VM_FAULT_ERROR = 0x33"
definition VM_FAULT_BADMAP :: u32 where "VM_FAULT_BADMAP = 0x010000"
definition VM_FAULT_BADACCESS :: u32 where "VM_FAULT_BADACCESS = 0x020000"
definition FAULT_FLAG_WRITE :: u32 where "FAULT_FLAG_WRITE = 1"
definition FAULT_FLAG_ALLOW_RETRY :: u32 where "FAULT_FLAG_ALLOW_RETRY = 8"
definition FAULT_FLAG_KILLABLE :: u32 where "FAULT_FLAG_KILLABLE = 0x20"
definition SIGBUS :: int where "SIGBUS = 7"
definition SIGSEGV :: int where "SIGSEGV = 11"
definition BUS_ADRERR :: int where "BUS_ADRERR = 2"
definition SEGV_MAPERR :: int where "SEGV_MAPERR = 1"
definition SEGV_ACCERR :: int where "SEGV_ACCERR = 2"

lemmas fault_consts = FSR_LNX_PF_def FSR_WRITE_def VM_FAULT_OOM_def VM_FAULT_SIGBUS_def
  VM_FAULT_MAJOR_def VM_FAULT_RETRY_def VM_FAULT_ERROR_def VM_FAULT_BADMAP_def
  VM_FAULT_BADACCESS_def FAULT_FLAG_WRITE_def FAULT_FLAG_ALLOW_RETRY_def FAULT_FLAG_KILLABLE_def
  SIGBUS_def SIGSEGV_def BUS_ADRERR_def SEGV_MAPERR_def SEGV_ACCERR_def

text \<open>
  What the handlers tell the rest of the kernel: a signal forced on a task, an oops (the kernel
  thread dies), a call of the out-of-memory killer, an unhandled fault reported with
  \<open>arm_notify_die\<close>, and \<open>BUG()\<close>.
\<close>

datatype fault_event =
    Force_sig_info task int int ulong
  | Oops ulong u32
  | Pagefault_out_of_memory
  | Arm_notify_die int int ulong u32
  | Bug

text \<open>The registers and the context of a fault, and the answers of the code it asks.\<close>

record fault_ctx =
  user_mode :: bool
  in_atomic :: bool
  irqs_disabled :: bool
  mmap_sem_free :: bool
  in_exception_tables :: bool
  fixup_exception :: bool
  fatal_signal_arrived :: bool

record thread_fault =
  address :: ulong
  error_code :: u32
  trap_no :: nat

text \<open>The state the handlers change; the page tables stay abstract.\<close>

record 'pt fault_state =
  kst :: sched_state
  fmm :: mm_struct
  pgt :: 'pt
  thread :: "task \<Rightarrow> thread_fault"
  maj_flt :: "task \<Rightarrow> ulong"
  min_flt :: "task \<Rightarrow> ulong"
  fevents :: "fault_event list"

definition femit :: "fault_event \<Rightarrow> 'pt fault_state \<Rightarrow> 'pt fault_state" where
  "femit e f = f\<lparr>fevents := fevents f @ [e]\<rparr>"

definition fcurrent :: "'pt fault_state \<Rightarrow> task" where
  "fcurrent f = curr (rq (kst f))"

definition do_kernel_fault :: "fault_ctx \<Rightarrow> ulong \<Rightarrow> u32 \<Rightarrow> 'pt fault_state \<Rightarrow> 'pt fault_state" where
  "do_kernel_fault regs addr fsr f = (if fixup_exception regs then f else femit (Oops addr fsr) f)"

definition do_user_fault :: "task \<Rightarrow> ulong \<Rightarrow> u32 \<Rightarrow> int \<Rightarrow> int \<Rightarrow> 'pt fault_state \<Rightarrow> 'pt fault_state" where
  "do_user_fault tsk addr fsr sig code f =
     femit (Force_sig_info tsk sig code addr)
       (f\<lparr>thread := (thread f)(tsk := \<lparr>address = addr, error_code = fsr, trap_no = 14\<rparr>)\<rparr>)"

definition do_bad_area :: "fault_ctx \<Rightarrow> ulong \<Rightarrow> u32 \<Rightarrow> 'pt fault_state \<Rightarrow> 'pt fault_state" where
  "do_bad_area regs addr fsr f =
     (if user_mode regs then do_user_fault (fcurrent f) addr fsr SIGSEGV SEGV_MAPERR f
      else do_kernel_fault regs addr fsr f)"

text \<open>The permission check, which counts the write faults of a traced process.\<close>

definition access_error :: "u32 \<Rightarrow> ulong \<Rightarrow> sched_state \<Rightarrow> bool \<times> sched_state" where
  "access_error fsr vmf s =
     (let mask0 = VM_READ OR VM_WRITE OR VM_EXEC;
          mask1 = (if fsr AND FSR_WRITE \<noteq> 0 then VM_WRITE else mask0);
          mask = (if fsr AND FSR_LNX_PF \<noteq> 0 then VM_EXEC else mask1);
          cur = curr (rq s)
      in if vmf AND mask \<noteq> 0 then (False, s)
         else if vmf AND VM_WRITE = 0 \<and> mask = VM_WRITE \<and> trace_flag (tasks s cur) = 1
         then (True, upd_task cur (\<lambda>t. t\<lparr>wcounts := wcounts t + 1\<rparr>) s)
         else (True, s))"

definition good_area :: "mm_ops \<Rightarrow> ulong \<Rightarrow> u32 \<Rightarrow> u32 \<Rightarrow> nat \<Rightarrow> 'pt fault_state \<Rightarrow> u32 \<times> 'pt fault_state" where
  "good_area ops addr fsr flags v f =
     (case access_error fsr (vm_flags (vmas (fmm f) v)) (kst f) of
        (True, s') \<Rightarrow> (VM_FAULT_BADACCESS, f\<lparr>kst := s'\<rparr>)
      | (False, s') \<Rightarrow>
          (case handle_mm_fault ops (fmm f) v (addr AND PAGE_MASK) flags of
             (r, mm') \<Rightarrow> (r, f\<lparr>kst := s', fmm := mm'\<rparr>)))"

definition do_page_fault1 :: "mm_ops \<Rightarrow> ulong \<Rightarrow> u32 \<Rightarrow> u32 \<Rightarrow> 'pt fault_state \<Rightarrow> u32 \<times> 'pt fault_state" where
  "do_page_fault1 ops addr fsr flags f =
     (case find_vma ops (fmm f) addr of
        None \<Rightarrow> (VM_FAULT_BADMAP, f)
      | Some v \<Rightarrow>
          if vm_start (vmas (fmm f) v) > addr then
            (if vm_flags (vmas (fmm f) v) AND VM_GROWSDOWN \<noteq> 0 \<and> addr \<ge> FIRST_USER_ADDRESS then
               (case expand_stack ops (fmm f) v addr of
                  (e, mm') \<Rightarrow>
                    if e = 0 then good_area ops addr fsr flags v (f\<lparr>fmm := mm'\<rparr>)
                    else (VM_FAULT_BADMAP, f\<lparr>fmm := mm'\<rparr>))
             else (VM_FAULT_BADMAP, f))
          else good_area ops addr fsr flags v f)"

text \<open>
  The part of \<open>do_page_fault\<close> after the semaphore is taken (label \<open>retry\<close>). A retry
  clears \<open>FAULT_FLAG_ALLOW_RETRY\<close>, so there are at most two attempts.
\<close>

definition fault_signal :: "fault_ctx \<Rightarrow> ulong \<Rightarrow> u32 \<Rightarrow> u32 \<Rightarrow> 'pt fault_state \<Rightarrow> 'pt fault_state" where
  "fault_signal regs addr fsr fault f =
     (if fault AND (VM_FAULT_ERROR OR VM_FAULT_BADMAP OR VM_FAULT_BADACCESS) = 0 then f
      else if fault AND VM_FAULT_OOM \<noteq> 0 then femit Pagefault_out_of_memory f
      else if \<not> user_mode regs then do_kernel_fault regs addr fsr f
      else if fault AND VM_FAULT_SIGBUS \<noteq> 0 then do_user_fault (fcurrent f) addr fsr SIGBUS BUS_ADRERR f
      else do_user_fault (fcurrent f) addr fsr SIGSEGV
             (if fault = VM_FAULT_BADACCESS then SEGV_ACCERR else SEGV_MAPERR) f)"

definition count_flt :: "u32 \<Rightarrow> 'pt fault_state \<Rightarrow> 'pt fault_state" where
  "count_flt fault f =
     (let tsk = fcurrent f in
      if fault AND VM_FAULT_MAJOR \<noteq> 0
      then f\<lparr>maj_flt := (maj_flt f)(tsk := maj_flt f tsk + 1)\<rparr>
      else f\<lparr>min_flt := (min_flt f)(tsk := min_flt f tsk + 1)\<rparr>)"

function fault_attempt ::
  "mm_ops \<Rightarrow> fault_ctx \<Rightarrow> ulong \<Rightarrow> u32 \<Rightarrow> u32 \<Rightarrow> 'pt fault_state \<Rightarrow> 'pt fault_state" where
  "fault_attempt ops regs addr fsr flags f =
     (case do_page_fault1 ops addr fsr flags f of
        (fault, f1) \<Rightarrow>
          if fault AND VM_FAULT_RETRY \<noteq> 0 \<and> fatal_signal_arrived regs then f1
          else if fault AND VM_FAULT_ERROR = 0 \<and> flags AND FAULT_FLAG_ALLOW_RETRY \<noteq> 0 then
            (let f2 = count_flt fault f1 in
             if fault AND VM_FAULT_RETRY \<noteq> 0
             then fault_attempt ops regs addr fsr (flags AND NOT FAULT_FLAG_ALLOW_RETRY) f2
             else fault_signal regs addr fsr fault f2)
          else fault_signal regs addr fsr fault f1)"
  by pat_completeness auto
termination
  by (relation "measure (\<lambda>(_, _, _, _, flags, _). if flags AND FAULT_FLAG_ALLOW_RETRY = 0 then 0 else 1)")
    (auto simp: and_not_and split: if_splits)

declare fault_attempt.simps [simp del]

definition do_page_fault :: "mm_ops \<Rightarrow> ulong \<Rightarrow> u32 \<Rightarrow> fault_ctx \<Rightarrow> 'pt fault_state \<Rightarrow> int \<times> 'pt fault_state" where
  "do_page_fault ops addr fsr regs f =
     (let flags = FAULT_FLAG_ALLOW_RETRY OR FAULT_FLAG_KILLABLE OR
                  (if fsr AND FSR_WRITE \<noteq> 0 then FAULT_FLAG_WRITE else 0)
      in if in_atomic regs \<or> irqs_disabled regs \<or> \<not> has_mm (tasks (kst f) (fcurrent f))
         then (0, do_kernel_fault regs addr fsr f)
         else if \<not> mmap_sem_free regs \<and> \<not> user_mode regs \<and> \<not> in_exception_tables regs
         then (0, do_kernel_fault regs addr fsr f)
         else (0, fault_attempt ops regs addr fsr flags f))"

section \<open>Dispatch of aborts\<close>

text \<open>
  Accessors of the page tables of the current process and of the kernel's reference table
  (\<open>init_mm\<close>) at an address; \<open>pmd_k_none\<close> also takes which of the two hardware entries.
\<close>

record 'pt pt_ops =
  pgd_k_none :: "'pt \<Rightarrow> ulong \<Rightarrow> bool"
  pgd_present :: "'pt \<Rightarrow> ulong \<Rightarrow> bool"
  set_pgd_from_k :: "'pt \<Rightarrow> ulong \<Rightarrow> 'pt"
  pud_k_none :: "'pt \<Rightarrow> ulong \<Rightarrow> bool"
  pud_present :: "'pt \<Rightarrow> ulong \<Rightarrow> bool"
  set_pud_from_k :: "'pt \<Rightarrow> ulong \<Rightarrow> 'pt"
  pmd_k_none :: "'pt \<Rightarrow> ulong \<Rightarrow> ulong \<Rightarrow> bool"
  copy_pmd_from_k :: "'pt \<Rightarrow> ulong \<Rightarrow> 'pt"

definition SECTION_SHIFT :: nat where "SECTION_SHIFT = 20"

definition do_translation_fault ::
  "mm_ops \<Rightarrow> 'pt pt_ops \<Rightarrow> ulong \<Rightarrow> u32 \<Rightarrow> fault_ctx \<Rightarrow> 'pt fault_state \<Rightarrow> int \<times> 'pt fault_state" where
  "do_translation_fault ops pt addr fsr regs f =
     (if addr < TASK_SIZE then do_page_fault ops addr fsr regs f
      else if user_mode regs then (0, do_bad_area regs addr fsr f)
      else if pgd_k_none pt (pgt f) addr then (0, do_bad_area regs addr fsr f)
      else
        let f1 = (if \<not> pgd_present pt (pgt f) addr then f\<lparr>pgt := set_pgd_from_k pt (pgt f) addr\<rparr> else f)
        in if pud_k_none pt (pgt f1) addr then (0, do_bad_area regs addr fsr f1)
        else
          let f2 = (if \<not> pud_present pt (pgt f1) addr then f1\<lparr>pgt := set_pud_from_k pt (pgt f1) addr\<rparr> else f1);
              index = drop_bit SECTION_SHIFT addr AND 1
          in if pmd_k_none pt (pgt f2) addr index then (0, do_bad_area regs addr fsr f2)
             else (0, f2\<lparr>pgt := copy_pmd_from_k pt (pgt f2) addr\<rparr>))"

definition do_sect_fault :: "ulong \<Rightarrow> u32 \<Rightarrow> fault_ctx \<Rightarrow> 'pt fault_state \<Rightarrow> int \<times> 'pt fault_state" where
  "do_sect_fault addr fsr regs f = (0, do_bad_area regs addr fsr f)"

definition do_bad :: "ulong \<Rightarrow> u32 \<Rightarrow> fault_ctx \<Rightarrow> 'pt fault_state \<Rightarrow> int \<times> 'pt fault_state" where
  "do_bad addr fsr regs f = (1, f)"

text \<open>
  The entries of the handler tables name the handlers of this file, or one hooked by code
  outside it. The initial tables (\<open>fsr-2level.c\<close>) are not in the repository.
\<close>

datatype fault_fn = Fn_bad | Fn_translation_fault | Fn_page_fault | Fn_sect_fault | Fn_other nat

record fsr_info =
  fn :: fault_fn
  sig :: int
  code :: int
  name :: string

type_synonym 'pt ext_handler = "nat \<Rightarrow> ulong \<Rightarrow> u32 \<Rightarrow> fault_ctx \<Rightarrow> 'pt fault_state \<Rightarrow> int \<times> 'pt fault_state"

definition run_fault_fn ::
  "mm_ops \<Rightarrow> 'pt pt_ops \<Rightarrow> 'pt ext_handler \<Rightarrow> fault_fn \<Rightarrow> ulong \<Rightarrow> u32 \<Rightarrow> fault_ctx \<Rightarrow> 'pt fault_state \<Rightarrow>
   int \<times> 'pt fault_state" where
  "run_fault_fn ops pt ext h addr fsr regs f =
     (case h of
        Fn_bad \<Rightarrow> do_bad addr fsr regs f
      | Fn_translation_fault \<Rightarrow> do_translation_fault ops pt addr fsr regs f
      | Fn_page_fault \<Rightarrow> do_page_fault ops addr fsr regs f
      | Fn_sect_fault \<Rightarrow> do_sect_fault addr fsr regs f
      | Fn_other n \<Rightarrow> ext n addr fsr regs f)"

definition fsr_fs :: "u32 \<Rightarrow> nat" where
  "fsr_fs fsr = unat ((fsr AND 15) OR drop_bit 6 (fsr AND 0x400))"

text \<open>\<open>hook_fault_code\<close> and \<open>hook_ifault_code\<close>: \<open>None\<close> is \<open>BUG()\<close>.\<close>

definition hook_fault_code ::
  "int \<Rightarrow> fault_fn \<Rightarrow> int \<Rightarrow> int \<Rightarrow> string \<Rightarrow> fsr_info list \<Rightarrow> fsr_info list option" where
  "hook_fault_code nr h sg cd nm tbl =
     (if nr < 0 \<or> nr \<ge> int (length tbl) then None
      else Some (tbl[nat nr := \<lparr>fn = h, sig = sg, code = cd, name = nm\<rparr>]))"

definition hook_ifault_code ::
  "int \<Rightarrow> fault_fn \<Rightarrow> int \<Rightarrow> int \<Rightarrow> string \<Rightarrow> fsr_info list \<Rightarrow> fsr_info list option" where
  "hook_ifault_code nr h sg cd nm tbl =
     (if nr < 0 \<or> nr \<ge> int (length tbl) then None
      else Some (tbl[nat nr := \<lparr>fn = h, sig = sg, code = cd, name = nm\<rparr>]))"

definition do_DataAbort ::
  "mm_ops \<Rightarrow> 'pt pt_ops \<Rightarrow> 'pt ext_handler \<Rightarrow> fsr_info list \<Rightarrow> ulong \<Rightarrow> u32 \<Rightarrow> fault_ctx \<Rightarrow>
   'pt fault_state \<Rightarrow> 'pt fault_state" where
  "do_DataAbort ops pt ext tbl addr fsr regs f =
     (let inf = tbl ! fsr_fs fsr in
      case run_fault_fn ops pt ext (fn inf) addr (fsr AND NOT FSR_LNX_PF) regs f of
        (r, f') \<Rightarrow> if r = 0 then f' else femit (Arm_notify_die (sig inf) (code inf) addr fsr) f')"

definition do_PrefetchAbort ::
  "mm_ops \<Rightarrow> 'pt pt_ops \<Rightarrow> 'pt ext_handler \<Rightarrow> fsr_info list \<Rightarrow> ulong \<Rightarrow> u32 \<Rightarrow> fault_ctx \<Rightarrow>
   'pt fault_state \<Rightarrow> 'pt fault_state" where
  "do_PrefetchAbort ops pt ext tbl addr ifsr regs f =
     (let inf = tbl ! fsr_fs ifsr in
      case run_fault_fn ops pt ext (fn inf) addr (ifsr OR FSR_LNX_PF) regs f of
        (r, f') \<Rightarrow> if r = 0 then f' else femit (Arm_notify_die (sig inf) (code inf) addr ifsr) f')"

definition exceptions_init :: "nat \<Rightarrow> fsr_info list \<Rightarrow> fsr_info list option" where
  "exceptions_init cpu_architecture tbl =
     (let t1 = (if cpu_architecture \<ge> 8
                then hook_fault_code 4 Fn_translation_fault SIGSEGV SEGV_MAPERR ''I-cache maintenance fault'' tbl
                else Some tbl)
      in if cpu_architecture \<ge> 9
         then Option.bind t1 (\<lambda>t. Option.bind
           (hook_fault_code 3 Fn_bad SIGSEGV SEGV_MAPERR ''section access flag fault'' t)
           (hook_fault_code 6 Fn_bad SIGSEGV SEGV_MAPERR ''section access flag fault''))
         else t1)"

end
