(* ===== verification/Ras_Menu.thy ===== *)
theory Ras_Menu
  imports Core_Proofs Page_Trace C_Lib
begin

text \<open>
  The menu program \<open>Project2/ras_trace_bg/jni/ras_trace_bg.c\<close>, with which a user puts a process in the race-averse
  class, and its calls of the modelled system calls. The input is the list of numbers \<open>scanf\<close> reads; what it prints on
  the standard output, its exit code and the new scheduler state are the result. \<open>None\<close> is a run that reads a variable
  that was never set, because the input ended or a system call filled nothing in, or a call that does not return.
\<close>

section \<open>The program\<close>

text \<open>The C library's wrappers return -1 for an error.\<close>

definition libc_ret :: "int \<Rightarrow> int" where
  "libc_ret r = (if r < 0 then - 1 else r)"

definition nl :: string where "nl = [CHR 0x0A]"

text \<open>The line for a scheduler; other values print nothing.\<close>

definition scheduler_line :: "string \<Rightarrow> pid_t \<Rightarrow> int \<Rightarrow> string" where
  "scheduler_line when n algo =
     (let line = (\<lambda>name. ''pid='' @ show_int n @ '': '' @ when @ '' scheduler: '' @ name @ nl) in
      if algo = 0 then line ''SCHED_NORMAL''
      else if algo = 1 then line ''SCHED_FIFO''
      else if algo = 2 then line ''SCHED_RR''
      else if algo = 3 then line ''SCHED_BATCH''
      else if algo = 6 then line ''SCHED_RAS''
      else [])"

definition ask_choice :: string where
  "ask_choice = ''The task you want to perform: '' @ nl @ ''1-change scheduler'' @ nl @ ''2-trace interval'' @ nl @
     ''3-change wcounts (ONLY For TEST!)'' @ nl @ ''Input here: ''"

definition ask_pid :: "string \<Rightarrow> string" where
  "ask_pid what = ''please input which process you want to '' @ what @ '': pid = ''"

definition invalid_input :: string where "invalid_input = ''invalid input!'' @ nl"

type_synonym menu_result = "(int \<times> string) \<times> sched_state"

text \<open>The priority asked for: \<open>Inl\<close> ends the program with its output so far.\<close>

definition menu_priority :: "int \<Rightarrow> int list \<Rightarrow> (string + string \<times> int) option" where
  "menu_priority sched_algo inp =
     (if sched_algo = 1 \<or> sched_algo = 2 then
        (case inp of
           [] \<Rightarrow> None
         | sched_prio # _ \<Rightarrow>
             Some (if sched_prio \<le> 0 \<or> sched_prio > 99 then Inl (''Select priority (1-99) : '' @ invalid_input)
                   else Inr (''Select priority (1-99) : '', sched_prio)))
      else if sched_algo = 6 then Some (Inr ([], 0))
      else Some (Inl invalid_input))"

definition menu_change :: "kservices \<Rightarrow> int list \<Rightarrow> sched_state \<Rightarrow> menu_result option" where
  "menu_change K inp s =
     (case inp of
        n # sched_algo # rest \<Rightarrow>
          let out1 = ask_pid ''change'' @ ''Select the scheduling algorithms: 1-FIFO, 2-RR, 6-RAS: '' in
          (case menu_priority sched_algo rest of
             None \<Rightarrow> None
           | Some (Inl out2) \<Rightarrow> Some ((- 1, out1 @ out2), s)
           | Some (Inr (out2, sched_priority)) \<Rightarrow>
               let pre_sched_algo = libc_ret (sys_sched_getscheduler K n s) in
               (case sys_sched_setscheduler K n sched_algo (Some (Some sched_priority)) s of
                  None \<Rightarrow> None
                | Some (ret, s1) \<Rightarrow>
                    let cur_sched_algo = libc_ret (sys_sched_getscheduler K n s1)
                    in Some ((0, out1 @ out2 @ scheduler_line ''pre'' n pre_sched_algo @ scheduler_line ''cur'' n cur_sched_algo), s1)))
      | _ \<Rightarrow> None)"

text \<open>\<open>tv_nsec\<close> is the field of the time made of a number of ticks.\<close>

definition menu_interval :: "kservices \<Rightarrow> (u32 \<Rightarrow> int) \<Rightarrow> int list \<Rightarrow> sched_state \<Rightarrow> menu_result option" where
  "menu_interval K tv_nsec inp s =
     (case inp of
        [] \<Rightarrow> None
      | n # _ \<Rightarrow>
          (case sys_sched_rr_get_interval K n True s of
             ((_, None), s1) \<Rightarrow> None
           | ((_, Some ticks), s1) \<Rightarrow>
               Some ((0, ask_pid ''trace'' @ ''Time slice of pid '' @ show_int n @ '' is '' @
                 show_int (tv_nsec ticks div 1000000) @ '' msec(s).'' @ nl), s1)))"

definition menu_wcounts :: "(pid_t \<Rightarrow> task option) \<Rightarrow> int list \<Rightarrow> sched_state \<Rightarrow> menu_result option" where
  "menu_wcounts pids inp s =
     (case inp of
        n # wc # _ \<Rightarrow>
          Some ((0, ask_pid ''trace'' @ ''please input wcounts you want to set: wcounts = '' @ ''change wcounts finish!'' @ nl),
                snd (sys_set_wcounts pids n wc s))
      | _ \<Rightarrow> None)"

definition ras_menu :: "kservices \<Rightarrow> (u32 \<Rightarrow> int) \<Rightarrow> (pid_t \<Rightarrow> task option) \<Rightarrow> int list \<Rightarrow> sched_state \<Rightarrow> menu_result option" where
  "ras_menu K tv_nsec pids inp s =
     (case inp of
        [] \<Rightarrow> None
      | choice # rest \<Rightarrow>
          map_option (\<lambda>r. ((fst (fst r), ask_choice @ snd (fst r)), snd r))
            (if choice = 1 then menu_change K rest s
             else if choice = 2 then menu_interval K tv_nsec rest s
             else if choice = 3 then menu_wcounts pids rest s
             else Some ((0, []), s)))"

section \<open>What the user sees is what the process has\<close>

lemma change_scheduler_reset:
  assumes "ext_ok K" "change_scheduler K p pol pr reset s = Some (r, s')"
  shows "sched_reset_on_fork (tasks s' p) = reset"
proof -
  define s2 where "s2 = upd_task p (\<lambda>t. t\<lparr>sched_reset_on_fork := reset\<rparr>)
    (suspend_task K p (on_rq (tasks s p)) (task_current s p) s)"
  obtain s3 where s3: "setscheduler K p pol pr s2 = Some s3"
    "s' = emit (Rt_mutex_adjust_pi p) (check_class_changed K p (sched_class (tasks s2 p)) (prio (tasks s2 p))
      (resume_task K p 0 (on_rq (tasks s p)) (task_current s p) s3))"
    using assms(2) by (auto simp: change_scheduler_def s2_def Let_def split: option.splits)
  have "sched_reset_on_fork (tasks s3 p) = sched_reset_on_fork (tasks s2 p)"
    using s3(1) by (auto simp: setscheduler_def set_load_weight_def Let_def upd_task_def split: if_splits)
  moreover have "ids_same s3 s'"
    unfolding s3(2) using assms(1) ids_same_trans ids_same_upd(5) ids_same_class_changed ids_same_resume by blast
  ultimately show ?thesis by (simp add: ids_same_def sched_id_def s2_def upd_task_def)
qed

lemma setscheduler_menu_outcome:
  assumes ok: "ext_ok K" "getprio_ok K" and ty: "task_typed (tasks s p)"
    and p: "find_process_by_pid K s n = Some p" "0 < n" and flag: "\<not> sched_reset_on_fork (tasks s p)"
    and algo: "algo = 1 \<or> algo = 2 \<or> algo = 6" and r: "sys_sched_setscheduler K n algo (Some (Some pr)) s = Some (r, s')"
  shows "task_typed (tasks s' p) \<and> \<not> sched_reset_on_fork (tasks s' p) \<and> (policy (tasks s' p) = algo \<or> s' = s)"
proof -
  have c: "sched_setscheduler1 K p algo pr True s = Some (r, s')"
    using r algo p by (auto simp: sys_sched_setscheduler_def do_sched_setscheduler_def sched_setscheduler_def)
  have q: "requested_policy (tasks s p) algo = (algo, False)"
    using algo by (auto simp: requested_policy_def policy_defs)
  have v: "valid_policy algo" using algo by (auto simp: valid_policy_def policy_defs)
  from sched_setscheduler1_cases [OF c] consider "s' = s"
    | "change_scheduler K p algo pr False s = Some (r, s')" "rt_policy algo \<longleftrightarrow> pr \<noteq> 0" "0 \<le> pr" "pr \<le> 99"
    unfolding q by auto
  then show ?thesis
  proof cases
    case 1
    with ty flag show ?thesis by simp
  next
    case 2
    from change_scheduler_typed [OF ok v 2(2-4) typedD(1,2) [OF ty], of False] obtain s1 where
      "change_scheduler K p algo pr False s = Some (0, s1)" "task_typed (tasks s1 p)" "policy (tasks s1 p) = algo" by metis
    with 2(1) change_scheduler_reset [OF ok(1) 2(1)] show ?thesis by simp
  qed
qed

lemma getscheduler_line:
  assumes "task_typed (tasks s p)" "\<not> sched_reset_on_fork (tasks s p)" "find_process_by_pid K s n = Some p" "0 < n"
    "security_getscheduler K p = 0"
  shows "libc_ret (sys_sched_getscheduler K n s) = policy (tasks s p)"
proof -
  have "0 \<le> policy (tasks s p)" using assms(1) by (auto simp: task_typed_def valid_policy_def policy_defs)
  then show ?thesis using assms by (simp add: sys_sched_getscheduler_def libc_ret_def)
qed

lemma menu_priority_ok:
  assumes "menu_priority algo inp = Some x"
  shows "if algo = SCHED_RAS \<or> algo \<in> {SCHED_FIFO, SCHED_RR} \<and> 1 \<le> hd inp \<and> hd inp \<le> 99
    then \<exists>out pr. x = Inr (out, pr) else \<exists>out. x = Inl (out @ invalid_input)"
  using assms by (auto simp: menu_priority_def policy_defs split: if_splits list.splits)

lemma scheduler_line_empty:
  "task_typed t \<Longrightarrow> scheduler_line when n (policy t) = [] \<longleftrightarrow> policy t = SCHED_IDLE"
  by (auto simp: task_typed_def valid_policy_def policy_defs scheduler_line_def Let_def)

text \<open>C21: a run of the menu that changes the scheduler of a process (a positive number that names one, not marked for a
  reset on fork, in a system of well-typed tasks whose security module lets the policy be read). When the numbers typed ask
  for RAS, or for FIFO or RR with a priority from 1 to 99, it ends with code 0; the process then has the policy
  asked for or nothing changed, and the last output of the program is its line for the policy the process really
  has, which is empty exactly for \<open>SCHED_IDLE\<close>: this policy the program does not print. On any other input it
  ends with code -1, the last output is the complaint about the input and nothing changes. The classes outside
  the repository keep their contract, as above.\<close>

theorem menu_reports_policy:
  assumes "ext_ok K" and "getprio_ok K" and "\<forall>p. task_typed (tasks s p)"
    and "find_process_by_pid K s n = Some p" and "0 < n" and "security_getscheduler K p = 0"
    and "\<not> sched_reset_on_fork (tasks s p)"
    and run: "ras_menu K tv_nsec pids (1 # n # algo # inp) s = Some ((ecode, out), s')"
  shows "if algo = SCHED_RAS \<or> algo \<in> {SCHED_FIFO, SCHED_RR} \<and> 1 \<le> hd inp \<and> hd inp \<le> 99
    then ecode = 0 \<and> (policy (tasks s' p) = algo \<or> s' = s) \<and>
      (\<exists>shown. out = shown @ scheduler_line ''cur'' n (policy (tasks s' p))) \<and>
      (scheduler_line ''cur'' n (policy (tasks s' p)) = [] \<longleftrightarrow> policy (tasks s' p) = SCHED_IDLE)
    else ecode = - 1 \<and> s' = s \<and> (\<exists>shown. out = shown @ invalid_input)"
proof -
  obtain out1 where m: "menu_change K (n # algo # inp) s = Some ((ecode, out1), s')" "out = ask_choice @ out1"
    using run by (auto simp: ras_menu_def)
  then obtain x where x: "menu_priority algo inp = Some x" by (auto simp: menu_change_def Let_def split: option.splits)
  note cases = menu_priority_ok [OF x]
  show ?thesis
  proof (cases "algo = SCHED_RAS \<or> algo \<in> {SCHED_FIFO, SCHED_RR} \<and> 1 \<le> hd inp \<and> hd inp \<le> 99")
    case False
    then obtain out2 where "x = Inl (out2 @ invalid_input)" using cases by auto
    with x m have "ecode = - 1" "s' = s"
      "out = (ask_choice @ ask_pid ''change'' @ ''Select the scheduling algorithms: 1-FIFO, 2-RR, 6-RAS: '' @ out2) @ invalid_input"
      by (simp_all add: menu_change_def Let_def)
    then show ?thesis unfolding if_not_P [OF False] by blast
  next
    case True
    then obtain out2 pr where y: "x = Inr (out2, pr)" using cases by auto
    have algo: "algo = 1 \<or> algo = 2 \<or> algo = 6" using True by (auto simp: policy_defs)
    obtain r where r: "sys_sched_setscheduler K n algo (Some (Some pr)) s = Some (r, s')" "ecode = 0"
      "\<exists>shown. out1 = shown @ scheduler_line ''cur'' n (libc_ret (sys_sched_getscheduler K n s'))"
      using m(1) x y by (auto simp: menu_change_def Let_def split: option.splits)
    have o: "task_typed (tasks s' p) \<and> \<not> sched_reset_on_fork (tasks s' p) \<and> (policy (tasks s' p) = algo \<or> s' = s)"
      using setscheduler_menu_outcome [OF assms(1,2) _ assms(4,5,7) algo r(1)] assms(3) by blast
    have "find_process_by_pid K s' n = Some p" using assms(4,5) by (simp add: find_process_by_pid_def)
    then have "libc_ret (sys_sched_getscheduler K n s') = policy (tasks s' p)"
      using getscheduler_line [of s' p K n] o assms(5,6) by blast
    then have "\<exists>shown. out = shown @ scheduler_line ''cur'' n (policy (tasks s' p))"
      using r(3) m(2) by (metis append.assoc)
    then show ?thesis unfolding if_P [OF True] using r(2) o scheduler_line_empty by blast
  qed
qed

text \<open>Process 2 of the example goes from the race-averse class to round robin with priority 10.\<close>

theorem menu_reports_policy_witness:
  "\<exists>out s'. ras_menu kernel0 (\<lambda>_. 0) (\<lambda>_. None) [1, 2, 2, 10] ras3 = Some ((0, out), s') \<and> policy (tasks s' 2) = SCHED_RR \<and>
     (\<exists>shown. out = shown @ scheduler_line ''cur'' 2 (policy (tasks s' 2)))"
proof -
  have c: "fst (fst (the (ras_menu kernel0 (\<lambda>_. 0) (\<lambda>_. None) [1, 2, 2, 10] ras3))) = 0 \<and>
    ras_menu kernel0 (\<lambda>_. 0) (\<lambda>_. None) [1, 2, 2, 10] ras3 \<noteq> None" by code_simp
  have q: "policy (tasks (snd (the (ras_menu kernel0 (\<lambda>_. 0) (\<lambda>_. None) [1, 2, 2, 10] ras3))) 2) = SCHED_RR" by code_simp
  define r where "r = the (ras_menu kernel0 (\<lambda>_. 0) (\<lambda>_. None) [1, 2, 2, 10] ras3)"
  have run: "ras_menu kernel0 (\<lambda>_. 0) (\<lambda>_. None) [1, 2, 2, 10] ras3 = Some ((0, snd (fst r)), snd r)"
    using c unfolding r_def by (metis option.collapse prod.collapse)
  have s: "find_process_by_pid kernel0 ras3 2 = Some 2" "security_getscheduler kernel0 2 = 0"
    "\<not> sched_reset_on_fork (tasks ras3 2)"
    by (simp_all add: find_process_by_pid_def kernel0_def ras3_def state0_def task0_def upd_rq_def)
  have ty: "\<forall>p. task_typed (tasks ras3 p)" using task0_typed(2) by blast
  from menu_reports_policy [OF ext_ok_kernel0 ty s(1) _ s(2,3) run] run q show ?thesis by (auto simp: r_def [symmetric] policy_defs)
qed

end
