(* ===== verification/Page_Trace_Proofs.thy ===== *)
theory Page_Trace_Proofs
  imports Page_Trace Sched_Examples
begin

text \<open>
  Correctness of page tracing: which faults are counted, what a counted fault does, and that a
  successful \<open>sys_start_trace\<close> arms every page of the range. The memory manager is a
  parameter; \<open>mm_wf\<close> and \<open>mm_ops_ok\<close> name what the code relies on, as documented
  for \<open>find_vma\<close> (the first area that ends above the address) and \<open>mprotect_fixup\<close>
  (on success \<open>*pprev\<close> is an area that covers the range and has the new flags).
\<close>

section \<open>The permission check\<close>

definition write_mask :: "u32 \<Rightarrow> bool" where
  "write_mask fsr \<longleftrightarrow> fsr AND FSR_WRITE \<noteq> 0 \<and> fsr AND FSR_LNX_PF = 0"

definition counted :: "u32 \<Rightarrow> ulong \<Rightarrow> sched_state \<Rightarrow> bool" where
  "counted fsr vmf s \<longleftrightarrow>
     write_mask fsr \<and> vmf AND VM_WRITE = 0 \<and> trace_flag (tasks s (curr (rq s))) = 1"

definition count_write :: "sched_state \<Rightarrow> sched_state" where
  "count_write s = upd_task (curr (rq s)) (\<lambda>t. t\<lparr>wcounts := wcounts t + 1\<rparr>) s"

lemma access_error_eq:
  "access_error fsr vmf s =
     (vmf AND (if fsr AND FSR_LNX_PF \<noteq> 0 then VM_EXEC else if fsr AND FSR_WRITE \<noteq> 0 then VM_WRITE
               else VM_READ OR VM_WRITE OR VM_EXEC) = 0,
      if counted fsr vmf s then count_write s else s)"
  by (auto simp: access_error_def counted_def write_mask_def count_write_def Let_def vm_consts)

lemma access_error_cases:
  "access_error fsr vmf s = (e, s') \<Longrightarrow>
   s' = s \<or> e \<and> write_mask fsr \<and> trace_flag (tasks s (curr (rq s))) = 1 \<and> s' = count_write s"
  by (auto simp: access_error_eq counted_def write_mask_def split: if_splits)

lemma count_write_frame [simp]:
  "rq (count_write s) = rq s"
  "trace_flag (tasks (count_write s) t) = trace_flag (tasks s t)"
  "has_mm (tasks (count_write s) t) = has_mm (tasks s t)"
  "wcounts (tasks (count_write s) t) = (if t = curr (rq s) then wcounts (tasks s t) + 1 else wcounts (tasks s t))"
  "t \<noteq> curr (rq s) \<Longrightarrow> tasks (count_write s) t = tasks s t"
  by (simp_all add: count_write_def upd_defs)

section \<open>Fault handlers\<close>

lemma fault_report_frame [simp]:
  "kst (femit e f) = kst f" "fmm (femit e f) = fmm f" "pgt (femit e f) = pgt f"
  "kst (do_kernel_fault regs addr fsr f) = kst f" "fmm (do_kernel_fault regs addr fsr f) = fmm f"
  "kst (do_user_fault t addr fsr sg cd f) = kst f" "fmm (do_user_fault t addr fsr sg cd f) = fmm f"
  "kst (do_bad_area regs addr fsr f) = kst f" "fmm (do_bad_area regs addr fsr f) = fmm f"
  "kst (fault_signal regs addr fsr fault f) = kst f" "fmm (fault_signal regs addr fsr fault f) = fmm f"
  "kst (count_flt fault f) = kst f" "fmm (count_flt fault f) = fmm f"
  "fcurrent (count_flt fault f) = fcurrent f" "fevents (count_flt fault f) = fevents f"
  by (simp_all add: femit_def do_kernel_fault_def do_user_fault_def do_bad_area_def fault_signal_def
      count_flt_def Let_def fcurrent_def)

text \<open>A fault counts at most one write of the current task, and only a data write.\<close>

lemma good_area_kst:
  assumes "good_area ops addr fsr flags v f = (r, f')"
  shows "kst f' = kst f \<or>
    write_mask fsr \<and> r = VM_FAULT_BADACCESS \<and> trace_flag (tasks (kst f) (fcurrent f)) = 1 \<and>
    kst f' = count_write (kst f)"
  using assms access_error_cases [of fsr "vm_flags (vmas (fmm f) v)" "kst f"]
  by (auto simp: good_area_def fcurrent_def split: prod.splits bool.splits)

lemma do_page_fault1_kst:
  assumes "do_page_fault1 ops addr fsr flags f = (r, f')"
  shows "kst f' = kst f \<or>
    write_mask fsr \<and> r = VM_FAULT_BADACCESS \<and> trace_flag (tasks (kst f) (fcurrent f)) = 1 \<and>
    kst f' = count_write (kst f)"
  using assms
  by (auto simp: do_page_fault1_def fcurrent_def split: option.splits if_splits prod.splits
      dest!: good_area_kst)

definition counts_once :: "u32 \<Rightarrow> sched_state \<Rightarrow> sched_state \<Rightarrow> bool" where
  "counts_once fsr s s' \<longleftrightarrow>
     s' = s \<or> write_mask fsr \<and> trace_flag (tasks s (curr (rq s))) = 1 \<and> s' = count_write s"

lemma fault_attempt_kst: "counts_once fsr (kst f) (kst (fault_attempt ops regs addr fsr flags f))"
proof (induction ops regs addr fsr flags f rule: fault_attempt.induct)
  case (1 ops regs addr fsr flags f)
  obtain r f1 where a: "do_page_fault1 ops addr fsr flags f = (r, f1)" by fastforce
  note k = do_page_fault1_kst [OF a]
  show ?case
  proof (cases "r AND VM_FAULT_RETRY \<noteq> 0 \<and> r AND VM_FAULT_ERROR = 0 \<and>
      flags AND FAULT_FLAG_ALLOW_RETRY \<noteq> 0 \<and> \<not> fatal_signal_arrived regs")
    case True
    then have "r \<noteq> VM_FAULT_BADACCESS" by (auto simp: fault_consts)
    with k have "kst f1 = kst f" by simp
    moreover have "counts_once fsr (kst f1)
        (kst (fault_attempt ops regs addr fsr (flags AND NOT FAULT_FLAG_ALLOW_RETRY) (count_flt r f1)))"
      using "1.IH" [OF a [symmetric] _ _ refl] True by simp
    ultimately show ?thesis using True
      by (subst fault_attempt.simps) (simp add: a Let_def)
  next
    case False
    then have "kst (fault_attempt ops regs addr fsr flags f) = kst f1"
      by (subst fault_attempt.simps) (auto simp: a Let_def)
    with k show ?thesis by (auto simp: counts_once_def fcurrent_def)
  qed
qed

lemma counts_once_refl [simp]: "counts_once fsr s s"
  by (simp add: counts_once_def)

lemma do_page_fault_kst: "counts_once fsr (kst f) (kst (snd (do_page_fault ops addr fsr regs f)))"
  by (simp add: do_page_fault_def Let_def fault_attempt_kst)

lemma do_translation_fault_kst:
  "counts_once fsr (kst f) (kst (snd (do_translation_fault ops pt addr fsr regs f)))"
  by (simp add: do_translation_fault_def Let_def do_page_fault_kst)

lemma run_fault_fn_kst:
  assumes "\<And>n a fs r g. kst (snd (ext n a fs r g)) = kst g"
  shows "counts_once fsr (kst f) (kst (snd (run_fault_fn ops pt ext h addr fsr regs f)))"
  using assms
  by (cases h) (simp_all add: run_fault_fn_def do_bad_def do_sect_fault_def do_page_fault_kst
      do_translation_fault_kst)

text \<open>The path of a counted fault.\<close>

definition user_context :: "fault_ctx \<Rightarrow> bool" where
  "user_context regs \<longleftrightarrow> user_mode regs \<and> \<not> in_atomic regs \<and> \<not> irqs_disabled regs"

lemma do_page_fault_counted:
  assumes "user_context regs" "has_mm (tasks (kst f) (fcurrent f))"
    and "find_vma ops (fmm f) addr = Some v" "vm_start (vmas (fmm f) v) \<le> addr"
    and "counted fsr (vm_flags (vmas (fmm f) v)) (kst f)"
  shows "kst (snd (do_page_fault ops addr fsr regs f)) = count_write (kst f)"
    and "fmm (snd (do_page_fault ops addr fsr regs f)) = fmm f"
    and "fevents (snd (do_page_fault ops addr fsr regs f)) =
      fevents f @ [Force_sig_info (fcurrent f) SIGSEGV SEGV_ACCERR addr]"
proof -
  let ?flags = "FAULT_FLAG_ALLOW_RETRY OR FAULT_FLAG_KILLABLE OR FAULT_FLAG_WRITE"
  have w: "fsr AND FSR_WRITE \<noteq> 0" "fsr AND FSR_LNX_PF = 0"
    "vm_flags (vmas (fmm f) v) AND VM_WRITE = 0"
    using assms(5) by (auto simp: counted_def write_mask_def)
  have g: "do_page_fault1 ops addr fsr ?flags f = (VM_FAULT_BADACCESS, f\<lparr>kst := count_write (kst f)\<rparr>)"
    using assms(3-5) w by (simp add: do_page_fault1_def good_area_def access_error_eq not_less [symmetric])
  have p: "snd (do_page_fault ops addr fsr regs f) = fault_attempt ops regs addr fsr ?flags f"
    using assms(1,2) w by (simp add: do_page_fault_def user_context_def Let_def)
  have q: "fault_attempt ops regs addr fsr ?flags f =
      fault_signal regs addr fsr VM_FAULT_BADACCESS
        (count_flt VM_FAULT_BADACCESS (f\<lparr>kst := count_write (kst f)\<rparr>))"
    by (subst fault_attempt.simps, unfold g) (simp add: fault_consts)
  show "kst (snd (do_page_fault ops addr fsr regs f)) = count_write (kst f)"
    and "fmm (snd (do_page_fault ops addr fsr regs f)) = fmm f"
    by (simp_all add: p q)
  show "fevents (snd (do_page_fault ops addr fsr regs f)) =
      fevents f @ [Force_sig_info (fcurrent f) SIGSEGV SEGV_ACCERR addr]"
    unfolding p q using assms(1)
    by (simp add: fault_signal_def user_context_def fault_consts do_user_fault_def femit_def)
      (simp add: fcurrent_def)
qed

section \<open>Arming a range\<close>

text \<open>The flags of the area that contains an address.\<close>

definition flags_at :: "mm_ops \<Rightarrow> mm_struct \<Rightarrow> ulong \<Rightarrow> ulong option" where
  "flags_at ops mm a =
     (case find_vma ops mm a of
        None \<Rightarrow> None
      | Some v \<Rightarrow> if vm_start (vmas mm v) \<le> a then Some (vm_flags (vmas mm v)) else None)"

definition mm_wf :: "mm_ops \<Rightarrow> mm_struct \<Rightarrow> bool" where
  "mm_wf ops mm \<longleftrightarrow>
     (\<forall>a v. find_vma ops mm a = Some v \<longrightarrow>
        a < vm_end (vmas mm v) \<and>
        (\<forall>b. vm_start (vmas mm v) \<le> b \<and> b < vm_end (vmas mm v) \<longrightarrow> find_vma ops mm b = Some v) \<and>
        (\<forall>w. vm_next (vmas mm v) = Some w \<longrightarrow>
           find_vma ops mm (vm_start (vmas mm w)) = Some w \<and> vm_prev (vmas mm w) = Some v))"

definition mm_ops_ok :: "mm_ops \<Rightarrow> bool" where
  "mm_ops_ok ops \<longleftrightarrow>
     (\<forall>mm v rp pr. security_file_mprotect ops mm v rp pr \<le> 0) \<and>
     (\<forall>mm v prv a b nf. fst (mprotect_fixup ops mm v prv a b nf) \<le> 0) \<and>
     (\<forall>mm v a b nf q mm'.
        mm_wf ops mm \<and> find_vma ops mm a = Some v \<and> vm_start (vmas mm v) \<le> a \<and> a < b \<and>
        b \<le> vm_end (vmas mm v) \<and>
        mprotect_fixup ops mm v (if a > vm_start (vmas mm v) then Some v else vm_prev (vmas mm v)) a b nf
          = (0, q, mm') \<longrightarrow>
        mm_wf ops mm' \<and>
        (\<exists>p. q = Some p \<and> find_vma ops mm' a = Some p \<and> vm_start (vmas mm' p) \<le> a \<and>
           b \<le> vm_end (vmas mm' p) \<and> vm_flags (vmas mm' p) = nf) \<and>
        (\<forall>c. c < a \<or> b \<le> c \<longrightarrow> flags_at ops mm' c = flags_at ops mm c))"

definition unwritable :: "mm_ops \<Rightarrow> mm_struct \<Rightarrow> ulong \<Rightarrow> bool" where
  "unwritable ops mm a \<longleftrightarrow> (\<exists>fl. flags_at ops mm a = Some fl \<and> fl AND VM_WRITE = 0)"

lemma mm_wfD:
  assumes "mm_wf ops mm" "find_vma ops mm a = Some v"
  shows "a < vm_end (vmas mm v)"
    and "\<lbrakk>vm_start (vmas mm v) \<le> b; b < vm_end (vmas mm v)\<rbrakk> \<Longrightarrow> find_vma ops mm b = Some v"
    and "vm_next (vmas mm v) = Some w \<Longrightarrow> find_vma ops mm (vm_start (vmas mm w)) = Some w"
    and "vm_next (vmas mm v) = Some w \<Longrightarrow> vm_prev (vmas mm w) = Some v"
  using assms unfolding mm_wf_def by blast+

lemma new_flags_unwritable:
  "vmf AND VM_WRITE = 0 \<Longrightarrow>
   new_vm_flags vmf area AND VM_WRITE = 0"
proof -
  assume "vmf AND VM_WRITE = 0"
  moreover have "NOT (VM_READ OR VM_WRITE OR VM_EXEC) AND VM_WRITE = 0" by (simp add: vm_consts)
  ultimately show ?thesis by (simp only: new_vm_flags_def bit.conj_disj_distrib2 and.assoc) simp
qed

lemma mprotect_fixup_step:
  assumes "mm_ops_ok ops" "mm_wf ops mm" "find_vma ops mm n = Some v" "vm_start (vmas mm v) \<le> n" "n < e"
    and "prv = (if n > vm_start (vmas mm v) then Some v else vm_prev (vmas mm v))"
    and "tmp = part_end e (vmas mm v)"
    and "mprotect_fixup ops mm v prv n tmp nf = (0, q, mm')" and "nf AND VM_WRITE = 0"
  obtains p where "q = Some p" "mm_wf ops mm'" "find_vma ops mm' n = Some p"
    "n < vm_end (vmas mm' p)" "tmp \<le> vm_end (vmas mm' p)"
    "\<And>a. \<lbrakk>n \<le> a; a < vm_end (vmas mm' p)\<rbrakk> \<Longrightarrow> unwritable ops mm' a"
    "\<And>a. a < n \<Longrightarrow> flags_at ops mm' a = flags_at ops mm a"
proof -
  have n: "n < vm_end (vmas mm v)" using mm_wfD(1) [OF assms(2,3)] .
  then have b: "n < tmp" "tmp \<le> vm_end (vmas mm v)" using assms(5,7) by (auto simp: part_end_def)
  from assms(1) have *: "mm_wf ops mm' \<and>
      (\<exists>p. q = Some p \<and> find_vma ops mm' n = Some p \<and> vm_start (vmas mm' p) \<le> n \<and>
         tmp \<le> vm_end (vmas mm' p) \<and> vm_flags (vmas mm' p) = nf) \<and>
      (\<forall>c. c < n \<or> tmp \<le> c \<longrightarrow> flags_at ops mm' c = flags_at ops mm c)"
    using assms(2-4,8) b unfolding mm_ops_ok_def assms(6) by blast
  then obtain p where p: "mm_wf ops mm'" "q = Some p" "find_vma ops mm' n = Some p"
    "vm_start (vmas mm' p) \<le> n" "tmp \<le> vm_end (vmas mm' p)" "vm_flags (vmas mm' p) = nf" by blast
  have "unwritable ops mm' a" if "n \<le> a" "a < vm_end (vmas mm' p)" for a
  proof -
    have "vm_start (vmas mm' p) \<le> a" using p(4) that(1) by simp
    moreover from this have "find_vma ops mm' a = Some p" using mm_wfD(2) [OF p(1,3)] that(2) by blast
    ultimately show ?thesis using p(6) assms(9) by (simp add: unwritable_def flags_at_def)
  qed
  with that p(1-3,5) mm_wfD(1) [OF p(1,3)] * show ?thesis by blast
qed

lemma mprotect_loop_step:
  assumes "\<not> exceeds_may (new_vm_flags vmf (vmas mm v))" "security_file_mprotect ops mm v rp pr = 0"
    and "mprotect_fixup ops mm v prv n (part_end e (vmas mm v)) (new_vm_flags vmf (vmas mm v)) = (0, Some p, mm1)"
    and "part_end e (vmas mm v) \<le> vm_end (vmas mm1 p)"
  shows "mprotect_loop ops vmf rp pr e v prv n mm =
    (if vm_end (vmas mm1 p) \<ge> e then Some (0, mm1)
     else case vm_next (vmas mm1 p) of
       None \<Rightarrow> Some (- ENOMEM, mm1)
     | Some w \<Rightarrow>
         if vm_start (vmas mm1 w) \<noteq> vm_end (vmas mm1 p) then Some (- ENOMEM, mm1)
         else mprotect_loop ops vmf rp pr e w (Some p) (vm_end (vmas mm1 p)) mm1)"
proof (cases "part_end e (vmas mm v) < vm_end (vmas mm1 p)")
  case True
  with assms(1-3) show ?thesis by (subst mprotect_loop.simps) (simp add: Let_def split: option.split)
next
  case False
  with assms(4) have "vm_end (vmas mm1 p) = part_end e (vmas mm v)" by simp
  with assms(1-3) show ?thesis by (subst mprotect_loop.simps) (simp add: Let_def split: option.split)
qed

lemma mprotect_loop_ok:
  assumes ok: "mm_ops_ok ops" and vmf: "vmf AND VM_WRITE = 0"
  shows "\<lbrakk>mm_wf ops mm; find_vma ops mm n = Some v; vm_start (vmas mm v) \<le> n; n < e;
     prv = (if n > vm_start (vmas mm v) then Some v else vm_prev (vmas mm v))\<rbrakk> \<Longrightarrow>
   \<exists>r mm'. mprotect_loop ops vmf rp pr e v prv n mm = Some (r, mm') \<and> r \<le> 0 \<and>
     (r = 0 \<longrightarrow> (\<forall>a. n \<le> a \<and> a < e \<longrightarrow> unwritable ops mm' a) \<and>
        (\<forall>a<n. flags_at ops mm' a = flags_at ops mm a))"
proof (induction "unat e - unat n" arbitrary: mm n v prv rule: less_induct)
  case less
  let ?nf = "new_vm_flags vmf (vmas mm v)"
  let ?tmp = "part_end e (vmas mm v)"
  let ?sec = "security_file_mprotect ops mm v rp pr"
  obtain er q mm1 where fx: "mprotect_fixup ops mm v prv n ?tmp ?nf = (er, q, mm1)"
    by (metis prod_cases3)
  have le0: "?sec \<le> 0" "er \<le> 0" using ok fx unfolding mm_ops_ok_def by (metis fst_conv)+
  show ?case
  proof (cases "exceeds_may ?nf \<or> ?sec \<noteq> 0 \<or> er \<noteq> 0")
    case True
    then show ?thesis using le0 by (subst mprotect_loop.simps) (auto simp: fx Let_def)
  next
    case False
    then have fx0: "mprotect_fixup ops mm v prv n ?tmp ?nf = (0, q, mm1)" using fx by simp
    obtain p where p: "q = Some p" "mm_wf ops mm1" "find_vma ops mm1 n = Some p"
      "n < vm_end (vmas mm1 p)" "?tmp \<le> vm_end (vmas mm1 p)"
      "\<And>a. \<lbrakk>n \<le> a; a < vm_end (vmas mm1 p)\<rbrakk> \<Longrightarrow> unwritable ops mm1 a"
      "\<And>a. a < n \<Longrightarrow> flags_at ops mm1 a = flags_at ops mm a"
      using mprotect_fixup_step [OF ok less.prems refl fx0 new_flags_unwritable [OF vmf]] by blast
    let ?ns = "vm_end (vmas mm1 p)"
    have "mprotect_fixup ops mm v prv n ?tmp ?nf = (0, Some p, mm1)" using fx0 p(1) by simp
    note step = mprotect_loop_step [OF _ _ this p(5), of rp pr]
    show ?thesis
    proof (cases "?ns < e \<and> (\<exists>w. vm_next (vmas mm1 p) = Some w \<and> vm_start (vmas mm1 w) = ?ns)")
      case True
      then obtain w where w: "?ns < e" "vm_next (vmas mm1 p) = Some w" "vm_start (vmas mm1 w) = ?ns" by blast
      have d: "unat e - unat ?ns < unat e - unat n"
        using p(4) w(1) by (simp add: word_less_nat_alt)
      have fw: "find_vma ops mm1 ?ns = Some w" "vm_prev (vmas mm1 w) = Some p"
        using mm_wfD(3,4) [OF p(2,3) w(2)] w(3) by auto
      have "\<exists>r mm'. mprotect_loop ops vmf rp pr e w (Some p) ?ns mm1 = Some (r, mm') \<and> r \<le> 0 \<and>
         (r = 0 \<longrightarrow> (\<forall>a. ?ns \<le> a \<and> a < e \<longrightarrow> unwritable ops mm' a) \<and>
            (\<forall>a<?ns. flags_at ops mm' a = flags_at ops mm1 a))"
        using less.hyps [OF d p(2) fw(1) _ w(1)] w(3) fw(2) by simp
      then obtain r mm' where r: "mprotect_loop ops vmf rp pr e w (Some p) ?ns mm1 = Some (r, mm')" "r \<le> 0"
        "r = 0 \<Longrightarrow> (\<forall>a. ?ns \<le> a \<and> a < e \<longrightarrow> unwritable ops mm' a) \<and>
            (\<forall>a<?ns. flags_at ops mm' a = flags_at ops mm1 a)" by blast
      have "\<not> e \<le> ?ns" using w(1) by simp
      then have "mprotect_loop ops vmf rp pr e v prv n mm = Some (r, mm')"
        using False w(2,3) r(1) step by simp
      moreover have "unwritable ops mm' a" if "r = 0" "n \<le> a" "a < e" for a
        using r(3) [OF that(1)] p(6) [of a] that(2,3) by (cases "a < ?ns") (auto simp: unwritable_def not_less)
      moreover have "flags_at ops mm' a = flags_at ops mm a" if "r = 0" "a < n" for a
        using r(3) [OF that(1)] p(4,7) that(2) by (simp add: order_less_trans)
      ultimately show ?thesis using r(2) by blast
    next
      case no: False
      let ?r = "if e \<le> ?ns then 0 else - ENOMEM"
      have "mprotect_loop ops vmf rp pr e v prv n mm = Some (?r, mm1)"
        using False no step by (auto split: option.splits)
      moreover have "unwritable ops mm1 a" if "e \<le> ?ns" "n \<le> a" "a < e" for a
        using p(6) that by simp
      ultimately show ?thesis using p(7) by auto
    qed
  qed
qed

lemma mprotect_s_read:
  assumes "mm_ops_ok ops" "mm_wf ops mm"
    and "calc_vm_prot_bits ops PROT_READ AND VM_WRITE = 0"
    and "calc_vm_prot_bits ops (PROT_READ OR PROT_EXEC) AND VM_WRITE = 0"
  shows "\<exists>r mm'. mprotect_s ops rie start len PROT_READ mm = Some (r, mm') \<and> r \<le> 0 \<and>
    (r = 0 \<longrightarrow> len \<noteq> 0 \<longrightarrow>
      (\<forall>a. start \<le> a \<and> a < start + PAGE_ALIGN len \<longrightarrow> unwritable ops mm' a))"
proof -
  let ?e = "start + PAGE_ALIGN len"
  let ?pr = "if rie then PROT_READ OR PROT_EXEC else PROT_READ"
  have pr: "PROT_READ AND (PROT_GROWSDOWN OR PROT_GROWSUP) = 0"
    "PROT_READ AND (NOT PROT_GROWSDOWN AND NOT PROT_GROWSUP) = PROT_READ"
    "PROT_READ AND PROT_READ \<noteq> 0" "PROT_GROWSDOWN OR PROT_GROWSUP \<noteq> 0" "PROT_READ \<noteq> 0"
    by (simp_all add: vm_consts)
  show ?thesis
  proof (cases "start AND NOT PAGE_MASK \<noteq> 0 \<or> len = 0 \<or> ?e \<le> start \<or> \<not> arch_validate_prot ops PROT_READ \<or>
      (\<forall>v. find_vma ops mm start = Some v \<longrightarrow> vm_start (vmas mm v) > start)")
    case True
    then show ?thesis
      by (cases "find_vma ops mm start") (auto simp: mprotect_s_def pr Let_def)
  next
    case False
    then obtain v where v: "find_vma ops mm start = Some v" "vm_start (vmas mm v) \<le> start" "start < ?e"
      by (auto simp: not_less not_le)
    let ?loop = "mprotect_loop ops (calc_vm_prot_bits ops ?pr) PROT_READ ?pr ?e v
      (if start > vm_start (vmas mm v) then Some v else vm_prev (vmas mm v)) start mm"
    have "\<not> start < vm_start (vmas mm v)" using v(2) by simp
    then have "mprotect_s ops rie start len PROT_READ mm = ?loop"
      using False v(1) by (simp add: mprotect_s_def pr Let_def)
    moreover have "calc_vm_prot_bits ops ?pr AND VM_WRITE = 0" using assms(3,4) by simp
    ultimately show ?thesis
      using mprotect_loop_ok [OF assms(1) _ assms(2) v refl] by metis
  qed
qed

section \<open>Properties\<close>

text \<open>The permission check fails exactly when the area lacks the permission the fault needs, and
  it adds one to the write count of the current task exactly when that task is traced and the
  fault is a data write to an area without write permission; no other task changes.\<close>

theorem access_error_counts:
  "fst (access_error fsr vmf s) =
     (vmf AND (if fsr AND FSR_LNX_PF \<noteq> 0 then VM_EXEC else if fsr AND FSR_WRITE \<noteq> 0 then VM_WRITE
               else VM_READ OR VM_WRITE OR VM_EXEC) = 0) \<and>
   wcounts (tasks (snd (access_error fsr vmf s)) t) =
     wcounts (tasks s t) +
     (if t = curr (rq s) \<and> trace_flag (tasks s t) = 1 \<and> fsr AND FSR_WRITE \<noteq> 0 \<and>
         fsr AND FSR_LNX_PF = 0 \<and> vmf AND VM_WRITE = 0 then 1 else 0)"
  by (auto simp: access_error_eq counted_def write_mask_def)

text \<open>C33: whatever the fault, the tables and the memory manager, a data abort counts at most one
  write, of the current task and only when it is traced and wrote, and a prefetch abort counts
  nothing; handlers hooked from outside the file are assumed to leave the task structures alone.\<close>

theorem abort_counts_once:
  assumes "\<And>n a fs r g. kst (snd (ext n a fs r g)) = kst g"
  shows "(kst (do_DataAbort ops pt ext tbl addr fsr regs f) = kst f \<or>
      fsr AND FSR_WRITE \<noteq> 0 \<and> trace_flag (tasks (kst f) (curr (rq (kst f)))) = 1 \<and>
      kst (do_DataAbort ops pt ext tbl addr fsr regs f) = count_write (kst f)) \<and>
    kst (do_PrefetchAbort ops pt ext tbl addr fsr regs f) = kst f"
proof
  have d: "kst (do_DataAbort ops pt ext tbl addr fsr regs f) =
      kst (snd (run_fault_fn ops pt ext (fn (tbl ! fsr_fs fsr)) addr (fsr AND NOT FSR_LNX_PF) regs f))"
    by (simp add: do_DataAbort_def Let_def split: prod.splits)
  have "fsr AND FSR_WRITE \<noteq> 0" if "write_mask (fsr AND NOT FSR_LNX_PF)"
    using that by (auto simp: write_mask_def fault_consts and.assoc)
  then show "kst (do_DataAbort ops pt ext tbl addr fsr regs f) = kst f \<or>
      fsr AND FSR_WRITE \<noteq> 0 \<and> trace_flag (tasks (kst f) (curr (rq (kst f)))) = 1 \<and>
      kst (do_DataAbort ops pt ext tbl addr fsr regs f) = count_write (kst f)"
    using run_fault_fn_kst [where ext = ext and h = "fn (tbl ! fsr_fs fsr)" and fsr = "fsr AND NOT FSR_LNX_PF"
        and ops = ops and pt = pt and addr = addr and regs = regs and f = f, OF assms] unfolding d
    by (auto simp: counts_once_def)
  have "kst (do_PrefetchAbort ops pt ext tbl addr fsr regs f) =
      kst (snd (run_fault_fn ops pt ext (fn (tbl ! fsr_fs fsr)) addr (fsr OR FSR_LNX_PF) regs f))"
    by (simp add: do_PrefetchAbort_def Let_def split: prod.splits)
  moreover have "\<not> write_mask (fsr OR FSR_LNX_PF)"
    by (simp add: write_mask_def fault_consts word_ao_dist word_ao_absorbs)
  ultimately show "kst (do_PrefetchAbort ops pt ext tbl addr fsr regs f) = kst f"
    using run_fault_fn_kst [where ext = ext and h = "fn (tbl ! fsr_fs fsr)" and fsr = "fsr OR FSR_LNX_PF"
        and ops = ops and pt = pt and addr = addr and regs = regs and f = f, OF assms] by (simp add: counts_once_def)
qed

text \<open>C31: \<open>sys_start_trace\<close> always returns, and when it returns 0 for the current process, tracing
  is on, the count is zero and no page of the range is writable: the next write faults.\<close>

theorem start_trace_arms:
  assumes "mm_ops_ok ops" and "mm_wf ops mm"
    and "calc_vm_prot_bits ops PROT_READ AND VM_WRITE = 0"
    and "calc_vm_prot_bits ops (PROT_READ OR PROT_EXEC) AND VM_WRITE = 0"
  shows "\<exists>r s' mm'. sys_start_trace ops rie pids p start len s mm = Some (r, s', mm') \<and>
    (r = 0 \<longrightarrow> (\<exists>tsk. pids p = Some tsk \<and> trace_flag (tasks s' tsk) = 1 \<and> wcounts (tasks s' tsk) = 0) \<and>
       (len \<noteq> 0 \<longrightarrow> (\<forall>a. start \<le> a \<and> a < start + PAGE_ALIGN len \<longrightarrow> unwritable ops mm' a)))"
proof -
  obtain r mm' where "mprotect_s ops rie start len PROT_READ mm = Some (r, mm')" "r \<le> 0"
    "r = 0 \<longrightarrow> len \<noteq> 0 \<longrightarrow> (\<forall>a. start \<le> a \<and> a < start + PAGE_ALIGN len \<longrightarrow> unwritable ops mm' a)"
    using mprotect_s_read [OF assms] by metis
  then show ?thesis
    by (cases "pids p") (auto simp: sys_start_trace_def Let_def upd_defs)
qed

text \<open>C32: while tracing is on, every user-mode write to a page of an unwritable area adds exactly one
  to the count, leaves the memory areas alone, and sends one SIGSEGV with code SEGV_ACCERR and the
  faulting address to the process, whose handler is to make the page writable.\<close>

theorem traced_write_fault:
  assumes "user_context regs" and "has_mm (tasks (kst f) (fcurrent f))"
    and "trace_flag (tasks (kst f) (fcurrent f)) = 1"
    and "fsr AND FSR_WRITE \<noteq> 0" and "fsr AND FSR_LNX_PF = 0"
    and "unwritable ops (fmm f) addr"
  shows "wcounts (tasks (kst (snd (do_page_fault ops addr fsr regs f))) (fcurrent f)) =
      wcounts (tasks (kst f) (fcurrent f)) + 1 \<and>
    fmm (snd (do_page_fault ops addr fsr regs f)) = fmm f \<and>
    fevents (snd (do_page_fault ops addr fsr regs f)) =
      fevents f @ [Force_sig_info (fcurrent f) SIGSEGV SEGV_ACCERR addr]"
proof -
  from assms(6) obtain v where v: "find_vma ops (fmm f) addr = Some v"
    "vm_start (vmas (fmm f) v) \<le> addr" "vm_flags (vmas (fmm f) v) AND VM_WRITE = 0"
    by (auto simp: unwritable_def flags_at_def split: option.splits if_splits)
  have "counted fsr (vm_flags (vmas (fmm f) v)) (kst f)"
    using assms(3-5) v(3) by (simp add: counted_def write_mask_def fcurrent_def)
  from do_page_fault_counted [OF assms(1,2) v(1,2) this] show ?thesis
    by (simp add: fcurrent_def)
qed

text \<open>When changing the protection fails, \<open>sys_start_trace\<close> returns -1 but leaves tracing on
  and the count reset: a second attempt is refused with EINVAL until the trace is stopped.\<close>

theorem start_trace_failure_keeps_tracing:
  assumes "pids p = Some tsk" and "pid (tasks s tsk) = pid (tasks s (curr (rq s)))"
    and "trace_flag (tasks s tsk) \<noteq> 1"
    and "mprotect_s ops rie start len PROT_READ mm = Some (r, mm')" and "r < 0"
  shows "\<exists>s'. sys_start_trace ops rie pids p start len s mm = Some (- 1, s', mm') \<and>
    trace_flag (tasks s' tsk) = 1 \<and> wcounts (tasks s' tsk) = 0 \<and>
    sys_start_trace ops rie pids p start' len' s' mm'' = Some (- EINVAL, s', mm'') \<and>
    fst (sys_stop_trace pids p s') = 0"
proof (intro exI conjI)
  let ?s = "upd_task tsk (\<lambda>t. t\<lparr>wcounts := 0\<rparr>) (upd_task tsk (\<lambda>t. t\<lparr>trace_flag := 1\<rparr>) s)"
  have k: "trace_flag (tasks ?s tsk) = 1" "pid (tasks ?s t) = pid (tasks s t)" "rq ?s = rq s" for t
    by (simp_all add: upd_defs)
  show "sys_start_trace ops rie pids p start len s mm = Some (- 1, ?s, mm')"
    using assms by (simp add: sys_start_trace_def)
  show "trace_flag (tasks ?s tsk) = 1" by (rule k)
  show "wcounts (tasks ?s tsk) = 0" by (simp add: upd_defs)
  show "sys_start_trace ops rie pids p start' len' ?s mm'' = Some (- EINVAL, ?s, mm'')"
    unfolding sys_start_trace_def assms(1) using assms(2) k by simp
  show "fst (sys_stop_trace pids p ?s) = 0"
    unfolding sys_stop_trace_def assms(1) using k(1) by simp
qed

section \<open>Witnesses\<close>

text \<open>
  A memory manager with one area, which changes the protection of the whole area and otherwise
  fails for want of memory (as when an area cannot be split).
\<close>

definition area0 :: vm_area_struct where
  "area0 = \<lparr>vm_start = 0x10000, vm_end = 0x20000, vm_flags = 0x73, vm_prev = None, vm_next = None\<rparr>"

definition mm0 :: mm_struct where
  "mm0 = \<lparr>vmas = (\<lambda>_. area0)\<rparr>"

definition mm_ops0 :: mm_ops where
  "mm_ops0 = \<lparr>find_vma = (\<lambda>mm a. if a < vm_end (vmas mm 0) then Some 0 else None),
     security_file_mprotect = (\<lambda>_ _ _ _. 0),
     mprotect_fixup = (\<lambda>mm v prv a b nf.
       if v = 0 \<and> a = vm_start (vmas mm v) \<and> b = vm_end (vmas mm v)
       then (0, Some v, mm\<lparr>vmas := (vmas mm)(v := (vmas mm v)\<lparr>vm_flags := nf\<rparr>)\<rparr>)
       else (- ENOMEM, prv, mm)),
     arch_validate_prot = (\<lambda>_. True),
     calc_vm_prot_bits = (\<lambda>p. p AND 7),
     handle_mm_fault = (\<lambda>mm _ _ _. (0, mm)),
     expand_stack = (\<lambda>mm _ _. (- ENOMEM, mm))\<rparr>"

definition regs0 :: fault_ctx where
  "regs0 = \<lparr>user_mode = True, in_atomic = False, irqs_disabled = False, mmap_sem_free = True,
     in_exception_tables = False, fixup_exception = False, fatal_signal_arrived = False\<rparr>"

definition traced0 :: sched_state where
  "traced0 = upd_task 0 (\<lambda>t. t\<lparr>trace_flag := 1\<rparr>) state0"

definition fault0 :: "unit fault_state" where
  "fault0 = \<lparr>kst = traced0, fmm = \<lparr>vmas = (\<lambda>_. area0\<lparr>vm_flags := 0x71\<rparr>)\<rparr>, pgt = (),
     thread = (\<lambda>_. \<lparr>address = 0, error_code = 0, trap_no = 0\<rparr>), maj_flt = (\<lambda>_. 0), min_flt = (\<lambda>_. 0),
     fevents = []\<rparr>"

lemma mm_wf0: "mm_wf mm_ops0 mm0"
  by (auto simp: mm_wf_def mm_ops0_def mm0_def area0_def split: if_splits)

lemma area_flags_frame [simp]:
  fixes f :: "nat \<Rightarrow> vm_area_struct"
  shows "vm_start ((f(0 := (f 0)\<lparr>vm_flags := nf\<rparr>)) w) = vm_start (f w)"
    "vm_end ((f(0 := (f 0)\<lparr>vm_flags := nf\<rparr>)) w) = vm_end (f w)"
    "vm_next ((f(0 := (f 0)\<lparr>vm_flags := nf\<rparr>)) w) = vm_next (f w)"
    "vm_prev ((f(0 := (f 0)\<lparr>vm_flags := nf\<rparr>)) w) = vm_prev (f w)"
  by simp_all

lemma mm_ops_ok0: "mm_ops_ok mm_ops0"
  unfolding mm_ops_ok_def
proof (intro conjI allI impI; (elim conjE)?)
  fix mm v a b nf q and mm' :: mm_struct
  assume wf: "mm_wf mm_ops0 mm" and v: "find_vma mm_ops0 mm a = Some v" "vm_start (vmas mm v) \<le> a"
    and fx: "mprotect_fixup mm_ops0 mm v (if vm_start (vmas mm v) < a then Some v else vm_prev (vmas mm v)) a b nf
      = (0, q, mm')"
  let ?m = "mm\<lparr>vmas := (vmas mm)(0 := (vmas mm 0)\<lparr>vm_flags := nf\<rparr>)\<rparr>"
  have m: "vmas ?m = (vmas mm)(0 := (vmas mm 0)\<lparr>vm_flags := nf\<rparr>)" by simp
  have f: "find_vma mm_ops0 m c = (if c < vm_end (vmas m 0) then Some 0 else None)" for m c
    by (simp add: mm_ops0_def)
  have v0: "v = 0" "a < vm_end (vmas mm 0)" using v(1) by (simp_all add: f split: if_splits)
  have e: "a = vm_start (vmas mm 0)" "b = vm_end (vmas mm 0)" "q = Some 0" "mm' = ?m"
    using fx v0(1) by (simp_all add: mm_ops0_def split: if_splits)
  have "mm_wf mm_ops0 ?m = mm_wf mm_ops0 mm" by (simp only: mm_wf_def f m area_flags_frame)
  with wf show "mm_wf mm_ops0 mm'" unfolding e(4) by blast
  show "\<exists>p. q = Some p \<and> find_vma mm_ops0 mm' a = Some p \<and> vm_start (vmas mm' p) \<le> a \<and>
      b \<le> vm_end (vmas mm' p) \<and> vm_flags (vmas mm' p) = nf"
    using e v0 f by simp
  show "flags_at mm_ops0 mm' c = flags_at mm_ops0 mm c" if "c < a \<or> b \<le> c" for c
    using that e unfolding flags_at_def f by auto
qed (simp_all add: mm_ops0_def)

theorem access_error_counts_witness:
  "wcounts (tasks (snd (access_error FSR_WRITE VM_READ traced0)) 0) = 1"
  using access_error_counts [of FSR_WRITE VM_READ traced0 0]
  by (simp add: traced0_def state0_def task0_def upd_defs fault_consts vm_consts)

definition pt_ops0 :: "unit pt_ops" where
  "pt_ops0 = \<lparr>pgd_k_none = (\<lambda>_ _. False), pgd_present = (\<lambda>_ _. True), set_pgd_from_k = (\<lambda>p _. p),
     pud_k_none = (\<lambda>_ _. False), pud_present = (\<lambda>_ _. True), set_pud_from_k = (\<lambda>p _. p),
     pmd_k_none = (\<lambda>_ _ _. True), copy_pmd_from_k = (\<lambda>p _. p)\<rparr>"

definition fsr_info0 :: "fsr_info list" where
  "fsr_info0 = replicate 32 \<lparr>fn = Fn_page_fault, sig = SIGSEGV, code = SEGV_MAPERR, name = ''page fault''\<rparr>"

theorem abort_counts_once_witness:
  "kst (do_PrefetchAbort mm_ops0 pt_ops0 (\<lambda>n a fs r g. (1, g)) fsr_info0 0x12345 0x805 regs0 fault0) = traced0"
  using abort_counts_once [of "\<lambda>n a fs r g. (1, g)" mm_ops0 pt_ops0 fsr_info0 "0x12345" "0x805" regs0 fault0]
  by (simp add: fault0_def)

theorem start_trace_arms_witness:
  "\<exists>s' mm'. sys_start_trace mm_ops0 False (\<lambda>p. Some 0) 100 0x10000 0x10000 state0 mm0 = Some (0, s', mm') \<and>
     trace_flag (tasks s' 0) = 1 \<and> unwritable mm_ops0 mm' 0x12345"
proof -
  have "\<exists>s' mm'. sys_start_trace mm_ops0 False (\<lambda>p. Some 0) 100 0x10000 0x10000 state0 mm0 = Some (0, s', mm')"
    by (simp add: sys_start_trace_def mprotect_s_def mprotect_loop.simps mm_ops0_def mm0_def area0_def
        state0_def task0_def upd_defs vm_consts PAGE_ALIGN_def Let_def new_vm_flags_def exceeds_may_def
        part_end_def)
  then show ?thesis
    using start_trace_arms [OF mm_ops_ok0 mm_wf0, of False "\<lambda>p. Some 0" 100 "0x10000" "0x10000" state0]
    by (auto simp: mm_ops0_def vm_consts PAGE_ALIGN_def)
qed

theorem traced_write_fault_witness:
  "wcounts (tasks (kst (snd (do_page_fault mm_ops0 0x12345 FSR_WRITE regs0 fault0))) 0) = 1"
  using traced_write_fault [of regs0 fault0 FSR_WRITE mm_ops0 "0x12345"]
  by (simp add: regs0_def fault0_def traced0_def state0_def task0_def upd_defs user_context_def
      fcurrent_def unwritable_def flags_at_def mm_ops0_def area0_def fault_consts vm_consts)

theorem start_trace_failure_keeps_tracing_witness:
  "\<exists>s'. sys_start_trace mm_ops0 False (\<lambda>p. Some 0) 100 0x10001 8 state0 mm0 = Some (- 1, s', mm0) \<and>
     trace_flag (tasks s' 0) = 1"
proof -
  have "mprotect_s mm_ops0 False 0x10001 8 PROT_READ mm0 = Some (- EINVAL, mm0)"
    by (simp add: mprotect_s_def vm_consts)
  moreover have "pid (tasks state0 0) = pid (tasks state0 (curr (rq state0)))" "trace_flag (tasks state0 0) \<noteq> 1"
    by (simp_all add: state0_def task0_def)
  ultimately obtain s' where "sys_start_trace mm_ops0 False (\<lambda>p. Some 0) 100 0x10001 8 state0 mm0 = Some (- 1, s', mm0)"
    "trace_flag (tasks s' 0) = 1"
    using start_trace_failure_keeps_tracing [of "\<lambda>p. Some 0" 100 0 state0 mm_ops0 False "0x10001" 8 mm0 "- EINVAL" mm0 0 0 mm0]
    by auto
  then show ?thesis by blast
qed

end
