(* ===== verification/Ptree.thy ===== *)
theory Ptree
  imports C_Lib
begin

text \<open>
  The process tree system call of \<open>Project1/Problem1/sys_ptree.c\<close> and the program of
  \<open>Project1/Problem2/ptree.c\<close> that prints its result. Processes live in a store indexed
  by numbers and are linked by \<open>real_parent\<close> and by the list \<open>children\<close>, as in the
  kernel; the tree they form is the abstract view the theorems speak about.
\<close>

section \<open>Processes and the user buffer\<close>

record proc =
  real_parent :: "nat option"
  p_pid :: pid_t
  children :: "nat list"
  p_state :: int
  p_uid :: int
  p_comm :: string

type_synonym procs = "nat \<Rightarrow> proc"

record prinfo =
  parent_pid :: pid_t
  pi_pid :: pid_t
  first_child_pid :: pid_t
  next_sibling_pid :: pid_t
  pi_state :: int
  pi_uid :: int
  pi_comm :: string
  pi_layer :: int

text \<open>
  The entry after \<open>c\<close> in the child list of its parent; 0 when it is the last one or not
  linked.
\<close>

definition next_sibling :: "procs \<Rightarrow> nat \<Rightarrow> pid_t" where
  "next_sibling st c =
     (case real_parent (st c) of
        None \<Rightarrow> 0
      | Some par \<Rightarrow>
          (case dropWhile (\<lambda>x. x \<noteq> c) (children (st par)) of
             _ # d # _ \<Rightarrow> p_pid (st d)
           | _ \<Rightarrow> 0))"

definition first_child :: "procs \<Rightarrow> nat \<Rightarrow> pid_t" where
  "first_child st t = (case children (st t) of [] \<Rightarrow> 0 | c # _ \<Rightarrow> p_pid (st c))"

text \<open>The record that the walk writes for a child, field by field.\<close>

definition child_info :: "procs \<Rightarrow> int \<Rightarrow> nat \<Rightarrow> prinfo" where
  "child_info st l c =
     \<lparr>parent_pid = (case real_parent (st c) of None \<Rightarrow> 0 | Some q \<Rightarrow> p_pid (st q)),
      pi_pid = p_pid (st c),
      first_child_pid = first_child st c,
      next_sibling_pid = next_sibling st c,
      pi_state = p_state (st c),
      pi_uid = p_uid (st c),
      pi_comm = p_comm (st c),
      pi_layer = l\<rparr>"

section \<open>The walk\<close>

text \<open>
  The state of the walk: the buffer, the next free index, the current layer. \<open>cs\<close> are the
  entries of the child list still to visit. A write outside the buffer is a failing
  \<open>put_user\<close>, whose result the code only logs. \<open>None\<close> is a walk that does not end.
\<close>

type_synonym walk = "prinfo list \<times> int \<times> int"

definition visit :: "procs \<Rightarrow> int \<Rightarrow> nat \<Rightarrow> walk \<Rightarrow> walk" where
  "visit st nr c w =
     (case w of (buf, idx, layer) \<Rightarrow>
        if idx < nr then (buf[nat idx := child_info st layer c], idx + 1, layer) else w)"

definition deeper :: "walk \<Rightarrow> walk" where
  "deeper w = (case w of (buf, idx, layer) \<Rightarrow> (buf, idx, layer + 1))"

definition shallower :: "walk \<Rightarrow> walk" where
  "shallower w = (case w of (buf, idx, layer) \<Rightarrow> (buf, idx, layer - 1))"

partial_function (option) pstree_dfs :: "procs \<Rightarrow> int \<Rightarrow> nat list \<Rightarrow> walk \<Rightarrow> walk option" where
  "pstree_dfs st nr cs w =
     (case cs of
        [] \<Rightarrow> Some w
      | c # cs' \<Rightarrow>
          Option.bind (pstree_dfs st nr (children (st c)) (deeper (visit st nr c w)))
            (\<lambda>w'. pstree_dfs st nr cs' (shallower w')))"

definition root_info :: "procs \<Rightarrow> nat \<Rightarrow> int \<Rightarrow> prinfo" where
  "root_info st init_task l =
     \<lparr>parent_pid = 0,
      pi_pid = p_pid (st init_task),
      first_child_pid = first_child st init_task,
      next_sibling_pid = 0,
      pi_state = p_state (st init_task),
      pi_uid = p_uid (st init_task),
      pi_comm = p_comm (st init_task),
      pi_layer = l\<rparr>"

definition finish_here :: string where
  "finish_here = ''Finish here!''"

text \<open>The first 13 bytes of \<open>comm\<close> become the end mark and its terminating zero.\<close>

definition mark_finish :: "prinfo \<Rightarrow> prinfo" where
  "mark_finish e = e\<lparr>pi_comm := finish_here @ [CHR 0x00] @ drop 13 (pi_comm e)\<rparr>"

text \<open>The system call: a null \<open>buf\<close> or \<open>nr\<close> is \<open>None\<close>.\<close>

definition ptree :: "procs \<Rightarrow> nat \<Rightarrow> prinfo list option \<Rightarrow> int option \<Rightarrow> (int \<times> prinfo list option) option" where
  "ptree st init_task ubuf unr =
     (case (ubuf, unr) of
        (Some buf, Some nr) \<Rightarrow>
          let (buf1, idx1) = (if 0 < nr then (buf[0 := root_info st init_task 0], 1) else (buf, 0))
          in Option.bind (pstree_dfs st nr (children (st init_task)) (buf1, idx1, 1))
               (\<lambda>(buf2, idx2, layer). Some (0,
                  if idx2 < nr then Some (buf2[nat idx2 := mark_finish (buf2 ! nat idx2)]) else Some buf2))
      | _ \<Rightarrow> Some (1, ubuf))"

section \<open>The printing program\<close>

definition print_entry :: "prinfo \<Rightarrow> string" where
  "print_entry e =
     concat (replicate (nat (pi_layer e)) ''    '') @
     c_str (pi_comm e) @ '','' @ show_int (pi_pid e) @ '','' @ show_int (pi_state e) @ '','' @
     show_int (parent_pid e) @ '','' @ show_int (first_child_pid e) @ '','' @
     show_int (next_sibling_pid e) @ '','' @ show_int (pi_uid e) @ [CHR 0x0A]"

fun print_loop :: "prinfo list \<Rightarrow> string" where
  "print_loop [] = []"
| "print_loop (e # es) = (if c_str (pi_comm e) = finish_here then [] else print_entry e @ print_loop es)"

text \<open>\<open>main\<close> with the 100 records of its stack buffer.\<close>

definition ptree_main :: "procs \<Rightarrow> nat \<Rightarrow> prinfo list \<Rightarrow> string option" where
  "ptree_main st init_task buf =
     Option.bind (ptree st init_task (Some buf) (Some 100))
       (\<lambda>(r, ubuf). Some (if r = 1 then ''Call failed'' @ [CHR 0x0A]
                          else print_loop (take 100 (the ubuf))))"

section \<open>The parent and child program (ptree_pchr.c)\<close>

definition pchr_line :: "string \<Rightarrow> int \<Rightarrow> string" where
  "pchr_line who n = ''520021910965'' @ who @ '': '' @ show_int n @ [CHR 0x0A]"

text \<open>
  What appears on a terminal and the exit code of the parent, which waits for the child: \<open>forked\<close> is the result of
  \<open>fork\<close> in the parent, \<open>exec\<close> says that the printing program could be run. \<open>None\<close>: the printing program fails.
\<close>

definition ptree_pchr :: "int \<Rightarrow> int \<Rightarrow> bool \<Rightarrow> procs \<Rightarrow> nat \<Rightarrow> prinfo list \<Rightarrow> (string \<times> int) option" where
  "ptree_pchr parent forked exec st init_task buf =
     (let out1 = pchr_line ''Parent'' parent in
      if forked < 0 then Some (out1, 1)
      else
        let out2 = pchr_line ''Child'' forked
        in if exec then map_option (\<lambda>out3. (out1 @ out2 @ out3, 0)) (ptree_main st init_task buf)
           else Some (out1 @ out2, 0))"

end
