(* ===== verification/Ptree_Proofs.thy ===== *)
theory Ptree_Proofs
  imports Ptree
begin

text \<open>
  The system call refines a pre-order listing of the process tree: the walk over parent and
  child links terminates, writes one record per process with the layer equal to its depth, stops
  at the size of the buffer, and marks the end. The program of Problem 2 prints this listing.
\<close>

section \<open>The process tree\<close>

datatype proc_tree = Node nat "proc_tree list"

fun root :: "proc_tree \<Rightarrow> nat" where
  "root (Node p ts) = p"

fun represents :: "procs \<Rightarrow> proc_tree \<Rightarrow> bool" where
  "represents st (Node p ts) \<longleftrightarrow>
     children (st p) = map root ts \<and> distinct (map root ts) \<and>
     (\<forall>t \<in> set ts. real_parent (st (root t)) = Some p \<and> represents st t)"

definition pid_or_0 :: "procs \<Rightarrow> proc_tree list \<Rightarrow> pid_t" where
  "pid_or_0 st ts = (case ts of [] \<Rightarrow> 0 | t # _ \<Rightarrow> p_pid (st (root t)))"

text \<open>The records of the sub-trees \<open>ts\<close> of \<open>par\<close> in pre-order, at layer \<open>l\<close>.\<close>

function tree_entries :: "procs \<Rightarrow> int \<Rightarrow> nat \<Rightarrow> proc_tree list \<Rightarrow> prinfo list" where
  "tree_entries st l par [] = []"
| "tree_entries st l par (Node c us # ts) =
     \<lparr>parent_pid = p_pid (st par), pi_pid = p_pid (st c), first_child_pid = pid_or_0 st us,
      next_sibling_pid = pid_or_0 st ts, pi_state = p_state (st c), pi_uid = p_uid (st c),
      pi_comm = p_comm (st c), pi_layer = l\<rparr> #
     tree_entries st (l + 1) c us @ tree_entries st l par ts"
  by pat_completeness auto
termination
  by (relation "measure (\<lambda>(_, _, _, ts). size_list size ts)") auto

definition all_entries :: "procs \<Rightarrow> nat \<Rightarrow> proc_tree list \<Rightarrow> prinfo list" where
  "all_entries st r ts =
     \<lparr>parent_pid = 0, pi_pid = p_pid (st r), first_child_pid = pid_or_0 st ts, next_sibling_pid = 0,
      pi_state = p_state (st r), pi_uid = p_uid (st r), pi_comm = p_comm (st r), pi_layer = 0\<rparr> #
     tree_entries st 1 r ts"

text \<open>What the walk needs to know of a list of siblings and of everything below them.\<close>

function siblings_ok :: "procs \<Rightarrow> nat \<Rightarrow> proc_tree list \<Rightarrow> bool" where
  "siblings_ok st par [] \<longleftrightarrow> True"
| "siblings_ok st par (Node c us # ts) \<longleftrightarrow>
     real_parent (st c) = Some par \<and> next_sibling st c = pid_or_0 st ts \<and>
     children (st c) = map root us \<and> siblings_ok st c us \<and> siblings_ok st par ts"
  by pat_completeness auto
termination
  by (relation "measure (\<lambda>(_, _, ts). size_list size ts)") auto

lemma dropWhile_suffix:
  "distinct (xs @ c # ys) \<Longrightarrow> dropWhile (\<lambda>x. x \<noteq> c) (xs @ c # ys) = c # ys"
  by (induction xs) auto

lemma represents_siblings_ok:
  "\<lbrakk>children (st par) = map root (pre @ ts); distinct (map root (pre @ ts));
    \<forall>t \<in> set ts. real_parent (st (root t)) = Some par \<and> represents st t\<rbrakk> \<Longrightarrow> siblings_ok st par ts"
proof (induction st par ts arbitrary: pre rule: siblings_ok.induct)
  case (2 st par c us ts)
  have "siblings_ok st c us" using "2.prems"(3) "2.IH"(1) [of "[]"] by simp
  moreover have "siblings_ok st par ts"
    using "2.prems" "2.IH"(2) [of "pre @ [Node c us]"] by simp
  moreover have "dropWhile (\<lambda>x. x \<noteq> c) (children (st par)) = c # map root ts"
    using "2.prems"(1,2) dropWhile_suffix [of "map root pre" c "map root ts"] by simp
  then have "next_sibling st c = pid_or_0 st ts"
    using "2.prems"(3) by (cases ts) (simp_all add: next_sibling_def pid_or_0_def)
  ultimately show ?case using "2.prems"(3) by simp
qed simp

section \<open>The walk writes the listing\<close>

fun write_entries :: "int \<Rightarrow> prinfo list \<Rightarrow> prinfo list \<times> int \<Rightarrow> prinfo list \<times> int" where
  "write_entries nr [] bi = bi"
| "write_entries nr (e # es) (buf, idx) =
     write_entries nr es (if idx < nr then (buf[nat idx := e], idx + 1) else (buf, idx))"

lemma write_entries_append:
  "write_entries nr (es @ fs) bi = write_entries nr fs (write_entries nr es bi)"
  by (induction nr es bi rule: write_entries.induct) auto

lemma pstree_dfs_writes:
  "siblings_ok st par ts \<Longrightarrow>
   pstree_dfs st nr (map root ts) (buf, idx, l) =
     (case write_entries nr (tree_entries st l par ts) (buf, idx) of (b, i) \<Rightarrow> Some (b, i, l))"
proof (induction st l par ts arbitrary: buf idx rule: tree_entries.induct)
  case (1 st l par)
  show ?case by (simp add: pstree_dfs.simps)
next
  case (2 st l par c us ts)
  let ?e = "child_info st l c"
  obtain b1 i1 where b1: "(if idx < nr then (buf[nat idx := ?e], idx + 1) else (buf, idx)) = (b1, i1)"
    by fastforce
  obtain b2 i2 where b2: "write_entries nr (tree_entries st (l + 1) c us) (b1, i1) = (b2, i2)" by fastforce
  have "first_child st c = pid_or_0 st us"
    using "2.prems" by (cases us) (simp_all add: first_child_def pid_or_0_def)
  then have e: "tree_entries st l par (Node c us # ts) =
      ?e # tree_entries st (l + 1) c us @ tree_entries st l par ts"
    using "2.prems" by (simp add: child_info_def)
  have "deeper (visit st nr c (buf, idx, l)) = (b1, i1, l + 1)"
    using b1 by (auto simp: deeper_def visit_def split: if_splits)
  then have "pstree_dfs st nr (map root (Node c us # ts)) (buf, idx, l) =
      Option.bind (pstree_dfs st nr (map root us) (b1, i1, l + 1))
        (\<lambda>w'. pstree_dfs st nr (map root ts) (shallower w'))"
    using "2.prems" by (subst pstree_dfs.simps) simp
  also have "\<dots> = pstree_dfs st nr (map root ts) (b2, i2, l)"
    using "2.IH"(1) [of b1 i1] "2.prems" b2 by (simp add: shallower_def)
  also have "\<dots> = (case write_entries nr (tree_entries st l par ts) (b2, i2) of (b, i) \<Rightarrow> Some (b, i, l))"
    using "2.IH"(2) "2.prems" by simp
  finally show ?case unfolding e by (simp add: write_entries_append b1 b2)
qed

lemma write_entries_result:
  "length xs + length rest = n \<Longrightarrow>
   write_entries (int n) es (xs @ rest @ behind, int (length xs)) =
     (xs @ take (length rest) es @ drop (length es) rest @ behind,
      int (length xs + min (length es) (length rest)))"
proof (induction es arbitrary: xs rest)
  case (Cons e es)
  note IH = Cons.IH and len = Cons.prems
  show ?case
  proof (cases rest)
    case Nil
    then show ?thesis using IH [of xs "[]"] len by simp
  next
    case (Cons r rs)
    then show ?thesis using IH [of "xs @ [e]" rs] len by (simp add: add.commute)
  qed
qed simp

text \<open>The first record after the listing gets the end mark.\<close>

definition finish :: "prinfo list \<Rightarrow> prinfo list" where
  "finish buf = (case buf of [] \<Rightarrow> [] | e # b \<Rightarrow> mark_finish e # b)"

lemma length_finish [simp]: "length (finish b) = length b"
  by (simp add: finish_def split: list.split)

lemma represents_entries:
  assumes "represents st (Node r ts)"
  shows "siblings_ok st r ts" "children (st r) = map root ts" "root_info st r 0 # tree_entries st 1 r ts = all_entries st r ts"
proof -
  show c: "children (st r) = map root ts" using assms by simp
  show "siblings_ok st r ts" using represents_siblings_ok [of st r "[]" ts] assms by simp
  show "root_info st r 0 # tree_entries st 1 r ts = all_entries st r ts"
    using c by (cases ts) (simp_all add: all_entries_def root_info_def first_child_def pid_or_0_def)
qed

lemma ptree_result:
  assumes "represents st (Node r ts)" and n: "length buf = n"
  shows "ptree st r (Some (buf @ behind)) (Some (int n)) =
    Some (0, Some (take n (all_entries st r ts) @ finish (drop (length (all_entries st r ts)) buf) @ behind))"
proof -
  let ?es = "all_entries st r ts"
  note r = represents_entries [OF assms(1)]
  obtain b i where w: "write_entries (int n) ?es (buf @ behind, 0) = (b, i)" by fastforce
  have bi: "b = take n ?es @ drop (length ?es) buf @ behind" "i = int (min (length ?es) n)"
    using write_entries_result [of "[]" buf n ?es behind] w n by auto
  let ?bi = "if 0 < int n then ((buf @ behind)[0 := root_info st r 0], 1 :: int) else (buf @ behind, 0)"
  obtain b1 i1 where b1: "?bi = (b1, i1)" by fastforce
  then have "write_entries (int n) (tree_entries st 1 r ts) (b1, i1) = (b, i)"
    using w unfolding r(3) [symmetric] by (auto split: if_splits)
  then have "pstree_dfs st (int n) (children (st r)) (b1, i1, 1) = Some (b, i, 1)"
    using pstree_dfs_writes [OF r(1), of "int n" b1 i1 1] unfolding r(2) by simp
  then have "ptree st r (Some (buf @ behind)) (Some (int n)) =
      Some (0, if i < int n then Some (b[nat i := mark_finish (b ! nat i)]) else Some b)"
    using b1 by (simp add: ptree_def Let_def split: if_splits)
  also have "\<dots> = Some (0, Some (take n ?es @ finish (drop (length ?es) buf) @ behind))"
  proof (cases "length ?es < n")
    case True
    then obtain e rest where "drop (length ?es) buf = e # rest" using n by (cases "drop (length ?es) buf") auto
    with True bi show ?thesis by (simp add: finish_def nth_append list_update_append)
  next
    case False
    with bi n show ?thesis by (simp add: finish_def)
  qed
  finally show ?thesis .
qed

section \<open>Printing\<close>

lemma c_str_mark_finish [simp]: "c_str (pi_comm (mark_finish e)) = finish_here"
  by (simp add: mark_finish_def c_str_def finish_here_def)

lemma print_loop_stops:
  "\<lbrakk>\<forall>e \<in> set es. c_str (pi_comm e) \<noteq> finish_here; b = [] \<or> c_str (pi_comm (hd b)) = finish_here\<rbrakk> \<Longrightarrow>
   print_loop (es @ b) = concat (map print_entry es)"
  by (induction es) (cases b, auto)

section \<open>Properties\<close>

text \<open>C34: called with a buffer of \<open>n\<close> records, the system call returns 0 and fills the buffer with
  the first \<open>n\<close> processes of the tree in pre-order, each with its parent, first child, next
  sibling and depth; when processes run out before the buffer does, the next record is marked as the
  end; nothing else of the buffer and nothing behind it is written. A null argument gives 1.\<close>

theorem ptree_preorder:
  assumes "represents st (Node r ts)"
  shows "ptree st r (Some (buf @ behind)) (Some (int (length buf))) =
      Some (0, Some (take (length buf) (all_entries st r ts) @
        finish (drop (length (all_entries st r ts)) buf) @ behind)) \<and>
    ptree st r None nr = Some (1, None) \<and> ptree st r ubuf None = Some (1, ubuf)"
  using ptree_result [OF assms refl] by (auto simp: ptree_def split: option.split)

text \<open>C35: the program of Problem 2 terminates and prints exactly one line for each of the first 100
  processes in pre-order, provided no process is named like the end mark.\<close>

theorem ptree_main_prints_tree:
  assumes "represents st (Node r ts)" and "length buf = 100"
    and "\<forall>e \<in> set (all_entries st r ts). c_str (pi_comm e) \<noteq> finish_here"
  shows "ptree_main st r buf = Some (concat (map print_entry (take 100 (all_entries st r ts))))"
proof -
  let ?es = "all_entries st r ts"
  let ?b = "finish (drop (length ?es) buf)"
  have "?b = [] \<or> c_str (pi_comm (hd ?b)) = finish_here"
    by (auto simp: finish_def split: list.split)
  then have "print_loop (take 100 ?es @ ?b) = concat (map print_entry (take 100 ?es))"
    using assms(3) by (intro print_loop_stops) (auto dest: in_set_takeD)
  moreover have "length (take 100 ?es @ ?b) \<le> 100"
    using assms(2) by simp
  ultimately show ?thesis
    using ptree_result [OF assms(1,2), of "[]"] by (simp add: ptree_main_def)
qed

section \<open>Witnesses\<close>

text \<open>Swapper with its child \<open>init\<close>, which has the children 2 and 3.\<close>

definition procs0 :: procs where
  "procs0 p =
     (if p = 0 then \<lparr>real_parent = None, p_pid = 0, children = [1], p_state = 0, p_uid = 0, p_comm = ''swapper''\<rparr>
      else if p = 1 then \<lparr>real_parent = Some 0, p_pid = 1, children = [2, 3], p_state = 1, p_uid = 0, p_comm = ''init''\<rparr>
      else \<lparr>real_parent = Some 1, p_pid = int p + 40, children = [], p_state = 1, p_uid = 1000, p_comm = ''sh''\<rparr>)"

definition tree0 :: "proc_tree list" where
  "tree0 = [Node 1 [Node 2 [], Node 3 []]]"

definition blank :: prinfo where
  "blank = \<lparr>parent_pid = 0, pi_pid = 0, first_child_pid = 0, next_sibling_pid = 0, pi_state = 0, pi_uid = 0,
     pi_comm = [], pi_layer = 0\<rparr>"

lemma represents0: "represents procs0 (Node 0 tree0)"
  by (simp add: procs0_def tree0_def)

theorem ptree_preorder_witness:
  "\<exists>b. ptree procs0 0 (Some (replicate 3 blank)) (Some 3) = Some (0, Some b) \<and>
     map pi_pid b = [0, 1, 42] \<and> map next_sibling_pid b = [0, 0, 43] \<and> map pi_layer b = [0, 1, 2]"
  using ptree_preorder [OF represents0, of "replicate 3 blank" "[]" None None]
  by (simp add: all_entries_def tree0_def procs0_def pid_or_0_def numeral_eq_Suc finish_def)

theorem ptree_main_prints_tree_witness:
  "\<exists>out. ptree_main procs0 0 (replicate 100 blank) = Some out \<and> take 19 out = ''swapper,0,0,0,1,0,0''"
proof -
  have "\<forall>e \<in> set (all_entries procs0 0 tree0). c_str (pi_comm e) \<noteq> finish_here"
    by (simp add: all_entries_def tree0_def procs0_def c_str_def finish_here_def)
  from ptree_main_prints_tree [OF represents0 _ this, of "replicate 100 blank"] show ?thesis
    by (simp add: all_entries_def tree0_def procs0_def pid_or_0_def print_entry_def c_str_def show_int_def
        show_nat.simps digit_char_values)
qed

end
