(* ===== verification/Client_Server.thy ===== *)
theory Client_Server
  imports C_Lib
begin

text \<open>
  The encryption service of \<open>Project1/Problem4\<close>: the buffered line reader of \<open>general.h\<close>
  (the same file for client and server), the service thread and the admission counter of
  \<open>server.c\<close>, and the client of \<open>client.c\<close>. Socket
  calls are outside: the results of the successive \<open>read\<close> calls on a connection are a list.
\<close>

section \<open>The line reader (general.h)\<close>

definition MAXBUFFER :: nat where "MAXBUFFER = 256"
definition MAXLINE :: nat where "MAXLINE = 256"

text \<open>What a call of \<open>read\<close> may do: deliver bytes, fail with or without \<open>EINTR\<close>, or report
  the end of the stream. After the listed results the stream has ended.\<close>

datatype read_result = Bytes string | Eintr | Failed | End_of_stream

text \<open>The bytes of the buffer that were not consumed yet, and the results of future reads.\<close>

type_synonym conn = "string \<times> read_result list"

fun refill :: "read_result list \<Rightarrow> int \<times> conn" where
  "refill [] = (0, [], [])"
| "refill (Bytes b # rs) = (if b = [] then (0, [], rs) else (int (length b), b, rs))"
| "refill (Eintr # rs) = refill rs"
| "refill (Failed # rs) = (- 1, [], rs)"
| "refill (End_of_stream # rs) = (0, [], rs)"

text \<open>The bytes copied to \<open>sc\<close> come with the return value.\<close>

definition read_from_buf :: "conn \<Rightarrow> nat \<Rightarrow> int \<times> string \<times> conn" where
  "read_from_buf c n =
     (let (r, buf, rs) = (if fst c = [] then refill (snd c) else (int (length (fst c)), c))
      in if r \<le> 0 then (r, [], buf, rs)
         else let k = (if length buf < n then length buf else n)
              in (int k, take k buf, drop k buf, rs))"

text \<open>
  The loop of \<open>read_line\<close>: \<open>k\<close> is \<open>length - n\<close>, \<open>w\<close> what was stored so far.
\<close>

datatype line_result = Got string | Eof | Error string

fun read_loop :: "nat \<Rightarrow> string \<Rightarrow> conn \<Rightarrow> line_result \<times> conn" where
  "read_loop 0 w c = (Got w, c)"
| "read_loop (Suc k) w c =
     (case read_from_buf c 1 of (r, b, c') \<Rightarrow>
        if r = 1 then
          (if hd b = CHR 0x0A then (Got (w @ [hd b]), c') else read_loop k (w @ [hd b]) c')
        else if r = 0 then (if w = [] then (Eof, c') else (Got w, c'))
        else (Error w, c'))"

text \<open>
  The line array after the call, and the unsigned result: \<open>return -1\<close> gives the largest
  unsigned value.
\<close>

definition read_line :: "nat \<Rightarrow> conn \<Rightarrow> string \<Rightarrow> u32 \<times> string \<times> conn" where
  "read_line len c arr =
     (case read_loop (len - 1) [] c of
        (Got w, c') \<Rightarrow> (of_nat (length w), w @ [CHR 0x00] @ drop (length w + 1) arr, c')
      | (Eof, c') \<Rightarrow> (0, arr, c')
      | (Error w, c') \<Rightarrow> (- 1, w @ drop (length w) arr, c'))"

section \<open>The service thread (server.c)\<close>

definition MAXCLIBUF :: int where "MAXCLIBUF = 2"
definition CAESAR_SHIFT :: nat where "CAESAR_SHIFT = 3"

definition shift_letter :: "nat \<Rightarrow> nat \<Rightarrow> char \<Rightarrow> char" where
  "shift_letter sh base c = char_of ((of_char c - base + sh) mod 26 + base)"

definition caesar_char :: "nat \<Rightarrow> char \<Rightarrow> char" where
  "caesar_char sh c =
     (if 97 \<le> (of_char c :: nat) \<and> (of_char c :: nat) \<le> 122 then shift_letter sh 97 c
      else if 65 \<le> (of_char c :: nat) \<and> (of_char c :: nat) \<le> 90 then shift_letter sh 65 c
      else c)"

definition encrypt :: "string \<Rightarrow> string" where
  "encrypt = map (caesar_char CAESAR_SHIFT)"

definition please_wait :: string where
  "please_wait = ''Please wait...'' @ [CHR 0x0A]"

definition quit_line :: string where
  "quit_line = '':q'' @ [CHR 0x0A]"

text \<open>
  The body of the loop for a line: admission under the mutex, then the reply, or \<open>None\<close> when the
  thread leaves the loop.
\<close>

definition serve_body :: "int \<Rightarrow> bool \<Rightarrow> string \<Rightarrow> int \<times> bool \<times> string option" where
  "serve_body nserv start line =
     (let (nserv', start') = (if \<not> start \<and> nserv < MAXCLIBUF then (nserv + 1, True) else (nserv, start))
      in if start' then
           (if line = quit_line then (nserv', start', None) else (nserv', start', Some (encrypt line)))
         else (nserv', start', Some please_wait))"

record thread_state =
  th_conn :: conn
  th_line :: string
  th_start :: bool
  th_sent :: string

text \<open>
  One iteration of the \<open>while\<close> loop with the shared counter; the flag says whether the thread
  stays in the loop. The reply is built in the line array: the letters are replaced in place, the
  other answer is copied with its terminating zero.
\<close>

definition serve_iter :: "int \<Rightarrow> thread_state \<Rightarrow> bool \<times> int \<times> thread_state" where
  "serve_iter nserv th =
     (case read_line MAXLINE (th_conn th) (th_line th) of (r, arr, c') \<Rightarrow>
        let th' = th\<lparr>th_conn := c', th_line := arr\<rparr>
        in if r > 0 then
             (case serve_body nserv (th_start th) (c_str arr) of (nserv', start', reply) \<Rightarrow>
                (case reply of
                   None \<Rightarrow> (False, nserv', th'\<lparr>th_start := start'\<rparr>)
                 | Some out \<Rightarrow>
                     let line = out @ (if start' then drop (length out) arr
                                       else CHR 0x00 # drop (length out + 1) arr)
                     in (True, nserv', th'\<lparr>th_line := line, th_start := start', th_sent := th_sent th' @ out\<rparr>)))
           else (False, nserv, th'))"

text \<open>
  The whole server: the counter, the running threads, which of them have left their loop, and how
  many threads closed without ever having been admitted (a ghost). A thread may be created at any
  time. An iteration uses the counter in at most one critical section, the admission; the line it
  reads and the reply it sends belong to the thread alone, so an iteration is one step, also the
  last one, after which the thread is closing. The decrement is a second critical section
  and a step of its own: between the two any other thread may run.
\<close>

record server =
  nserv :: int
  running :: "nat \<Rightarrow> thread_state option"
  closing :: "nat set"
  closed_unadmitted :: nat

definition new_thread :: "conn \<Rightarrow> string \<Rightarrow> thread_state" where
  "new_thread c arr = \<lparr>th_conn = c, th_line = arr, th_start = False, th_sent = []\<rparr>"

text \<open>What a thread does after its loop: the decrement under the mutex; then it ends.\<close>

definition serve_close :: "nat \<Rightarrow> thread_state \<Rightarrow> server \<Rightarrow> server" where
  "serve_close t th sv =
     sv\<lparr>nserv := nserv sv - 1, running := (running sv)(t := None), closing := closing sv - {t},
        closed_unadmitted := closed_unadmitted sv + (if th_start th then 0 else 1)\<rparr>"

inductive server_step :: "server \<Rightarrow> server \<Rightarrow> bool" where
  accept: "running sv t = None \<Longrightarrow>
    server_step sv (sv\<lparr>running := (running sv)(t := Some (new_thread ([], rs) arr))\<rparr>)"
| iterate: "\<lbrakk>running sv t = Some th; t \<notin> closing sv; serve_iter (nserv sv) th = (True, n, th')\<rbrakk> \<Longrightarrow>
    server_step sv (sv\<lparr>nserv := n, running := (running sv)(t := Some th')\<rparr>)"
| leave: "\<lbrakk>running sv t = Some th; t \<notin> closing sv; serve_iter (nserv sv) th = (False, n, th')\<rbrakk> \<Longrightarrow>
    server_step sv (sv\<lparr>nserv := n, running := (running sv)(t := Some th'), closing := insert t (closing sv)\<rparr>)"
| close: "\<lbrakk>running sv t = Some th; t \<in> closing sv\<rbrakk> \<Longrightarrow> server_step sv (serve_close t th sv)"

definition server_init :: server where
  "server_init = \<lparr>nserv = 0, running = (\<lambda>_. None), closing = {}, closed_unadmitted = 0\<rparr>"

inductive server_reachable :: "server \<Rightarrow> bool" where
  start: "server_reachable server_init"
| step: "\<lbrakk>server_reachable sv; server_step sv sv'\<rbrakk> \<Longrightarrow> server_reachable sv'"

inductive_cases server_stepE: "server_step sv sv'"

section \<open>The client (client.c)\<close>

text \<open>\<open>fgets\<close> with room for \<open>n\<close> bytes: up to a newline, which is kept, or \<open>n - 1\<close> bytes.\<close>

definition fgets :: "nat \<Rightarrow> string \<Rightarrow> string" where
  "fgets n inp =
     (let line = takeWhile (\<lambda>c. c \<noteq> CHR 0x0A) inp @ take 1 (dropWhile (\<lambda>c. c \<noteq> CHR 0x0A) inp)
      in take (n - 1) line)"

text \<open>The zeroed buffer is filled, its last byte cleared and the one before it set to a newline.\<close>

definition client_buffer :: "string \<Rightarrow> string" where
  "client_buffer inp =
     (let got = fgets MAXBUFFER inp;
          buf = got @ replicate (MAXBUFFER - length got) (CHR 0x00)
      in (buf[MAXBUFFER - 1 := CHR 0x00])[MAXBUFFER - 2 := CHR 0x0A])"

definition client_message :: "string \<Rightarrow> string" where
  "client_message inp = c_str (client_buffer inp)"

text \<open>
  The loop of \<open>main\<close>: \<open>inp\<close> is the rest of the standard input, the list holds the results of the reads from the
  server. The result is what was sent, what was printed and the exit code; the program does not retry an interrupted read.
  \<open>None\<close>: a reply that fills the array with no zero in it is printed past its end.
\<close>

definition client_reply :: "string \<Rightarrow> string option" where
  "client_reply b =
     (let receive = take MAXBUFFER b @ replicate (MAXBUFFER - length b) (CHR 0x00)
      in if CHR 0x00 \<in> set receive then Some (''From server: '' @ c_str receive) else None)"

definition client_closing :: string where
  "client_closing = ''Client closing...'' @ [CHR 0x0A]"

fun client_loop :: "string \<Rightarrow> read_result list \<Rightarrow> (string list \<times> string \<times> int) option" where
  "client_loop inp [] = Some ([client_message inp], client_closing, 0)"
| "client_loop inp (r # rs) =
     (case r of
        Eintr \<Rightarrow> Some ([client_message inp], [], 1)
      | Failed \<Rightarrow> Some ([client_message inp], [], 1)
      | End_of_stream \<Rightarrow> Some ([client_message inp], client_closing, 0)
      | Bytes b \<Rightarrow>
          if b = [] then Some ([client_message inp], client_closing, 0)
          else
            Option.bind (client_reply b)
              (\<lambda>line. map_option (\<lambda>(sent, out, ecode). (client_message inp # sent, line @ out, ecode))
                 (client_loop (drop (length (fgets MAXBUFFER inp)) inp) rs)))"

text \<open>\<open>main\<close>: the arguments say whether the socket, the host and the connection could be had.\<close>

definition client_main :: "bool \<Rightarrow> bool \<Rightarrow> bool \<Rightarrow> string \<Rightarrow> read_result list \<Rightarrow> (string list \<times> string \<times> int) option" where
  "client_main sock host connected inp rs =
     (if \<not> sock then Some ([], [], 1)
      else if \<not> host then Some ([], [], 1)
      else if \<not> connected then Some ([], [], 1)
      else map_option (\<lambda>(sent, out, ecode). (sent, ''Please enter the message:'' @ [CHR 0x0A] @ out, ecode)) (client_loop inp rs))"

end
