(* ===== verification/Client_Server_Proofs.thy ===== *)
theory Client_Server_Proofs
  imports Client_Server
begin

text \<open>
  The line reader delivers the lines of the byte stream whatever the sizes of the chunks in
  which it arrives; the cipher can be undone; the admission counter counts admitted threads less
  those that closed unadmitted, so the limit holds up to that number and not beyond; a line of
  input reaches the service as one line.
\<close>

section \<open>The byte stream of a connection\<close>

fun data :: "read_result list \<Rightarrow> string" where
  "data [] = []"
| "data (Bytes b # rs) = b @ data rs"
| "data (_ # rs) = data rs"

definition stream :: "conn \<Rightarrow> string" where
  "stream c = fst c @ data (snd c)"

text \<open>A connection without errors: reads deliver at least one byte or are interrupted.\<close>

definition clean :: "conn \<Rightarrow> bool" where
  "clean c \<longleftrightarrow> Failed \<notin> set (snd c) \<and> End_of_stream \<notin> set (snd c) \<and> Bytes [] \<notin> set (snd c)"

fun line_of :: "nat \<Rightarrow> string \<Rightarrow> string" where
  "line_of 0 s = []"
| "line_of (Suc k) [] = []"
| "line_of (Suc k) (c # s) = c # (if c = CHR 0x0A then [] else line_of k s)"

lemma refill_clean:
  "clean ([], rs) \<Longrightarrow> \<exists>b rs'. refill rs = (int (length b), b, rs') \<and> clean (b, rs') \<and>
     b @ data rs' = data rs \<and> (b = [] \<longrightarrow> data rs = [])"
  by (induction rs rule: refill.induct) (auto simp: clean_def)

lemma read_1_clean:
  assumes "clean c"
  shows "\<exists>c'. clean c' \<and> read_from_buf c 1 =
    (case stream c of [] \<Rightarrow> (0, [], c') | x # s \<Rightarrow> (1, [x], c')) \<and> stream c' = tl (stream c)"
proof -
  obtain b rs where c: "c = (b, rs)" by fastforce
  show ?thesis
  proof (cases b)
    case Nil
    then obtain b' rs' where r: "refill rs = (int (length b'), b', rs')" "clean (b', rs')"
      "b' @ data rs' = data rs" "b' = [] \<longrightarrow> data rs = []" using refill_clean assms c by blast
    show ?thesis
    proof (cases b')
      case Nil
      then show ?thesis using r \<open>b = []\<close> c
        by (intro exI [of _ "([], rs')"]) (auto simp: read_from_buf_def stream_def)
    next
      case (Cons x xs)
      with r(3) have "data rs = x # xs @ data rs'" by simp
      then show ?thesis using r(1,2) Cons \<open>b = []\<close> c
        by (intro exI [of _ "(xs, rs')"]) (auto simp: read_from_buf_def stream_def clean_def)
    qed
  next
    case (Cons x xs)
    then show ?thesis using assms c by (auto simp: read_from_buf_def stream_def clean_def)
  qed
qed

lemma read_loop_clean:
  "clean c \<Longrightarrow> \<exists>c'. clean c' \<and> stream c' = drop (length (line_of k (stream c))) (stream c) \<and>
     read_loop k w c = (if 0 < k \<and> w = [] \<and> stream c = [] then Eof else Got (w @ line_of k (stream c)), c')"
proof (induction k arbitrary: w c)
  case (Suc k)
  from read_1_clean [OF Suc.prems] obtain c1 where c1: "clean c1"
    "read_from_buf c 1 = (case stream c of [] \<Rightarrow> (0, [], c1) | x # s \<Rightarrow> (1, [x], c1))"
    "stream c1 = tl (stream c)" by blast
  show ?case
  proof (cases "stream c")
    case Nil
    then show ?thesis using c1 by (intro exI [of _ c1]) auto
  next
    case (Cons x s)
    show ?thesis
    proof (cases "x = CHR 0x0A")
      case True
      then show ?thesis using c1 Cons by (intro exI [of _ c1]) auto
    next
      case False
      then show ?thesis using c1 Cons Suc.IH [OF c1(1), of "w @ [x]"] by auto
    qed
  qed
qed auto

lemma length_line_of: "length (line_of k s) \<le> k"
  by (induction k s rule: line_of.induct) auto

section \<open>Letters\<close>

lemma of_char_shift:
  assumes "base + 25 < 256" "base \<le> of_char c" "of_char c \<le> base + 25"
  shows "of_char (shift_letter sh base c) = (of_char c - base + sh) mod 26 + base"
proof -
  have "(of_char c - base + sh) mod 26 < 26" by simp
  then have "(of_char c - base + sh) mod 26 + base < 256" using assms(1) by linarith
  then show ?thesis by (simp add: shift_letter_def)
qed

lemma shift_letter_inverse:
  assumes "base + 25 < 256" "base \<le> of_char c" "of_char c \<le> base + 25" "(sh + sh') mod 26 = 0"
  shows "shift_letter sh' base (shift_letter sh base c) = c"
proof -
  let ?n = "of_char c - base :: nat"
  have "((?n + sh) mod 26 + sh') mod 26 = ?n"
  proof -
    have "((?n + sh) mod 26 + sh') mod 26 = (?n + (sh + sh') mod 26) mod 26"
      by (simp add: mod_simps add.assoc)
    also have "\<dots> = ?n" using assms(2-4) by simp
    finally show ?thesis .
  qed
  then show ?thesis
    using assms(2) by (simp add: shift_letter_def [of sh'] of_char_shift [OF assms(1-3)])
qed

lemma caesar_char_inverse:
  assumes "(sh + sh') mod 26 = 0"
  shows "caesar_char sh' (caesar_char sh c) = c"
proof -
  have m: "(x + sh) mod 26 < 26" for x by simp
  show ?thesis
    using of_char_shift [of 97 c sh] of_char_shift [of 65 c sh] assms
      m [of "of_char c - 97"] m [of "of_char c - 65"]
    by (auto simp: caesar_char_def shift_letter_inverse)
qed

section \<open>Admission\<close>

definition admitted :: "server \<Rightarrow> nat set" where
  "admitted sv = {t. \<exists>th. running sv t = Some th \<and> th_start th}"

definition server_inv :: "server \<Rightarrow> bool" where
  "server_inv sv \<longleftrightarrow> finite (admitted sv) \<and>
     nserv sv = int (card (admitted sv)) - int (closed_unadmitted sv) \<and> nserv sv \<le> MAXCLIBUF"

lemma serve_iter_admission:
  assumes "serve_iter n th = (stay, n', th')"
  shows "(th_start th' = th_start th \<and> n' = n) \<or> (\<not> th_start th \<and> th_start th' \<and> n < MAXCLIBUF \<and> n' = n + 1)"
  using assms
  by (auto simp: serve_iter_def serve_body_def Let_def split: prod.splits if_splits option.splits)

lemma admitted_upd:
  "admitted (sv\<lparr>nserv := n, running := (running sv)(t := Some th)\<rparr>) =
     (if th_start th then insert t (admitted sv) else admitted sv - {t})"
  "admitted (sv\<lparr>nserv := n, running := (running sv)(t := Some th), closing := cl\<rparr>) =
     (if th_start th then insert t (admitted sv) else admitted sv - {t})"
  "admitted (sv\<lparr>running := (running sv)(t := Some th)\<rparr>) =
     (if th_start th then insert t (admitted sv) else admitted sv - {t})"
  "admitted (serve_close t th sv) = admitted sv - {t}"
  by (auto simp: admitted_def serve_close_def)

lemma admitted_iff: "running sv t = Some th \<Longrightarrow> t \<in> admitted sv \<longleftrightarrow> th_start th"
  by (simp add: admitted_def)

lemma server_step_inv: "\<lbrakk>server_step sv sv'; server_inv sv\<rbrakk> \<Longrightarrow> server_inv sv'"
proof (induction rule: server_step.induct)
  case (accept sv t rs arr)
  then have "t \<notin> admitted sv" by (simp add: admitted_def)
  with accept show ?case by (simp add: server_inv_def admitted_upd new_thread_def)
next
  case (iterate sv t th n th')
  then show ?case
    using serve_iter_admission [OF iterate.hyps(3)] admitted_iff [OF iterate.hyps(1)]
    by (auto simp: server_inv_def admitted_upd insert_absorb)
next
  case (leave sv t th n th')
  then show ?case
    using serve_iter_admission [OF leave.hyps(3)] admitted_iff [OF leave.hyps(1)]
    by (auto simp: server_inv_def admitted_upd insert_absorb)
next
  case (close sv t th)
  have adm: "t \<in> admitted sv \<longleftrightarrow> th_start th" using close.hyps(1) by (rule admitted_iff)
  have "int (card (admitted sv - {t})) = int (card (admitted sv)) - (if th_start th then 1 else 0)"
    using adm close.prems card_Suc_Diff1 [of "admitted sv" t] by (cases "th_start th") (auto simp: server_inv_def)
  then show ?case
    using close.prems by (auto simp: server_inv_def admitted_upd) (auto simp: serve_close_def)
qed

lemma server_reachable_inv: "server_reachable sv \<Longrightarrow> server_inv sv"
proof (induction rule: server_reachable.induct)
  case start
  show ?case by (simp add: server_inv_def server_init_def admitted_def MAXCLIBUF_def)
qed (rule server_step_inv)

text \<open>The first iteration of a thread whose client sends a line, \<open>:q\<close>, or nothing.\<close>

lemma serve_iter_first:
  assumes "n < 2"
  shows "serve_iter n (new_thread ([], [Bytes (''a'' @ [CHR 0x0A])]) (replicate 256 (CHR 0x00))) =
      (True, n + 1, snd (snd (serve_iter 0 (new_thread ([], [Bytes (''a'' @ [CHR 0x0A])]) (replicate 256 (CHR 0x00))))))"
    and "th_start (snd (snd (serve_iter 0 (new_thread ([], [Bytes (''a'' @ [CHR 0x0A])]) (replicate 256 (CHR 0x00))))))"
  using assms by (simp_all add: serve_iter_def read_line_def MAXLINE_def new_thread_def numeral_eq_Suc
      read_from_buf_def c_str_def serve_body_def MAXCLIBUF_def quit_line_def encrypt_def)

lemma read_quit_line:
  "read_line MAXLINE ([], [Bytes quit_line]) (replicate 256 (CHR 0x00)) =
     (3, quit_line @ replicate 253 (CHR 0x00), [], [])"
  by code_simp

lemma serve_iter_quit:
  assumes "n < 2"
  shows "\<exists>th. serve_iter n (new_thread ([], [Bytes quit_line]) (replicate 256 (CHR 0x00))) = (False, n + 1, th) \<and> th_start th"
proof -
  have "c_str (quit_line @ replicate 253 (CHR 0x00)) = quit_line" by code_simp
  then show ?thesis
    using assms by (simp add: serve_iter_def new_thread_def read_quit_line serve_body_def MAXCLIBUF_def Let_def)
qed

lemma serve_iter_no_line:
  "serve_iter n (new_thread ([], []) arr) = (False, n, new_thread ([], []) arr)"
  by (simp add: serve_iter_def read_line_def MAXLINE_def new_thread_def numeral_eq_Suc read_from_buf_def)

section \<open>Messages of the client\<close>

lemma takeWhile_line:
  "CHR 0x0A \<notin> set l \<Longrightarrow> takeWhile (\<lambda>c. c \<noteq> CHR 0x0A) (l @ CHR 0x0A # rest) = l \<and>
     dropWhile (\<lambda>c. c \<noteq> CHR 0x0A) (l @ CHR 0x0A # rest) = CHR 0x0A # rest"
  by (induction l) auto

lemma fgets_line:
  "CHR 0x0A \<notin> set l \<Longrightarrow> fgets n (l @ CHR 0x0A # rest) = take (n - 1) (l @ [CHR 0x0A])"
  by (simp add: fgets_def takeWhile_line)

lemma c_str_append_zero: "CHR 0x00 \<notin> set l \<Longrightarrow> c_str (l @ CHR 0x00 # r) = l"
  by (induction l) (auto simp: c_str_def)

lemma client_buffer_line:
  assumes "CHR 0x0A \<notin> set l"
  shows "client_buffer (l @ CHR 0x0A # rest) =
    (let got = take 255 (l @ [CHR 0x0A]) in
     take 254 (got @ replicate 254 (CHR 0x00)) @ [CHR 0x0A, CHR 0x00])"
proof -
  let ?got = "take 255 (l @ [CHR 0x0A])"
  let ?buf = "?got @ replicate (256 - length ?got) (CHR 0x00)"
  have len: "length ?buf = 256" by simp
  have "client_buffer (l @ CHR 0x0A # rest) = (?buf[255 := CHR 0x00])[254 := CHR 0x0A]"
    using fgets_line [OF assms, of 256 rest] by (simp add: client_buffer_def MAXBUFFER_def Let_def)
  also have "\<dots> = take 254 ?buf @ [CHR 0x0A, CHR 0x00]"
    by (rule nth_equalityI) (use len in \<open>auto simp: nth_append nth_list_update nth_Cons' min_def\<close>)
  also have "take 254 ?buf = take 254 (?got @ replicate 254 (CHR 0x00))"
    by (simp add: take_replicate min_def)
  finally show ?thesis by (simp add: Let_def)
qed

lemma client_message_cases:
  assumes "CHR 0x0A \<notin> set l" "CHR 0x00 \<notin> set l"
  shows "client_message (l @ CHR 0x0A # rest) =
    (if length l < 253 then l @ [CHR 0x0A]
     else if length l = 253 then l @ [CHR 0x0A, CHR 0x0A]
     else take 254 l @ [CHR 0x0A])"
proof -
  let ?got = "take 255 (l @ [CHR 0x0A])"
  let ?pre = "take 254 (?got @ replicate 254 (CHR 0x00))"
  have msg: "client_message (l @ CHR 0x0A # rest) = c_str (?pre @ [CHR 0x0A, CHR 0x00])"
    by (simp add: client_message_def client_buffer_line [OF assms(1)] Let_def)
  consider "length l < 253" | "length l = 253" | "253 < length l" by linarith
  then show ?thesis
  proof cases
    case 1
    then obtain k where "254 - Suc (length l) = Suc k" by (cases "254 - Suc (length l)") auto
    then have k: "254 - length l = Suc (Suc k)" "min k 253 = k" using 1 by auto
    have "?pre = (l @ [CHR 0x0A]) @ CHR 0x00 # replicate k (CHR 0x00)" using 1 by (simp add: k take_replicate)
    then show ?thesis using 1 msg assms(2) c_str_append_zero [of "l @ [CHR 0x0A]"] by simp
  next
    case 2
    then have "?pre = l @ [CHR 0x0A]" by simp
    then show ?thesis using 2 msg assms(2) c_str_append_zero [of "l @ [CHR 0x0A, CHR 0x0A]" "[]"] by simp
  next
    case 3
    then have "?pre = take 254 l" by simp
    moreover have "CHR 0x00 \<notin> set (take 254 l)" using assms(2) by (auto dest: in_set_takeD)
    ultimately show ?thesis using 3 msg c_str_append_zero [of "take 254 l @ [CHR 0x0A]" "[]"] by simp
  qed
qed

lemma line_of_line:
  "\<lbrakk>CHR 0x0A \<notin> set l; length l < k\<rbrakk> \<Longrightarrow> line_of k (l @ CHR 0x0A # s) = l @ [CHR 0x0A]"
proof (induction l arbitrary: k)
  case Nil
  then show ?case by (cases k) simp_all
next
  case (Cons a l)
  then show ?case by (cases k) auto
qed

lemma unsigned_length_pos: "\<lbrakk>0 < n; n \<le> 255\<rbrakk> \<Longrightarrow> (0 :: u32) < of_nat n"
  by (simp add: word_less_nat_alt unat_of_nat)

text \<open>A service thread that is admitted answers a complete line with its encryption.\<close>

lemma serve_iter_line:
  assumes "clean (th_conn th)" "stream (th_conn th) = l @ CHR 0x0A # s"
    and "CHR 0x0A \<notin> set l" "CHR 0x00 \<notin> set l" "length l < 255"
    and "th_start th \<or> n < MAXCLIBUF" "l \<noteq> '':q''"
  shows "\<exists>n' th'. serve_iter n th = (True, n', th') \<and> th_start th' \<and> stream (th_conn th') = s \<and>
    clean (th_conn th') \<and> th_sent th' = th_sent th @ encrypt (l @ [CHR 0x0A])"
proof -
  have lo: "line_of (MAXLINE - 1) (stream (th_conn th)) = l @ [CHR 0x0A]"
    using line_of_line [OF assms(3)] assms(2,5) by (simp add: MAXLINE_def)
  obtain c' where c': "clean c'" "stream c' = s"
    "read_loop (MAXLINE - 1) [] (th_conn th) = (Got (l @ [CHR 0x0A]), c')"
    using read_loop_clean [OF assms(1), of "MAXLINE - 1" "[]"] lo assms(2) by auto
  let ?arr = "(l @ [CHR 0x0A]) @ CHR 0x00 # drop (length l + 2) (th_line th)"
  have r: "read_line MAXLINE (th_conn th) (th_line th) = (of_nat (length l + 1), ?arr, c')"
    using c'(3) by (simp add: read_line_def)
  have "c_str ?arr = l @ [CHR 0x0A]" using c_str_append_zero [of "l @ [CHR 0x0A]"] assms(4) by simp
  moreover have "(0 :: u32) < of_nat (length l + 1)" using unsigned_length_pos [of "length l + 1"] assms(5) by simp
  moreover have "l @ [CHR 0x0A] \<noteq> quit_line" using assms(7) by (simp add: quit_line_def)
  ultimately show ?thesis
    using r c'(1,2) assms(6) by (auto simp: serve_iter_def serve_body_def Let_def simp del: of_nat_add)
qed

section \<open>Properties\<close>

text \<open>C36: on a connection without errors \<open>read_line\<close> returns the next line of the byte stream, cut to
  \<open>length - 1\<close> bytes, however the bytes are split into reads and interrupted; the line is stored
  zero-terminated inside the array, exactly these bytes are consumed, and 0 is returned only at the
  end of the stream.\<close>

theorem read_line_next_line:
  assumes "clean c" and "2 \<le> len" and "length arr = len"
  shows "\<exists>r arr' c'. read_line len c arr = (r, arr', c') \<and> clean c' \<and>
    r = of_nat (length (line_of (len - 1) (stream c))) \<and>
    stream c' = drop (length (line_of (len - 1) (stream c))) (stream c) \<and> length arr' = len \<and>
    (stream c \<noteq> [] \<longrightarrow> take (length (line_of (len - 1) (stream c)) + 1) arr' =
       line_of (len - 1) (stream c) @ [CHR 0x00])"
proof -
  let ?l = "line_of (len - 1) (stream c)"
  obtain c' where c': "clean c'" "stream c' = drop (length ?l) (stream c)"
    "read_loop (len - 1) [] c = (if stream c = [] then Eof else Got ?l, c')"
    using read_loop_clean [OF assms(1), of "len - 1" "[]"] assms(2) by auto
  have le: "length ?l + 1 \<le> len" using length_line_of [of "len - 1" "stream c"] assms(2) by linarith
  show ?thesis
  proof (cases "stream c = []")
    case True
    moreover from True have "?l = []" using assms(2) by (cases "len - 1") auto
    ultimately show ?thesis using c' assms(3) by (simp add: read_line_def)
  next
    case False
    then show ?thesis using c' assms(3) le by (simp add: read_line_def)
  qed
qed

text \<open>The cipher keeps the length of a line and is undone by a shift of 23; other characters than
  letters, among them the newline, are sent unchanged.\<close>

theorem encrypt_decrypt:
  "map (caesar_char 23) (encrypt s) = s \<and> length (encrypt s) = length s \<and>
   (\<forall>i < length s. \<not> isalpha (s ! i) \<longrightarrow> encrypt s ! i = s ! i)"
proof (intro conjI allI impI)
  show "map (caesar_char 23) (encrypt s) = s"
    by (simp add: encrypt_def CAESAR_SHIFT_def caesar_char_inverse map_idI)
qed (auto simp: encrypt_def isalpha_def caesar_char_def)

text \<open>C37: in every interleaving of clients, where the admission and the decrement of a closing
  thread are critical sections of their own, the counter is the number of admitted threads that have
  not decremented it yet, less the number of threads that closed without having been admitted. So the
  admitted threads exceed the limit of two at most by the number of those threads, and the counter
  never exceeds the limit.\<close>

theorem admission_limit:
  assumes "server_reachable sv"
  shows "int (card (admitted sv)) \<le> MAXCLIBUF + int (closed_unadmitted sv) \<and>
    nserv sv = int (card (admitted sv)) - int (closed_unadmitted sv) \<and> nserv sv \<le> MAXCLIBUF"
  using server_reachable_inv [OF assms] by (simp add: server_inv_def)

text \<open>A third client that connects while two are served and closes without being admitted leaves the
  counter at one.\<close>

lemma waiting_client_leaves:
  "\<exists>sv. server_reachable sv \<and> admitted sv = {0, 1} \<and> closing sv = {} \<and> running sv 2 = None \<and> nserv sv = 1 \<and>
     closed_unadmitted sv = 1"
proof -
  let ?new = "\<lambda>rs. new_thread ([], rs) (replicate 256 (CHR 0x00))" and ?line = "[Bytes (''a'' @ [CHR 0x0A])]"
  let ?acc = "\<lambda>t rs sv. sv\<lparr>running := (running sv)(t := Some (?new rs))\<rparr>"
  define th where "th = snd (snd (serve_iter 0 (?new ?line)))"
  have th: "th_start th" and it: "serve_iter n (?new ?line) = (True, n + 1, th)" if "n < 2" for n
    unfolding th_def using that serve_iter_first by blast+
  let ?s2 = "?acc 1 ?line (?acc 0 ?line server_init)"
  have "server_step server_init (?acc 0 ?line server_init)"
    by (rule server_step.accept) (simp add: server_init_def)
  moreover have "server_step (?acc 0 ?line server_init) ?s2"
    by (rule server_step.accept) (simp add: server_init_def)
  ultimately have "server_reachable ?s2"
    using server_reachable.start by (meson server_reachable.step)
  let ?s3 = "?s2\<lparr>nserv := 1, running := (running ?s2)(0 := Some th)\<rparr>"
  let ?s4 = "?s3\<lparr>nserv := 2, running := (running ?s3)(1 := Some th)\<rparr>"
  let ?s5 = "?acc 2 [] ?s4"
  let ?s6 = "?s5\<lparr>nserv := 2, running := (running ?s5)(2 := Some (?new [])), closing := insert 2 (closing ?s5)\<rparr>"
  let ?s7 = "serve_close 2 (?new []) ?s6"
  have "server_step ?s2 ?s3"
    using server_step.iterate [of ?s2 0 "?new ?line" 1 th] it [of 0] by (simp add: server_init_def)
  moreover have "server_step ?s3 ?s4"
    using server_step.iterate [of ?s3 1 "?new ?line" 2 th] it [of 1] by (simp add: server_init_def)
  moreover have "server_step ?s4 ?s5"
    by (rule server_step.accept) (simp add: server_init_def)
  moreover have "server_step ?s5 ?s6"
    using server_step.leave [of ?s5 2 "?new []" 2 "?new []"] serve_iter_no_line [of 2] by (simp add: server_init_def)
  moreover have "server_step ?s6 ?s7"
    by (rule server_step.close) (simp_all add: server_init_def)
  ultimately have "server_reachable ?s7"
    using \<open>server_reachable ?s2\<close> by (meson server_reachable.step)
  moreover have "admitted ?s7 = {0, 1}"
    using th [of 0] by (auto simp: admitted_def server_init_def serve_close_def split: if_splits)
  ultimately show ?thesis
    by (intro exI [of _ ?s7]) (simp add: server_init_def serve_close_def new_thread_def)
qed

text \<open>The limit is not kept: with two clients being served, a third one that connects and closes
  without being admitted decrements the counter, and the next client is admitted as a third.\<close>

theorem admission_limit_exceeded:
  "\<exists>sv. server_reachable sv \<and> {0, 1, 2} \<subseteq> admitted sv \<and> closing sv = {} \<and> nserv sv = MAXCLIBUF"
proof -
  obtain sv where sv: "server_reachable sv" "admitted sv = {0, 1}" "closing sv = {}" "running sv 2 = None"
    "nserv sv = 1" using waiting_client_leaves by blast
  let ?sa = "sv\<lparr>running := (running sv)(2 := Some (new_thread ([], [Bytes (''a'' @ [CHR 0x0A])]) (replicate 256 (CHR 0x00))))\<rparr>"
  obtain th where th: "th_start th"
    "serve_iter 1 (new_thread ([], [Bytes (''a'' @ [CHR 0x0A])]) (replicate 256 (CHR 0x00))) = (True, 2, th)"
    using serve_iter_first [of 1] by fastforce
  let ?sb = "?sa\<lparr>nserv := 2, running := (running ?sa)(2 := Some th)\<rparr>"
  have "server_step sv ?sa" using sv(4) by (rule server_step.accept)
  moreover have "server_step ?sa ?sb"
    using server_step.iterate [of ?sa 2 _ 2 th] th(2) sv(3,5) by simp
  ultimately have "server_reachable ?sb" using sv(1) by (meson server_reachable.step)
  moreover have "admitted ?sb = {2, 0, 1}" using sv(2) th(1) by (simp add: admitted_upd)
  ultimately show ?thesis using sv(3) by (intro exI [of _ ?sb]) (auto simp: MAXCLIBUF_def)
qed

text \<open>A failing \<open>read\<close> does not end the service: \<open>read_line\<close> returns -1 as an unsigned number, the
  loop condition \<open>> 0\<close> holds, and the thread takes what the line array still holds for a new line:
  its own previous reply, which it encrypts a second time and sends, after every failure.\<close>

theorem serve_continues_on_error:
  assumes "th_conn th = ([], Failed # rs)" and "th_start th" and "c_str (th_line th) \<noteq> quit_line"
  shows "serve_iter n th =
    (True, n, th\<lparr>th_conn := ([], rs),
       th_line := encrypt (c_str (th_line th)) @ drop (length (c_str (th_line th))) (th_line th),
       th_sent := th_sent th @ encrypt (c_str (th_line th))\<rparr>)"
proof -
  have "read_line MAXLINE (th_conn th) (th_line th) = (- 1, th_line th, [], rs)"
    by (simp add: assms(1) read_line_def MAXLINE_def numeral_eq_Suc read_from_buf_def)
  moreover have "(0 :: u32) < - 1" by (simp add: word_neq_0_conv [symmetric])
  ultimately show ?thesis using assms(2,3) by (simp add: serve_iter_def serve_body_def encrypt_def)
qed

text \<open>The message the client builds from a line of input: the line and its newline up to 252
  characters, cut to 254 characters and a newline from 254 on; a line of exactly 253 characters is
  sent with a second newline, an extra empty line for the server.\<close>

theorem client_message_shape:
  assumes "CHR 0x0A \<notin> set l" and "CHR 0x00 \<notin> set l"
  shows "client_message (l @ CHR 0x0A # rest) =
      (if length l < 253 then l @ [CHR 0x0A]
       else if length l = 253 then l @ [CHR 0x0A, CHR 0x0A]
       else take 254 l @ [CHR 0x0A]) \<and>
    length (client_message (l @ CHR 0x0A # rest)) < MAXBUFFER"
  using client_message_cases [OF assms] by (auto simp: MAXBUFFER_def)

text \<open>C38: client and server together: a line of up to 252 characters other than \<open>:q\<close>, typed to the
  client and delivered in any chunks, is answered by an admitted thread with exactly its encryption,
  and the thread has consumed exactly the message.\<close>

theorem client_server_exchange:
  assumes "CHR 0x0A \<notin> set l" and "CHR 0x00 \<notin> set l" and "length l < 253" and "l \<noteq> '':q''"
    and "clean (th_conn th)" and "stream (th_conn th) = client_message (l @ CHR 0x0A # rest) @ s"
    and "th_start th \<or> n < MAXCLIBUF"
  shows "\<exists>n' th'. serve_iter n th = (True, n', th') \<and> stream (th_conn th') = s \<and>
    th_sent th' = th_sent th @ encrypt (l @ [CHR 0x0A])"
proof -
  have "stream (th_conn th) = l @ CHR 0x0A # s"
    using assms(6) client_message_cases [OF assms(1,2)] assms(3) by simp
  from serve_iter_line [OF assms(5) this assms(1,2) _ assms(7,4)] assms(3) show ?thesis by auto
qed

section \<open>Witnesses\<close>

definition hello :: string where "hello = ''Hello''"

definition thread0 :: thread_state where
  "thread0 = new_thread ([], [Bytes ''Hel'', Eintr, Bytes (''lo'' @ [CHR 0x0A])]) (replicate 256 (CHR 0x00))"

theorem read_line_next_line_witness:
  "\<exists>arr' c'. read_line 8 (''ab'', [Bytes (''c'' @ [CHR 0x0A] @ ''d'')]) (replicate 8 (CHR 0x00)) = (4, arr', c') \<and>
     stream c' = ''d''"
proof -
  let ?c = "(''ab'', [Bytes (''c'' @ [CHR 0x0A] @ ''d'')])"
  have "clean ?c" "stream ?c = ''abc'' @ [CHR 0x0A] @ ''d''"
    "line_of 7 (''abc'' @ [CHR 0x0A] @ ''d'') = ''abc'' @ [CHR 0x0A]"
    by (simp_all add: clean_def stream_def numeral_eq_Suc)
  with read_line_next_line [of ?c 8 "replicate 8 (CHR 0x00)"] show ?thesis by auto
qed

theorem encrypt_decrypt_witness: "encrypt ''a b'' ! 1 = CHR '' ''"
  using encrypt_decrypt [of "''a b''"] by (auto simp: isalpha_def)

text \<open>Three clients are admitted; the third quits with its first line, so that its increment is
  there to see until it takes the mutex again.\<close>

theorem admission_limit_witness:
  "\<exists>sv. server_reachable sv \<and> admitted sv = {0, 1, 2} \<and> closing sv = {2} \<and>
     int (card {0 :: nat, 1, 2}) \<le> MAXCLIBUF + int (closed_unadmitted sv) \<and> nserv sv = 2 \<and> nserv sv \<le> MAXCLIBUF"
proof -
  obtain sv where sv: "server_reachable sv" "admitted sv = {0, 1}" "closing sv = {}" "running sv 2 = None"
    "nserv sv = 1" using waiting_client_leaves by blast
  let ?sa = "sv\<lparr>running := (running sv)(2 := Some (new_thread ([], [Bytes quit_line]) (replicate 256 (CHR 0x00))))\<rparr>"
  obtain th where th: "th_start th"
    "serve_iter 1 (new_thread ([], [Bytes quit_line]) (replicate 256 (CHR 0x00))) = (False, 2, th)"
    using serve_iter_quit [of 1] by fastforce
  let ?sb = "?sa\<lparr>nserv := 2, running := (running ?sa)(2 := Some th), closing := insert 2 (closing ?sa)\<rparr>"
  have "server_step sv ?sa" using sv(4) by (rule server_step.accept)
  moreover have "server_step ?sa ?sb"
    using server_step.leave [of ?sa 2 _ 2 th] th(2) sv(3,5) by simp
  ultimately have r: "server_reachable ?sb" using sv(1) by (meson server_reachable.step)
  have adm: "admitted ?sb = {0, 1, 2}" using sv(2) th(1) by (simp only: admitted_upd) auto
  show ?thesis
    using admission_limit [OF r] r sv(3) unfolding adm by (intro exI [of _ ?sb]) (use adm in simp_all)
qed

theorem serve_continues_on_error_witness:
  "fst (serve_iter 1 (thread0\<lparr>th_conn := ([], [Failed]), th_start := True\<rparr>))"
proof -
  have "c_str (th_line (thread0\<lparr>th_conn := ([], [Failed]), th_start := True\<rparr>)) \<noteq> quit_line"
    by (simp add: thread0_def new_thread_def c_str_def quit_line_def)
  from serve_continues_on_error [OF _ _ this, of "[]" 1] show ?thesis by simp
qed

theorem client_message_shape_witness:
  "client_message (hello @ CHR 0x0A # []) = hello @ [CHR 0x0A]"
  using client_message_shape [of hello "[]"] by (simp add: hello_def)

theorem client_server_exchange_witness:
  "\<exists>n' th'. serve_iter 0 thread0 = (True, n', th') \<and> stream (th_conn th') = [] \<and>
     th_sent th' = th_sent thread0 @ encrypt (hello @ [CHR 0x0A])"
proof -
  have "client_message (hello @ CHR 0x0A # []) = hello @ [CHR 0x0A]"
    using client_message_cases [of hello "[]"] by (simp add: hello_def)
  then have "stream (th_conn thread0) = client_message (hello @ CHR 0x0A # []) @ []" "clean (th_conn thread0)"
    by (simp_all add: thread0_def new_thread_def stream_def clean_def hello_def)
  with client_server_exchange [of hello thread0 "[]" "[]" 0] show ?thesis
    by (simp add: hello_def MAXCLIBUF_def)
qed

section \<open>The client's loop\<close>

text \<open>The messages sent for the successive lines of the input.\<close>

fun messages :: "nat \<Rightarrow> string \<Rightarrow> string list" where
  "messages 0 inp = []"
| "messages (Suc k) inp = client_message inp # messages k (drop (length (fgets MAXBUFFER inp)) inp)"

text \<open>
  As long as the server answers with texts shorter than the buffer, the client sends one message per answer and one more,
  prints every answer, and ends with code 0 when the server closes.
\<close>

lemma client_loop_answers:
  assumes "\<forall>b \<in> set bs. b \<noteq> [] \<and> length b < MAXBUFFER"
  shows "client_loop inp (map Bytes bs) =
    Some (messages (Suc (length bs)) inp, concat (map (\<lambda>b. ''From server: '' @ c_str b) bs) @ client_closing, 0)"
  using assms
proof (induction bs arbitrary: inp)
  case (Cons b bs)
  then have b: "b \<noteq> []" "length b < MAXBUFFER" by simp_all
  have "c_str (b @ replicate (MAXBUFFER - length b) (CHR 0x00)) = c_str b"
    using b(2) by (cases "MAXBUFFER - length b") (simp_all add: c_str_def takeWhile_tail)
  then have "client_reply b = Some (''From server: '' @ c_str b)"
    using b(2) by (simp add: client_reply_def Let_def)
  with Cons b(1) show ?case by simp
qed simp

text \<open>A reply of exactly the buffer's size is printed past the end of the array.\<close>

lemma client_reply_overrun: "\<lbrakk>length b = MAXBUFFER; CHR 0x00 \<notin> set b\<rbrakk> \<Longrightarrow> client_reply b = None"
  by (simp add: client_reply_def Let_def)

end
