(* ===== verification/Cmp.thy ===== *)
theory Cmp
  imports C_Lib
begin

text \<open>
  The log evaluation of \<open>Project2/cmp/cmp.c\<close>: it reads a kernel log, picks the tracing lines of
  one scheduler, treats each as one tick of the process it names, and prints turnaround and
  waiting times of up to nine processes. The four arrays of nine entries are one list of nine
  slots. The final division by nine and its formatting are floating point and left out: the
  theorems speak about the two sums. The counters are unbounded here and of type \<open>int\<close> there;
  they count lines of the log.
\<close>

section \<open>Reading the log\<close>

text \<open>
  A line is the first character read and everything up to the next newline; with the terminating
  zero it goes into \<open>buf[500]\<close>. \<open>None\<close>: the program writes past this array. It does so for a
  line of 500 characters or more, its newline included, and for text after the last newline,
  where the inner loop stores the end-of-file value for ever.
\<close>

definition BUFSIZE :: nat where "BUFSIZE = 500"

function read_log :: "string \<Rightarrow> string list option" where
  "read_log [] = Some []"
| "read_log (c # s) =
     (case dropWhile (\<lambda>x. x \<noteq> CHR 0x0A) s of
        [] \<Rightarrow> None
      | _ # rest \<Rightarrow>
          let buf = c # takeWhile (\<lambda>x. x \<noteq> CHR 0x0A) s @ [CHR 0x0A]
          in if length buf < BUFSIZE then map_option (\<lambda>ls. buf # ls) (read_log rest) else None)"
  by pat_completeness auto
termination
proof (relation "measure length")
  fix c s x and rest :: string and buf
  assume "dropWhile (\<lambda>x. x \<noteq> CHR 0x0A) s = x # rest"
  then have "Suc (length rest) \<le> length s" by (metis length_Cons length_dropWhile_le)
  then show "(rest, c # s) \<in> measure length" by simp
qed simp

section \<open>One line\<close>

text \<open>
  What the program does with a line: skip it, count a tick of a process, or something undefined:
  read what earlier lines left behind the terminating zero, dereference a null pointer, or
  convert a number out of the range of \<open>int\<close>.
\<close>

datatype line_kind = Skip | Trace int | Undefined

definition fifo_prefix :: string where "fifo_prefix = ''FIFO tracing: ''"
definition rr_prefix :: string where "rr_prefix = ''RR tracing: ''"
definition ras_prefix :: string where "ras_prefix = ''RAS Tracing: pid=''"

text \<open>
  The string at \<open>buf + k\<close>: it ends at the first zero, which may be a character of the line or the
  terminator after it; \<open>None\<close> when \<open>k\<close> is behind the terminator.
\<close>

definition str_at :: "string \<Rightarrow> nat \<Rightarrow> string option" where
  "str_at buf k = (if k \<le> length buf then Some (c_str (drop k buf)) else None)"

definition int_range :: "int \<Rightarrow> bool" where
  "int_range i \<longleftrightarrow> - (2 ^ 31) \<le> i \<and> i < 2 ^ 31"

definition tick_of :: "string \<Rightarrow> line_kind" where
  "tick_of s = (if int_range (atoi s) then Trace (atoi s) else Undefined)"

text \<open>
  \<open>strchr\<close> finds the separator that the next statement overwrites with a zero; without one the
  program dereferences a null pointer.
\<close>

definition cut_at :: "char \<Rightarrow> string \<Rightarrow> line_kind" where
  "cut_at d s = (if d \<in> set s then tick_of (takeWhile (\<lambda>c. c \<noteq> d) s) else Undefined)"

definition classify :: "int \<Rightarrow> string \<Rightarrow> line_kind" where
  "classify choice buf =
     (if choice = 1 then
        (if strncmp_eq fifo_prefix buf then
           (case str_at buf 18 of None \<Rightarrow> Undefined | Some s \<Rightarrow> tick_of s) else Skip)
      else if choice = 2 then
        (if strncmp_eq rr_prefix buf then
           (case str_at buf 16 of None \<Rightarrow> Undefined | Some s \<Rightarrow> cut_at (CHR '','') s) else Skip)
      else if choice = 3 then
        (if strncmp_eq ras_prefix buf then
           (case str_at buf 17 of None \<Rightarrow> Undefined | Some s \<Rightarrow> cut_at (CHR '' '') s) else Skip)
      else Skip)"

record slot =
  marked :: bool
  s_pid :: int
  start_time :: int
  end_time :: int
  running_cycle :: int

record cmp_state =
  cycle :: int
  slots :: "slot list"
  printed :: "(int \<times> int) list"

definition tick_slot :: "int \<Rightarrow> slot \<Rightarrow> slot" where
  "tick_slot cyc s = s\<lparr>end_time := cyc + 1, running_cycle := running_cycle s + 1\<rparr>"

text \<open>The two searching loops: a marked slot with this process, then a free slot.\<close>

fun bump :: "int \<Rightarrow> int \<Rightarrow> slot list \<Rightarrow> slot list option" where
  "bump x cyc [] = None"
| "bump x cyc (s # ss) =
     (if marked s \<and> s_pid s = x then Some (tick_slot cyc s # ss) else map_option (Cons s) (bump x cyc ss))"

fun claim :: "int \<Rightarrow> int \<Rightarrow> slot list \<Rightarrow> slot list option" where
  "claim x cyc [] = None"
| "claim x cyc (s # ss) =
     (if \<not> marked s then Some ((tick_slot cyc s)\<lparr>s_pid := x, marked := True\<rparr> # ss)
      else map_option (Cons s) (claim x cyc ss))"

definition cmp_tick :: "int \<Rightarrow> cmp_state \<Rightarrow> cmp_state" where
  "cmp_tick x st =
     st\<lparr>slots := (case bump x (cycle st) (slots st) of
                    Some ss \<Rightarrow> ss
                  | None \<Rightarrow> (case claim x (cycle st) (slots st) of Some ss \<Rightarrow> ss | None \<Rightarrow> slots st)),
        printed := printed st @ [(cycle st, x)],
        cycle := cycle st + 1\<rparr>"

definition cmp_line :: "int \<Rightarrow> string \<Rightarrow> cmp_state \<Rightarrow> cmp_state option" where
  "cmp_line choice buf st =
     (case classify choice buf of Skip \<Rightarrow> Some st | Trace x \<Rightarrow> Some (cmp_tick x st) | Undefined \<Rightarrow> None)"

fun cmp_lines :: "int \<Rightarrow> string list \<Rightarrow> cmp_state \<Rightarrow> cmp_state option" where
  "cmp_lines choice [] st = Some st"
| "cmp_lines choice (l # ls) st = Option.bind (cmp_line choice l st) (cmp_lines choice ls)"

definition slot_init :: slot where
  "slot_init = \<lparr>marked = False, s_pid = 0, start_time = 0, end_time = 0, running_cycle = 0\<rparr>"

definition cmp_init :: cmp_state where
  "cmp_init = \<lparr>cycle = 0, slots = replicate 9 slot_init, printed = []\<rparr>"

text \<open>The sums that \<open>main\<close> divides by nine: turnaround and waiting time.\<close>

definition avt_sum :: "cmp_state \<Rightarrow> int" where
  "avt_sum st = sum_list (map (\<lambda>s. end_time s - start_time s) (slots st))"

definition awt_sum :: "cmp_state \<Rightarrow> int" where
  "awt_sum st = avt_sum st - sum_list (map running_cycle (slots st))"

text \<open>\<open>None\<close>: the run has undefined behaviour, on reading the log or on a line of it.\<close>

definition cmp_main :: "int \<Rightarrow> string \<Rightarrow> cmp_state option" where
  "cmp_main choice txt = Option.bind (read_log txt) (\<lambda>ls. cmp_lines choice ls cmp_init)"

end
