(* ===== verification/Cmp_Proofs.thy ===== *)
theory Cmp_Proofs
  imports Cmp
begin

text \<open>
  The evaluation computes, for a log with at most nine traced processes, the number of ticks and
  the last tick of each process, so that the waiting time it reports is turnaround less running
  time.
\<close>

section \<open>Slots\<close>

text \<open>The processes of a run in the order of their first tick, and the end of the last tick of one.\<close>

fun seen :: "int list \<Rightarrow> int list" where
  "seen [] = []"
| "seen (p # ps) = p # filter (\<lambda>q. q \<noteq> p) (seen ps)"

definition last_end :: "int list \<Rightarrow> int \<Rightarrow> int" where
  "last_end ps p = int (length (dropWhile (\<lambda>q. q \<noteq> p) (rev ps)))"

definition slot_of :: "int list \<Rightarrow> int \<Rightarrow> slot" where
  "slot_of ps p = \<lparr>marked = True, s_pid = p, start_time = 0, end_time = last_end ps p,
     running_cycle = int (count_list ps p)\<rparr>"

lemma seen_snoc: "seen (ps @ [p]) = (if p \<in> set ps then seen ps else seen ps @ [p])"
  by (induction ps) auto

lemma set_seen [simp]: "set (seen ps) = set ps"
  by (induction ps) auto

lemma distinct_seen [simp]: "distinct (seen ps)"
  by (induction ps) auto

lemma last_end_snoc: "last_end (ps @ [x]) p = (if x = p then int (length ps) + 1 else last_end ps p)"
  by (simp add: last_end_def)

lemma slot_of_snoc_other: "p \<noteq> x \<Longrightarrow> slot_of (ps @ [x]) p = slot_of ps p"
  by (simp add: slot_of_def last_end_snoc)

lemma slot_of_snoc_same:
  "slot_of (ps @ [x]) x = (tick_slot (int (length ps)) (slot_of ps x))"
  by (simp add: slot_of_def last_end_snoc tick_slot_def)

lemma bump_unmarked: "\<forall>s \<in> set ss. \<not> marked s \<Longrightarrow> bump x cyc ss = None"
  by (induction ss) auto

lemma bump_slots:
  assumes "\<forall>s \<in> set ys. \<not> marked s"
  shows "distinct xs \<Longrightarrow> bump x cyc (map (slot_of ps) xs @ ys) =
    (if x \<in> set xs then Some (map (\<lambda>p. if p = x then tick_slot cyc (slot_of ps x) else slot_of ps p) xs @ ys) else None)"
proof (induction xs)
  case Nil
  then show ?case using bump_unmarked [OF assms] by simp
next
  case (Cons a xs)
  have "map (\<lambda>p. if p = x then tick_slot cyc (slot_of ps x) else slot_of ps p) xs = map (slot_of ps) xs"
    if "x \<notin> set xs" using that by auto
  with Cons show ?case by (auto simp: slot_of_def)
qed

lemma claim_slots:
  "\<not> marked s \<Longrightarrow> claim x cyc (map (slot_of ps) xs @ s # ys) =
     Some (map (slot_of ps) xs @ (tick_slot cyc s)\<lparr>s_pid := x, marked := True\<rparr> # ys)"
  by (induction xs) (auto simp: slot_of_def)

lemma last_end_notin: "p \<notin> set ps \<Longrightarrow> last_end ps p = 0"
  by (auto simp: last_end_def)

lemma cmp_tick_frame [simp]:
  "cycle (cmp_tick x st) = cycle st + 1" "printed (cmp_tick x st) = printed st @ [(cycle st, x)]"
  by (simp_all add: cmp_tick_def)

lemma cmp_tick_fold:
  "length (seen ps) \<le> 9 \<Longrightarrow>
   fold cmp_tick ps cmp_init =
     \<lparr>cycle = int (length ps), slots = map (slot_of ps) (seen ps) @ replicate (9 - length (seen ps)) slot_init,
      printed = zip (map int [0..<length ps]) ps\<rparr>"
proof (induction ps rule: rev_induct)
  case Nil
  show ?case by (simp add: cmp_init_def)
next
  case (snoc x ps)
  let ?ys = "replicate (9 - length (seen ps)) slot_init"
  have le: "length (seen ps) \<le> 9" using snoc.prems by (simp add: seen_snoc split: if_splits)
  note IH = snoc.IH [OF le]
  have un: "\<forall>s \<in> set ?ys. \<not> marked s" by (simp add: slot_init_def)
  note b = bump_slots [OF un distinct_seen, of x "int (length ps)"]
  have new: "slots (cmp_tick x (fold cmp_tick ps cmp_init)) =
      map (slot_of (ps @ [x])) (seen (ps @ [x])) @ replicate (9 - length (seen (ps @ [x]))) slot_init"
  proof (cases "x \<in> set ps")
    case True
    have "map (\<lambda>p. if p = x then tick_slot (int (length ps)) (slot_of ps x) else slot_of ps p) (seen ps) =
        map (slot_of (ps @ [x])) (seen ps)"
      by (auto simp: slot_of_snoc_same slot_of_snoc_other)
    with True b show ?thesis by (simp add: cmp_tick_def IH seen_snoc)
  next
    case False
    then have "length (seen ps) < 9" using snoc.prems by (simp add: seen_snoc)
    then obtain k where k: "9 - length (seen ps) = Suc k" "9 - Suc (length (seen ps)) = k"
      by (cases "9 - length (seen ps)") auto
    have "slot_of (ps @ [x]) x = (tick_slot (int (length ps)) slot_init)\<lparr>s_pid := x, marked := True\<rparr>"
      using False by (simp add: slot_of_def last_end_snoc tick_slot_def slot_init_def)
    moreover have "map (slot_of (ps @ [x])) (seen ps) = map (slot_of ps) (seen ps)"
      using False by (auto intro!: slot_of_snoc_other)
    moreover have "claim x (int (length ps)) (map (slot_of ps) (seen ps) @ slot_init # replicate k slot_init) =
        Some (map (slot_of ps) (seen ps) @
          (tick_slot (int (length ps)) slot_init)\<lparr>s_pid := x, marked := True\<rparr> # replicate k slot_init)"
      by (rule claim_slots) (simp add: slot_init_def)
    ultimately show ?thesis using False b k by (simp add: cmp_tick_def IH seen_snoc)
  qed
  have "fold cmp_tick (ps @ [x]) cmp_init = cmp_tick x (fold cmp_tick ps cmp_init)" by simp
  then show ?case by (rule ssubst, intro cmp_state.equality) (use new IH in simp_all)
qed

lemma int_sum_list: "int (sum_list (map f xs)) = sum_list (map (\<lambda>x. int (f x)) xs)"
  by (induction xs) simp_all

lemma count_le_last_end: "int (count_list ps p) \<le> last_end ps p"
proof -
  have "count_list xs p \<le> length (dropWhile (\<lambda>q. q \<noteq> p) xs)" for xs
  proof (induction xs)
    case (Cons a xs)
    then show ?case using count_le_length [of xs p] by auto
  qed simp
  from this [of "rev ps"] show ?thesis by (simp add: last_end_def)
qed

lemma sum_count_seen: "sum_list (map (\<lambda>p. int (count_list ps p)) (seen ps)) = int (length ps)"
proof -
  have "sum_list (map (count_list ps) (seen ps)) = length ps"
    using sum_count_set [of ps "set ps"] by (simp add: sum_list_distinct_conv_sum_set)
  then show ?thesis by (simp add: int_sum_list [symmetric])
qed

section \<open>Lines\<close>

lemma cmp_lines_traces:
  "map (classify choice) ls = map Trace ps \<Longrightarrow> cmp_lines choice ls st = Some (fold cmp_tick ps st)"
proof (induction ls arbitrary: ps st)
  case (Cons l ls)
  then obtain p ps' where "ps = p # ps'" "classify choice l = Trace p" "map (classify choice) ls = map Trace ps'"
    by (cases ps) auto
  with Cons.IH [of ps'] show ?case by (simp add: cmp_line_def)
qed simp

text \<open>Complete non-empty lines that fit in the buffer are read one by one.\<close>

definition log_line :: "string \<Rightarrow> bool" where
  "log_line l \<longleftrightarrow> (\<exists>c s. l = c # s @ [CHR 0x0A] \<and> CHR 0x0A \<notin> set s) \<and> length l < BUFSIZE"

lemma takeWhile_nl:
  "CHR 0x0A \<notin> set s \<Longrightarrow> takeWhile (\<lambda>x. x \<noteq> CHR 0x0A) (s @ CHR 0x0A # r) = s \<and>
     dropWhile (\<lambda>x. x \<noteq> CHR 0x0A) (s @ CHR 0x0A # r) = CHR 0x0A # r"
  by (induction s) auto

lemma read_log_lines: "\<forall>l \<in> set ls. log_line l \<Longrightarrow> read_log (concat ls) = Some ls"
proof (induction ls)
  case (Cons l ls)
  then obtain c s where "l = c # s @ [CHR 0x0A]" "CHR 0x0A \<notin> set s" "length l < BUFSIZE"
    by (auto simp: log_line_def)
  with Cons show ?case by (simp add: takeWhile_nl)
qed simp

lemma show_int_chars: "c \<in> set (show_int i) \<Longrightarrow> isdigit c \<or> c = CHR ''-''"
  using show_nat_digits by (auto simp: show_int_def list_all_iff split: if_splits)

lemma show_int_no_special:
  "CHR 0x0A \<notin> set (show_int i)" "CHR '' '' \<notin> set (show_int i)" "CHR '','' \<notin> set (show_int i)"
  using show_int_chars [of "CHR 0x0A" i] show_int_chars [of "CHR '' ''" i] show_int_chars [of "CHR '',''" i]
  by (auto simp: isdigit_def)

lemma c_str_id: "CHR 0x00 \<notin> set s \<Longrightarrow> c_str s = s"
  by (induction s) (auto simp: c_str_def)

lemma c_str_prefix: "CHR 0x00 \<notin> set s \<Longrightarrow> c_str (s @ r) = s @ c_str r"
  by (induction s) (auto simp: c_str_def)

lemma show_int_no_zero: "CHR 0x00 \<notin> set (show_int i)"
  using show_int_chars [of "CHR 0x00" i] by (auto simp: isdigit_def)

lemma tick_of_number:
  "\<lbrakk>int_range p; r = [] \<or> \<not> isdigit (hd r)\<rbrakk> \<Longrightarrow> tick_of (show_int p @ r) = Trace p"
  using atoi_show_int [of r p] by (cases r) (auto simp: tick_of_def)

lemma classify_fifo:
  assumes "int_range p"
  shows "classify 1 (''FIFO tracing: pid='' @ show_int p @ [CHR 0x0A]) = Trace p"
proof -
  have "c_str (show_int p @ [CHR 0x0A]) = show_int p @ [CHR 0x0A]"
    using show_int_no_zero by (intro c_str_id) simp
  then show ?thesis using tick_of_number [OF assms, of "[CHR 0x0A]"]
    by (simp add: classify_def fifo_prefix_def str_at_def numeral_eq_Suc isdigit_def)
qed

lemma classify_rr:
  assumes "int_range p"
  shows "classify 2 (''RR tracing: pid='' @ show_int p @ CHR '','' # r) = Trace p"
proof -
  have "c_str (show_int p @ CHR '','' # r) = show_int p @ CHR '','' # c_str r"
    using c_str_prefix [of "show_int p @ '',''" r] show_int_no_zero by simp
  moreover have "takeWhile (\<lambda>c. c \<noteq> CHR '','') (show_int p @ CHR '','' # c_str r) = show_int p"
    using show_int_no_special(3) [of p] by (simp add: takeWhile_tail) (metis takeWhile_eq_all_conv)
  ultimately show ?thesis using tick_of_number [OF assms, of "[]"]
    by (simp add: classify_def rr_prefix_def cut_at_def str_at_def numeral_eq_Suc)
qed

lemma classify_ras:
  assumes "int_range p"
  shows "classify 3 (''RAS Tracing: pid='' @ show_int p @ '', '' @ r) = Trace p"
proof -
  have "c_str (show_int p @ '', '' @ r) = (show_int p @ '','') @ CHR '' '' # c_str r"
    using c_str_prefix [of "show_int p @ '', ''" r] show_int_no_zero by simp
  moreover have "takeWhile (\<lambda>c. c \<noteq> CHR '' '') ((show_int p @ '','') @ CHR '' '' # c_str r) = show_int p @ '',''"
    using show_int_no_special(2) [of p] by (subst takeWhile_tail) (auto simp: takeWhile_append)
  ultimately show ?thesis using tick_of_number [OF assms, of "'',''"]
    by (simp add: classify_def ras_prefix_def cut_at_def str_at_def numeral_eq_Suc isdigit_def)
qed

section \<open>Properties\<close>

text \<open>C39: for a log whose lines are ticks of at most nine processes, each line non-empty, ended by a
  newline, short enough for the buffer (fewer than 500 characters with the newline) and classified as a
  tick, the program reports for each process the number of its ticks and the end of its last
  one, prints one line per tick, and the sum of the waiting times is the sum of the end times less
  the number of ticks, never negative. With fewer than \<open>2 ^ 31\<close> ticks the counters, all between 0
  and the number of ticks, fit in an \<open>int\<close>.\<close>

theorem cmp_reports_times:
  assumes "\<forall>l \<in> set ls. log_line l" and "map (classify choice) ls = map Trace ps" and "length (seen ps) \<le> 9"
    and "length ps < 2 ^ 31"
  shows "\<exists>st. cmp_main choice (concat ls) = Some st \<and>
    (\<forall>p \<in> set ps. \<lparr>marked = True, s_pid = p, start_time = 0, end_time = last_end ps p,
        running_cycle = int (count_list ps p)\<rparr> \<in> set (slots st)) \<and>
    printed st = zip (map int [0..<length ps]) ps \<and>
    awt_sum st = sum_list (map (last_end ps) (seen ps)) - int (length ps) \<and> 0 \<le> awt_sum st \<and>
    int_range (cycle st) \<and> (\<forall>s \<in> set (slots st). int_range (end_time s) \<and> int_range (running_cycle s))"
proof (intro exI conjI)
  let ?st = "fold cmp_tick ps cmp_init"
  show "cmp_main choice (concat ls) = Some ?st"
    using read_log_lines [OF assms(1)] cmp_lines_traces [OF assms(2)] by (simp add: cmp_main_def)
  have zero: "end_time slot_init = 0" "start_time slot_init = 0" "running_cycle slot_init = 0"
    by (simp_all add: slot_init_def)
  have run: "map (running_cycle \<circ> slot_of ps) (seen ps) = map (\<lambda>p. int (count_list ps p)) (seen ps)"
    "map ((\<lambda>s. end_time s - start_time s) \<circ> slot_of ps) (seen ps) = map (last_end ps) (seen ps)"
    by (simp_all add: slot_of_def)
  show w: "awt_sum ?st = sum_list (map (last_end ps) (seen ps)) - int (length ps)"
    by (simp add: cmp_tick_fold [OF assms(3)] awt_sum_def avt_sum_def zero run sum_count_seen sum_list_replicate)
  show "0 \<le> awt_sum ?st"
    unfolding w sum_count_seen [symmetric] using count_le_last_end by (simp add: sum_list_mono)
  show "\<forall>p \<in> set ps. \<lparr>marked = True, s_pid = p, start_time = 0, end_time = last_end ps p,
        running_cycle = int (count_list ps p)\<rparr> \<in> set (slots ?st)"
    by (auto simp: cmp_tick_fold [OF assms(3)] slot_of_def)
  have fits: "int_range i" if "0 \<le> i" "i \<le> int (length ps)" for i
    using that assms(4) by (simp add: int_range_def)
  show "int_range (cycle ?st)" using assms(4) by (simp add: cmp_tick_fold [OF assms(3)] int_range_def)
  have bounds: "0 \<le> int (count_list ps p)" "int (count_list ps p) \<le> int (length ps)"
    "0 \<le> last_end ps p" "last_end ps p \<le> int (length ps)" for p
    using count_le_length [of ps p] length_dropWhile_le [of "\<lambda>q. q \<noteq> p" "rev ps"] by (simp_all add: last_end_def)
  have "int_range (end_time (slot_of ps p)) \<and> int_range (running_cycle (slot_of ps p))" for p
    using fits bounds by (simp add: slot_of_def)
  moreover have "int_range (end_time slot_init) \<and> int_range (running_cycle slot_init)"
    by (simp add: zero int_range_def)
  ultimately show "\<forall>s \<in> set (slots ?st). int_range (end_time s) \<and> int_range (running_cycle s)"
    by (auto simp: cmp_tick_fold [OF assms(3)])
qed (simp add: cmp_tick_fold [OF assms(3)])

text \<open>A blank line swallows the line after it: the first character is read before the newline is
  looked for, so the tick on the next line is not counted.\<close>

theorem cmp_blank_line_loses_tick:
  assumes "log_line l" and "hd l \<noteq> CHR 0x0A" and "length l + 1 < BUFSIZE"
  shows "cmp_main choice (CHR 0x0A # l) = Some cmp_init"
proof -
  obtain c s where l: "l = c # s @ [CHR 0x0A]" "CHR 0x0A \<notin> set s" using assms by (auto simp: log_line_def)
  show ?thesis using l assms(2,3) takeWhile_nl [of "c # s" "[]"]
    by (simp add: cmp_main_def cmp_line_def classify_def fifo_prefix_def rr_prefix_def ras_prefix_def)
qed

text \<open>A line that does not fit in the buffer with its terminator makes the program write past the
  buffer.\<close>

theorem cmp_long_line_overflows:
  assumes "CHR 0x0A \<notin> set s" and "BUFSIZE \<le> length s + 2"
  shows "cmp_main choice (c # s @ CHR 0x0A # rest) = None"
  using assms by (simp add: cmp_main_def takeWhile_nl Let_def)

section \<open>Witnesses\<close>

definition log0 :: "string list" where
  "log0 = map (\<lambda>p. ''FIFO tracing: pid='' @ show_int p @ [CHR 0x0A]) [370, 371, 370]"

lemma log0_lines: "\<forall>l \<in> set log0. log_line l"
proof -
  have "length (show_int 370) = 3" "length (show_int 371) = 3" by code_simp+
  then show ?thesis using show_int_no_special(1) by (auto simp: log0_def log_line_def BUFSIZE_def)
qed

theorem cmp_reports_times_witness:
  "\<exists>st. cmp_main 1 (concat log0) = Some st \<and> awt_sum st = 2 \<and> printed st = [(0, 370), (1, 371), (2, 370)]"
proof -
  have "map (classify 1) log0 = map Trace [370, 371, 370]"
    using classify_fifo [of 370] classify_fifo [of 371] by (simp add: log0_def int_range_def)
  from cmp_reports_times [OF log0_lines this] show ?thesis by (auto simp: last_end_def)
qed

theorem cmp_blank_line_loses_tick_witness:
  "cmp_main 1 (CHR 0x0A # ''FIFO tracing: pid=7'' @ [CHR 0x0A]) = Some cmp_init"
  using cmp_blank_line_loses_tick [of "''FIFO tracing: pid=7'' @ [CHR 0x0A]" 1] by (simp add: log_line_def BUFSIZE_def)

theorem cmp_long_line_overflows_witness:
  "cmp_main 1 (CHR ''x'' # replicate 498 (CHR ''x'') @ CHR 0x0A # []) = None"
  by (rule cmp_long_line_overflows) (simp_all add: BUFSIZE_def)

end
