(* ===== verification/Syscall_Modules.thy ===== *)
theory Syscall_Modules
  imports Prelude
begin

text \<open>
  The six kernel modules that install system calls by writing the system call table:
  \<open>sys_ptree.c\<close> (356), \<open>start_trace.c\<close> (361), \<open>stop_trace.c\<close> (362), \<open>get_trace.c\<close> (363),
  \<open>rr_fifo_trace.c\<close> (364) and \<open>set_wcounts.c\<close> (365). Each keeps the replaced entry in a static
  variable and puts it back when it is unloaded. The table is a function from numbers to
  handler addresses; a module function takes the address of its handler, the table and its
  static variable.
\<close>

type_synonym sys_table = "nat \<Rightarrow> ulong"

text \<open>A module's view: the table and its own \<open>oldcall\<close>.\<close>

type_synonym mod_state = "sys_table \<times> ulong"

section \<open>The modules\<close>

definition ptree_init :: "ulong \<Rightarrow> mod_state \<Rightarrow> int \<times> mod_state" where
  "ptree_init handler ms = (case ms of (tbl, old) \<Rightarrow> (0, tbl(356 := handler), tbl 356))"

definition ptree_exit :: "mod_state \<Rightarrow> mod_state" where
  "ptree_exit ms = (case ms of (tbl, old) \<Rightarrow> (tbl(356 := old), old))"

text \<open>
  This module also looks up two kernel functions and fails to load when one is missing (a zero
  address), after it has written the table.
\<close>

definition start_trace_init :: "(string \<Rightarrow> ulong) \<Rightarrow> ulong \<Rightarrow> mod_state \<Rightarrow> int \<times> mod_state" where
  "start_trace_init kallsyms_lookup_name handler ms =
     (case ms of (tbl, old) \<Rightarrow>
        let ms' = (tbl(361 := handler), tbl 361)
        in if kallsyms_lookup_name ''mprotect_fixup'' = 0 then (- ENOSYS, ms')
           else if kallsyms_lookup_name ''security_file_mprotect'' = 0 then (- ENOSYS, ms')
           else (0, ms'))"

definition start_trace_exit :: "mod_state \<Rightarrow> mod_state" where
  "start_trace_exit ms = (case ms of (tbl, old) \<Rightarrow> (tbl(361 := old), old))"

definition stop_trace_init :: "ulong \<Rightarrow> mod_state \<Rightarrow> int \<times> mod_state" where
  "stop_trace_init handler ms = (case ms of (tbl, old) \<Rightarrow> (0, tbl(362 := handler), tbl 362))"

definition stop_trace_exit :: "mod_state \<Rightarrow> mod_state" where
  "stop_trace_exit ms = (case ms of (tbl, old) \<Rightarrow> (tbl(362 := old), old))"

definition get_trace_init :: "ulong \<Rightarrow> mod_state \<Rightarrow> int \<times> mod_state" where
  "get_trace_init handler ms = (case ms of (tbl, old) \<Rightarrow> (0, tbl(363 := handler), tbl 363))"

definition get_trace_exit :: "mod_state \<Rightarrow> mod_state" where
  "get_trace_exit ms = (case ms of (tbl, old) \<Rightarrow> (tbl(363 := old), old))"

definition rr_fifo_trace_init :: "ulong \<Rightarrow> mod_state \<Rightarrow> int \<times> mod_state" where
  "rr_fifo_trace_init handler ms = (case ms of (tbl, old) \<Rightarrow> (0, tbl(364 := handler), tbl 364))"

definition rr_fifo_trace_exit :: "mod_state \<Rightarrow> mod_state" where
  "rr_fifo_trace_exit ms = (case ms of (tbl, old) \<Rightarrow> (tbl(364 := old), old))"

definition set_wcounts_init :: "ulong \<Rightarrow> mod_state \<Rightarrow> int \<times> mod_state" where
  "set_wcounts_init handler ms = (case ms of (tbl, old) \<Rightarrow> (0, tbl(365 := handler), tbl 365))"

definition set_wcounts_exit :: "mod_state \<Rightarrow> mod_state" where
  "set_wcounts_exit ms = (case ms of (tbl, old) \<Rightarrow> (tbl(365 := old), old))"

section \<open>The contract of a module\<close>

locale syscall_module =
  fixes nr :: nat
    and load :: "ulong \<Rightarrow> mod_state \<Rightarrow> int \<times> mod_state"
    and unload :: "mod_state \<Rightarrow> mod_state"
  assumes load_ok: "load h (tbl, old) = (0, tbl(nr := h), tbl nr)"
    and unload_ok: "unload (tbl, old) = (tbl(nr := old), old)"
begin

text \<open>Loading and unloading gives back the table, whatever else was installed meanwhile.\<close>

lemma restores: "fst (unload (snd (load h (tbl, old)))) = tbl"
  by (simp add: load_ok unload_ok)

lemma installs: "fst (snd (load h (tbl, old))) n = (if n = nr then h else tbl n)"
  by (simp add: load_ok)

lemma unload_other: "n \<noteq> nr \<Longrightarrow> fst (unload (tbl, old)) n = tbl n"
  by (simp add: unload_ok)

end

text \<open>Two modules with different numbers can be unloaded in either order.\<close>

locale two_modules = a: syscall_module nr\<^sub>1 load\<^sub>1 unload\<^sub>1 + b: syscall_module nr\<^sub>2 load\<^sub>2 unload\<^sub>2
  for nr\<^sub>1 load\<^sub>1 unload\<^sub>1 nr\<^sub>2 load\<^sub>2 unload\<^sub>2 +
  assumes different: "nr\<^sub>1 \<noteq> nr\<^sub>2"
begin

lemma unload_in_load_order:
  assumes "snd (load\<^sub>1 h (tbl, o1)) = (t1, old1)" and "snd (load\<^sub>2 g (t1, o2)) = (t2, old2)"
  shows "fst (unload\<^sub>2 (fst (unload\<^sub>1 (t2, old1)), old2)) = tbl"
  using assms different by (auto simp: a.load_ok b.load_ok a.unload_ok b.unload_ok)

lemma unload_in_reverse_order:
  assumes "snd (load\<^sub>1 h (tbl, o1)) = (t1, old1)" and "snd (load\<^sub>2 g (t1, o2)) = (t2, old2)"
  shows "fst (unload\<^sub>1 (fst (unload\<^sub>2 (t2, old2)), old1)) = tbl"
  using assms different by (auto simp: a.load_ok b.load_ok a.unload_ok b.unload_ok)

end

interpretation ptree_mod: syscall_module 356 ptree_init ptree_exit
  by unfold_locales (simp_all add: ptree_init_def ptree_exit_def)

interpretation stop_mod: syscall_module 362 stop_trace_init stop_trace_exit
  by unfold_locales (simp_all add: stop_trace_init_def stop_trace_exit_def)

interpretation get_mod: syscall_module 363 get_trace_init get_trace_exit
  by unfold_locales (simp_all add: get_trace_init_def get_trace_exit_def)

interpretation rr_fifo_mod: syscall_module 364 rr_fifo_trace_init rr_fifo_trace_exit
  by unfold_locales (simp_all add: rr_fifo_trace_init_def rr_fifo_trace_exit_def)

interpretation set_wcounts_mod: syscall_module 365 set_wcounts_init set_wcounts_exit
  by unfold_locales (simp_all add: set_wcounts_init_def set_wcounts_exit_def)

text \<open>With both symbols present the start module meets the contract too.\<close>

interpretation start_mod: syscall_module 361 "start_trace_init (\<lambda>_. 1)" start_trace_exit
  by unfold_locales (simp_all add: start_trace_init_def start_trace_exit_def)

interpretation stop_get: two_modules 362 stop_trace_init stop_trace_exit 363 get_trace_init get_trace_exit
  by unfold_locales simp

section \<open>Loading several modules\<close>

datatype sysmod = Ptree_mod | Start_mod | Stop_mod | Get_mod | Rr_fifo_mod | Set_wcounts_mod

fun mod_init :: "(string \<Rightarrow> ulong) \<Rightarrow> sysmod \<Rightarrow> ulong \<Rightarrow> mod_state \<Rightarrow> int \<times> mod_state" where
  "mod_init ks Ptree_mod = ptree_init"
| "mod_init ks Start_mod = start_trace_init ks"
| "mod_init ks Stop_mod = stop_trace_init"
| "mod_init ks Get_mod = get_trace_init"
| "mod_init ks Rr_fifo_mod = rr_fifo_trace_init"
| "mod_init ks Set_wcounts_mod = set_wcounts_init"

fun mod_exit :: "sysmod \<Rightarrow> mod_state \<Rightarrow> mod_state" where
  "mod_exit Ptree_mod = ptree_exit"
| "mod_exit Start_mod = start_trace_exit"
| "mod_exit Stop_mod = stop_trace_exit"
| "mod_exit Get_mod = get_trace_exit"
| "mod_exit Rr_fifo_mod = rr_fifo_trace_exit"
| "mod_exit Set_wcounts_mod = set_wcounts_exit"

fun mod_nr :: "sysmod \<Rightarrow> nat" where
  "mod_nr Ptree_mod = 356"
| "mod_nr Start_mod = 361"
| "mod_nr Stop_mod = 362"
| "mod_nr Get_mod = 363"
| "mod_nr Rr_fifo_mod = 364"
| "mod_nr Set_wcounts_mod = 365"

text \<open>
  The table with the static variables of all modules, and running the load or unload function of
  one of them on it. The kernel's module loader is not part of the repository: a module whose load
  function returns anything but 0 is not loaded, and only loaded modules can be unloaded. So
  \<open>load_all\<close> runs the load functions of a list of modules and collects those that are loaded.
\<close>

type_synonym kernel_mods = "sys_table \<times> (sysmod \<Rightarrow> ulong)"

definition run_init :: "(string \<Rightarrow> ulong) \<Rightarrow> (sysmod \<Rightarrow> ulong) \<Rightarrow> sysmod \<Rightarrow> kernel_mods \<Rightarrow> int \<times> kernel_mods" where
  "run_init ks handler m k = (case k of (tbl, olds) \<Rightarrow>
     case mod_init ks m (handler m) (tbl, olds m) of (r, tbl', old') \<Rightarrow> (r, tbl', olds(m := old')))"

definition run_exit :: "sysmod \<Rightarrow> kernel_mods \<Rightarrow> kernel_mods" where
  "run_exit m k = (case k of (tbl, olds) \<Rightarrow>
     case mod_exit m (tbl, olds m) of (tbl', old') \<Rightarrow> (tbl', olds(m := old')))"

fun load_all :: "(string \<Rightarrow> ulong) \<Rightarrow> (sysmod \<Rightarrow> ulong) \<Rightarrow> sysmod list \<Rightarrow> kernel_mods \<Rightarrow> sysmod list \<times> kernel_mods" where
  "load_all ks handler [] k = ([], k)"
| "load_all ks handler (m # ms) k =
     (let (r, k1) = run_init ks handler m k; (loaded, k2) = load_all ks handler ms k1
      in (if r = 0 then m # loaded else loaded, k2))"

lemma mod_nr_inj: "mod_nr m = mod_nr m' \<Longrightarrow> m = m'"
  by (cases m; cases m') simp_all

lemma mod_init_state: "snd (mod_init ks m h (tbl, old)) = (tbl(mod_nr m := h), tbl (mod_nr m))"
  by (cases m) (simp_all add: ptree_mod.load_ok stop_mod.load_ok get_mod.load_ok rr_fifo_mod.load_ok
      set_wcounts_mod.load_ok start_trace_init_def Let_def)

lemma mod_exit_state: "mod_exit m (tbl, old) = (tbl(mod_nr m := old), old)"
  by (cases m) (simp_all add: ptree_mod.unload_ok stop_mod.unload_ok get_mod.unload_ok
      rr_fifo_mod.unload_ok set_wcounts_mod.unload_ok start_mod.unload_ok)

text \<open>Only the tracing module can fail to load.\<close>

definition symbols_found :: "(string \<Rightarrow> ulong) \<Rightarrow> bool" where
  "symbols_found ks \<longleftrightarrow> ks ''mprotect_fixup'' \<noteq> 0 \<and> ks ''security_file_mprotect'' \<noteq> 0"

lemma mod_init_result:
  "fst (mod_init ks m h (tbl, old)) = (if m = Start_mod \<and> \<not> symbols_found ks then - ENOSYS else 0)"
  by (cases m) (auto simp: ptree_mod.load_ok stop_mod.load_ok get_mod.load_ok rr_fifo_mod.load_ok
      set_wcounts_mod.load_ok start_trace_init_def symbols_found_def Let_def)

lemma run_init_eq:
  "run_init ks h m (tbl, olds) =
     (if m = Start_mod \<and> \<not> symbols_found ks then - ENOSYS else 0,
      tbl(mod_nr m := h m), olds(m := tbl (mod_nr m)))"
  using mod_init_state [of ks m "h m" tbl "olds m"] mod_init_result [of ks m "h m" tbl "olds m"]
  by (cases "mod_init ks m (h m) (tbl, olds m)") (auto simp: run_init_def)

lemma run_exit_eq: "run_exit m (tbl, olds) = (tbl(mod_nr m := olds m), olds)"
  by (simp add: run_exit_def mod_exit_state)

lemma load_all_eq:
  "distinct ms \<Longrightarrow> load_all ks h ms (tbl, olds) =
     (filter (\<lambda>m. m = Start_mod \<longrightarrow> symbols_found ks) ms,
      (\<lambda>n. if \<exists>m \<in> set ms. mod_nr m = n then h (THE m. mod_nr m = n) else tbl n),
      (\<lambda>m. if m \<in> set ms then tbl (mod_nr m) else olds m))"
proof (induction ms arbitrary: tbl olds)
  case (Cons m ms)
  have the: "(THE m'. mod_nr m' = mod_nr m) = m" by (auto dest: mod_nr_inj)
  with Cons the show ?case by (auto simp: run_init_eq fun_eq_iff dest: mod_nr_inj)
qed simp

lemma fold_run_exit:
  "fold run_exit ms (tbl, olds) =
     ((\<lambda>n. if \<exists>m \<in> set ms. mod_nr m = n then olds (THE m. mod_nr m = n) else tbl n), olds)"
proof (induction ms arbitrary: tbl)
  case (Cons m ms)
  have "(THE m'. mod_nr m' = mod_nr m) = m" by (auto dest: mod_nr_inj)
  with Cons show ?case by (auto simp: run_exit_eq fun_eq_iff dest: mod_nr_inj)
qed simp

section \<open>Properties\<close>

text \<open>C40: run the load functions of any of the six modules, each once, in any order and then unload those that
  were loaded in any order: the system call table is as before, because their numbers differ, with one
  exception: when a kernel symbol that \<open>start_trace.c\<close> looks up is missing, this module is not
  loaded and entry 361 keeps its handler for good. After loading each entry holds the handler of its
  module, and the modules that are loaded are all but this one.\<close>

theorem modules_restore_table:
  assumes "distinct ms" and "load_all ks h ms (tbl, olds) = (loaded, k)" and "set ms' = set loaded"
  shows "fst (fold run_exit ms' k) =
      (if Start_mod \<in> set ms \<and> (ks ''mprotect_fixup'' = 0 \<or> ks ''security_file_mprotect'' = 0)
       then tbl(361 := h Start_mod) else tbl) \<and>
    (\<forall>m \<in> set ms. fst k (mod_nr m) = h m) \<and>
    (\<forall>m \<in> set ms. m \<in> set loaded \<longleftrightarrow>
       \<not> (m = Start_mod \<and> (ks ''mprotect_fixup'' = 0 \<or> ks ''security_file_mprotect'' = 0)))"
proof -
  have the: "(THE m'. mod_nr m' = mod_nr m) = m" for m by (auto dest: mod_nr_inj)
  have start: "mod_nr m = 361 \<longleftrightarrow> m = Start_mod" for m by (cases m) simp_all
  have eq: "loaded = filter (\<lambda>m. m = Start_mod \<longrightarrow> symbols_found ks) ms"
    "k = ((\<lambda>n. if \<exists>m \<in> set ms. mod_nr m = n then h (THE m. mod_nr m = n) else tbl n),
      (\<lambda>m. if m \<in> set ms then tbl (mod_nr m) else olds m))"
    using assms(2) load_all_eq [OF assms(1), of ks h tbl olds] by simp_all
  have "fst (fold run_exit ms' k) n =
      (if Start_mod \<in> set ms \<and> \<not> symbols_found ks then tbl(361 := h Start_mod) else tbl) n" for n
    using the the [of Start_mod] start assms(3) by (auto simp: eq fold_run_exit)
  then show ?thesis using the by (auto simp: eq symbols_found_def fun_eq_iff)
qed

text \<open>When a kernel symbol is missing, loading the tracing module fails with ENOSYS but the
  table entry already holds its handler and stays that way, since a module that failed to load is
  not unloaded.\<close>

theorem start_trace_init_failure:
  assumes "ks ''mprotect_fixup'' = 0 \<or> ks ''security_file_mprotect'' = 0"
  shows "fst (start_trace_init ks h (tbl, old)) = - ENOSYS \<and>
    fst (snd (start_trace_init ks h (tbl, old))) 361 = h"
  using assms by (auto simp: start_trace_init_def Let_def)

section \<open>Witnesses\<close>

text \<open>Both outcomes: three modules with all symbols, and with a missing one.\<close>

theorem modules_restore_table_witness:
  "fst (fold run_exit [Stop_mod, Start_mod, Ptree_mod]
       (snd (load_all (\<lambda>_. 1) (\<lambda>_. 7) [Ptree_mod, Start_mod, Stop_mod] ((\<lambda>_. 3), (\<lambda>_. 0))))) = (\<lambda>_. 3) \<and>
   fst (fold run_exit [Stop_mod, Ptree_mod]
       (snd (load_all (\<lambda>_. 0) (\<lambda>_. 7) [Ptree_mod, Start_mod, Stop_mod] ((\<lambda>_. 3), (\<lambda>_. 0))))) = (\<lambda>_. 3)(361 := 7)"
proof -
  let ?ms = "[Ptree_mod, Start_mod, Stop_mod]"
  have d: "distinct ?ms" by simp
  have "load_all (\<lambda>_. 1) (\<lambda>_. 7) ?ms ((\<lambda>_. 3), (\<lambda>_. 0)) =
      (?ms, snd (load_all (\<lambda>_. 1) (\<lambda>_. 7) ?ms ((\<lambda>_. 3), (\<lambda>_. 0))))"
    by (simp add: load_all_eq symbols_found_def del: load_all.simps)
  from modules_restore_table [OF d this, of "[Stop_mod, Start_mod, Ptree_mod]"]
  have "fst (fold run_exit [Stop_mod, Start_mod, Ptree_mod]
       (snd (load_all (\<lambda>_. 1) (\<lambda>_. 7) ?ms ((\<lambda>_. 3), (\<lambda>_. 0))))) = (\<lambda>_. 3)"
    by (simp add: insert_commute del: load_all.simps fold.simps)
  moreover have "load_all (\<lambda>_. 0) (\<lambda>_. 7) ?ms ((\<lambda>_. 3), (\<lambda>_. 0)) =
      ([Ptree_mod, Stop_mod], snd (load_all (\<lambda>_. 0) (\<lambda>_. 7) ?ms ((\<lambda>_. 3), (\<lambda>_. 0))))"
    by (simp add: load_all_eq symbols_found_def del: load_all.simps)
  from modules_restore_table [OF d this, of "[Stop_mod, Ptree_mod]"]
  have "fst (fold run_exit [Stop_mod, Ptree_mod]
       (snd (load_all (\<lambda>_. 0) (\<lambda>_. 7) ?ms ((\<lambda>_. 3), (\<lambda>_. 0))))) = (\<lambda>_. 3)(361 := 7)"
    by (simp add: insert_commute del: load_all.simps fold.simps)
  ultimately show ?thesis by (rule conjI)
qed

theorem start_trace_init_failure_witness:
  "fst (snd (start_trace_init (\<lambda>_. 0) 7 ((\<lambda>_. 3), 0))) 361 = 7"
  using start_trace_init_failure [of "\<lambda>_. 0" 7 "\<lambda>_. 3" 0] by simp

end
