(* ===== verification/Spec2Isabelle.thy ===== *)
theory Spec2Isabelle
  imports Ras_Proofs Rt_Class Rt_Admission Core_Wait_Proofs Core_Acct_Proofs Core_Load_Proofs Core_Proofs Core_Switch_Proofs
    Core_Idle_Proofs Core_Boot_Proofs Core_Affinity_Proofs Core_Kernel Ras_Menu Page_Trace_Proofs Ptree_Proofs Client_Server_Proofs Cmp_Proofs Syscall_Modules
begin

text \<open>
  Verification of two operating-system projects: the files under \<open>src/Project1\<close> (a system call that lists
  the process tree, programs that print it, and an encryption service) and under \<open>src/Project2\<close> (a modified Linux
  3.4 for the goldfish ARM emulator, with a race-averse scheduling class (RAS), page-write tracing and the tools around
  them). The development translates the C code into HOL functions, function by function, and proves what makes each
  part correct. Names follow the source; a definition whose name HOL already uses gets a suffix.

  The target machine is 32-bit ARM on one processor (\<open>goldfish_armv7_defconfig\<close> has no SMP): \<open>int\<close> and
  \<open>long\<close> are 32 bits, \<open>u64\<close> is 64 bits. Code under \<open>CONFIG_SMP\<close> and other switches that are off is not
  part of the program and not modelled. Locks, RCU and barriers have no effect when every function runs to its end on one
  processor; where code sleeps or several programs run, the interleavings are explicit step relations.

  How the parts of the program interact. \<open>core.c\<close> runs the processor: it queues, wakes, picks and switches
  tasks through the operation tables of the scheduling classes, of which \<open>rt.c\<close> and \<open>ras.c\<close> are here.
  The RAS class computes the time slice of a task from its group (foreground or background) and from \<open>wcounts\<close>,
  the number of traced page writes. That number is counted in \<open>fault.c\<close>: \<open>sys_start_trace\<close> makes an area
  read-only and sets \<open>trace_flag\<close>, and each write fault in a traced task adds one. The tick functions of the classes
  print a line per tick for traced tasks, which the program \<open>cmp.c\<close> reads to compare the policies.

  Theories and the code they model.
  \<^item> \<open>Prelude\<close>, \<open>C_Lib\<close>: machine types, error numbers, kernel lists as queues, and the C library
    functions \<open>atoi\<close>, \<open>printf("%d")\<close> and \<open>strncmp\<close>.
  \<^item> \<open>Sched_Types\<close>: \<open>include/linux/sched.h\<close> and \<open>kernel/sched/sched.h\<close>: tasks, entities, run queues,
    groups and the whole scheduler state. Pointers are numbers into stores; an object is numbered after its parent.
    \<open>Sched_Examples\<close> has the concrete states of the witnesses.
  \<^item> \<open>Ras\<close>, \<open>Ras_Proofs\<close>: every operation of \<open>kernel/sched/ras.c\<close>. The class keeps its invariant
    in every sequence of calls, a task runs exactly its slice and then goes to the end of the queue, the tables of
    weights and slices, and the class contract \<open>class_queue\<close> of theory \<open>Sched_Class\<close>.
  \<^item> \<open>Rt\<close>, \<open>Rt_Array\<close>, \<open>Rt_Proofs\<close>, \<open>Rt_Class\<close>: \<open>kernel/sched/rt.c\<close> with group
    scheduling: the priority array and its bitmap, the hierarchy of groups, throttling and the period timer. The
    invariant ties bitmap, counters, highest priority and queues together in every reachable state; the class picks a
    task of the highest priority at each level and always finds one.
  \<^item> \<open>Core_Sched\<close>, \<open>Core_Prio\<close>, \<open>Core_Frames\<close>, \<open>Core_Proofs\<close>: the scheduler core and the
    system calls on priorities and policies. The locale \<open>class_keeps\<close> is what the core needs of a class; the two
    classes here interpret it and it is a hypothesis (\<open>ext_ok\<close>) on the classes outside the repository.
  \<^item> \<open>Rt_Bandwidth\<close>, \<open>Rt_Bandwidth_Proofs\<close>, \<open>Rt_Admission\<close>: the tree of task groups, the walk over it
    and the admission control of real-time bandwidth in \<open>core.c\<close>. The walk with its two jump labels equals a
    recursive traversal; the shares of the children of a group never exceed its own; a failing call changes nothing.
  \<^item> \<open>Core_Wait\<close>, \<open>Core_Wait_Proofs\<close>: wait queues and completions of \<open>core.c\<close>. The locale
    \<open>waker\<close> is the contract of a wake function and \<open>try_to_wake_up\<close> fulfils it (sublocale
    \<open>core_machine\<close>); signals are neither lost nor used twice in any interleaving of waiters and signallers.
  \<^item> \<open>Core_Switch\<close>, \<open>Core_Switch_Proofs\<close>: the context switch of \<open>core.c\<close> with the reference
    counts of address spaces: the address space a kernel thread borrows is never freed under it, and none is freed twice.
  \<^item> \<open>Core_Idle\<close>, \<open>Core_Idle_Proofs\<close>: the idle task, counters, waiting for input and output, the other
    ways to give up the processor, and the emergency key that takes processes out of the real-time class.
  \<^item> \<open>Core_Boot\<close>, \<open>Core_Boot_Proofs\<close>: \<open>sched_init\<close> and the first task of
    \<open>include/linux/init_task.h\<close>: starting from zeroed memory they establish the invariants of the other components.
  \<^item> \<open>Core_Queues\<close>, \<open>Core_System\<close>, \<open>Core_Kernel\<close>: the parts of the scheduler together. The abstract
    state is a map from the queued tasks to their classes; the arrays of the real-time class, the list of the race-averse
    class and the counters of the run queue implement it (\<open>queues\<close>). The locale \<open>class_queues\<close> extends
    \<open>class_keeps\<close> to this contract; both classes interpret it and \<open>ext_queues\<close> assumes it of the others. From
    \<open>sched_init\<close> on, whatever the entry points are called with (\<open>sys_step\<close>), a task is on the queue of its class
    exactly when its flag says so and the counters agree; a scheduling pass always finds a task, and never a fair one while
    a race-averse one is ready.
  \<^item> \<open>Core_Affinity\<close>, \<open>Core_Affinity_Proofs\<close>: the affinity system calls; every error path gives back
    the reference to the task.
  \<^item> \<open>Core_Load\<close>, \<open>Core_Load_Proofs\<close>: the load averages, on 32-bit words that wrap; the fast power
    is within half a unit of the last place per factor of the exact power, the averages stay between their inputs, and no task is lost from the counts.
  \<^item> \<open>Core_Acct\<close>, \<open>Core_Acct_Proofs\<close>: the accounting of ticks; each tick is counted once, and reported
    times never decrease.
  \<^item> \<open>Page_Trace\<close>, \<open>Page_Trace_Proofs\<close>: \<open>page-trace/*.c\<close>, \<open>set_wcounts.c\<close>,
    \<open>rr_fifo_trace.c\<close> and \<open>arch/arm/mm/fault.c\<close>: starting a trace makes every page of the area
    unwritable, and a write fault of a traced task is counted exactly once.
  \<^item> \<open>Ras_Menu\<close>: \<open>ras_trace_bg.c\<close>, the program that puts a process in the RAS class, over the modelled
    system calls: its last line is for the policy the process has, and \<open>SCHED_IDLE\<close> it does not print.
  \<^item> \<open>Syscall_Modules\<close>: loading and unloading the modules that install the system calls, with a load that fails.
  \<^item> \<open>Ptree\<close>, \<open>Ptree_Proofs\<close>: \<open>Problem1/sys_ptree.c\<close>, \<open>Problem2/ptree.c\<close> and
    \<open>Problem3/ptree_pchr.c\<close>: the walk over
    the process links writes the pre-order listing of the process tree.
  \<^item> \<open>Client_Server\<close>, \<open>Client_Server_Proofs\<close>: \<open>Problem4\<close>: the buffered line reader, a service
    thread, the admission counter shared by the threads, whose two critical sections are steps of their own, and the client.
  \<^item> \<open>Cmp\<close>, \<open>Cmp_Proofs\<close>: \<open>Project2/cmp/cmp.c\<close>: the times computed from a log; what overruns its line buffer of
    500 bytes or reads behind the end of a line is undefined in the model.

  Modelling choices. A C function is a function on the explicit state; a step that may fail or stop the kernel
  (\<open>BUG_ON\<close>, reading outside a table) returns an option; system calls return their error numbers. Unsigned fields
  whose wrap-around matters are words; signed numbers that are only compared are integers. Loops are structural
  recursion on the list they follow, or a function with a measure (\<open>show_nat\<close>, \<open>ca_chain\<close>,
  \<open>se_chain\<close>, where links go to smaller numbers). Two loops follow links in any state and are partial functions
  whose value \<open>None\<close> means not returning: \<open>walk_loop\<close>, proved to return for every tree of groups, and
  \<open>schedule1\<close>, which repeats while a task is marked for rescheduling. No fuel is used in the scheduler; where a
  theory takes a list of outcomes (\<open>period_timer_loop\<close>, the reads of the line reader) the list is the input.
  Code outside \<open>src\<close> enters as a field of a record of services (\<open>kenv\<close>, \<open>kservices\<close>,
  \<open>mm_ops\<close>, \<open>pt_ops\<close>) or an argument, and what is assumed of it is a named hypothesis with an instance in a
  witness.

  Where a theorem shows behaviour that contradicts a comment or the intention of the code, its text says so: the child
  of a RAS task leaves the RAS class, the check for real-time tasks in a group looks at the root group only, waiting
  clients that leave let too many others in, and the smaller ones in the lemmas beside the properties.

  Not modelled, and why. SMP, scheduling domains, CPU hotplug and migration: not compiled. The stop, fair and idle
  classes, fork, signals, control groups, timers, the memory manager and the page tables: not in the repository, hence
  parameters; the module loader, which unloads only what it loaded, is outside too. The fields of \<open>init_task.h\<close> that belong to those, the feature switches, \<open>debug.c\<close> apart
  from \<open>task_group_path\<close>: constants and printing. The test programs \<open>page_trace_test.c\<close> and
  \<open>ras_pt_test.c\<close>, socket set-up and the error-exit wrappers: input, output and calls of the modelled code without state of their own. Kernel
  log lines are recorded only where \<open>cmp.c\<close> reads them.
\<close>

end
